(* ===== verification/Prelude.thy ===== *)
theory Prelude
  imports Main "HOL-Library.List_Lexorder" "HOL-Library.Char_ord" "HOL-Library.Multiset"
    "HOL-Library.Product_Lexorder" "HOL-Library.AList"
begin

text \<open>
  Shared vocabulary of the development: what the dashboard uses of Go itself and of Go's
  standard library, and the list lemmas the components share.

  \<^item> A Go \<open>string\<close> or \<open>[]byte\<close> is a list of bytes; Isabelle's \<open>char\<close> is exactly a byte, so
    both are \<open>string\<close>. Go compares strings bytewise and lexicographically, which is the order
    \<open>List_Lexorder\<close> puts on \<open>char list\<close>.
  \<^item> A Go \<open>int\<close> or \<open>int64\<close> is an \<open>int\<close> in the range of \<open>is_int64\<close>; an operation that can leave
    the range is wrapped by \<open>wrap64\<close>.
  \<^item> A function that returns \<open>(T, error)\<close> returns \<open>'e + 'a\<close>, \<open>Inl\<close> being the error.
  \<^item> A Go map that is ranged over is an association list in the order the runtime happens to
    visit it.
\<close>

named_theorems go_simps \<open>unfolding rules of the standard-library model\<close>

type_synonym bytes = "char list"
type_synonym ('e, 'a) result = "'e + 'a"

section \<open>Machine integers\<close>

definition wrap64 :: "int \<Rightarrow> int" where
  "wrap64 x = (x + 2 ^ 63) mod 2 ^ 64 - 2 ^ 63"

definition is_int64 :: "int \<Rightarrow> bool" where
  "is_int64 x \<longleftrightarrow> - (2 ^ 63) \<le> x \<and> x < 2 ^ 63"

abbreviation MaxInt64 :: int where
  "MaxInt64 \<equiv> 9223372036854775807"

abbreviation MinInt64 :: int where
  "MinInt64 \<equiv> - 9223372036854775808"

lemma wrap64_id [simp]: "is_int64 x \<Longrightarrow> wrap64 x = x"
  by (simp add: wrap64_def is_int64_def mod_pos_pos_trivial)

lemma wrap64_wrap64_add [simp]: "wrap64 (wrap64 x + y) = wrap64 (x + y)"
proof -
  have "wrap64 x + y + 2 ^ 63 = (x + 2 ^ 63) mod 2 ^ 64 + y" by (simp add: wrap64_def)
  then have "(wrap64 x + y + 2 ^ 63) mod 2 ^ 64 = ((x + 2 ^ 63) mod 2 ^ 64 + y) mod 2 ^ 64" by (simp only:)
  also have "\<dots> = (x + y + 2 ^ 63) mod 2 ^ 64" unfolding mod_add_left_eq by (simp only: ac_simps)
  finally show ?thesis by (simp only: wrap64_def [of "wrap64 x + y"] wrap64_def [of "x + y"])
qed

lemma is_int64_wrap64 [simp]: "is_int64 (wrap64 x)"
  using pos_mod_bound [of "2 ^ 64" "x + 2 ^ 63"] pos_mod_sign [of "2 ^ 64" "x + 2 ^ 63"]
  by (simp add: wrap64_def is_int64_def)

section \<open>strings\<close>

definition is_ascii :: "string \<Rightarrow> bool" where
  "is_ascii s = list_all (\<lambda>c. of_char c < (128 :: nat)) s"

definition ascii_lower :: "char \<Rightarrow> char" where
  "ascii_lower c = (if 65 \<le> (of_char c :: nat) \<and> (of_char c :: nat) \<le> 90
     then char_of (of_char c + 32 :: nat) else c)"

text \<open>
  \<open>strings.ToLower\<close>: bytewise on an ASCII string; any other string goes through the tables of
  the Unicode standard, which are the parameter \<open>uni\<close>.
\<close>

definition ToLower :: "(string \<Rightarrow> string) \<Rightarrow> string \<Rightarrow> string" where
  "ToLower uni s = (if is_ascii s then map ascii_lower s else uni s)"

fun HasPrefix :: "string \<Rightarrow> string \<Rightarrow> bool" where
  "HasPrefix s [] = True"
| "HasPrefix [] (p # ps) = False"
| "HasPrefix (c # s) (p # ps) = (c = p \<and> HasPrefix s ps)"

fun Contains :: "string \<Rightarrow> string \<Rightarrow> bool" where
  "Contains [] sub = (sub = [])"
| "Contains (c # s) sub = (HasPrefix (c # s) sub \<or> Contains s sub)"

text \<open>\<open>strings.Split(s, sep)\<close> for a one-byte separator: never the empty list.\<close>

fun Split :: "char \<Rightarrow> string \<Rightarrow> string list" where
  "Split sep [] = [[]]"
| "Split sep (c # s) =
     (if c = sep then [] # Split sep s
      else (case Split sep s of [] \<Rightarrow> [[c]] | x # xs \<Rightarrow> (c # x) # xs))"

fun Join :: "char \<Rightarrow> string list \<Rightarrow> string" where
  "Join sep [] = []"
| "Join sep [x] = x"
| "Join sep (x # xs) = x @ sep # Join sep xs"

text \<open>\<open>bytes.IndexByte\<close>: \<open>None\<close> is Go's \<open>-1\<close>.\<close>

fun IndexByte :: "string \<Rightarrow> char \<Rightarrow> nat option" where
  "IndexByte [] b = None"
| "IndexByte (c # s) b = (if c = b then Some 0 else map_option Suc (IndexByte s b))"

text \<open>\<open>strings.SplitN(s, sep, 2)\<close> for a one-byte separator: one part without it, two with it.\<close>

definition SplitN2 :: "char \<Rightarrow> string \<Rightarrow> string list" where
  "SplitN2 sep s =
     (case IndexByte s sep of None \<Rightarrow> [s] | Some i \<Rightarrow> [take i s, drop (Suc i) s])"

text \<open>\<open>strings.LastIndex(s, sep)\<close> for a one-byte separator.\<close>

definition LastIndexByte :: "string \<Rightarrow> char \<Rightarrow> nat option" where
  "LastIndexByte s b = map_option (\<lambda>i. length s - 1 - i) (IndexByte (rev s) b)"

text \<open>\<open>strings.Replace(s, old, new, 1)\<close> for a non-empty \<open>old\<close>.\<close>

fun ReplaceFirst :: "string \<Rightarrow> string \<Rightarrow> string \<Rightarrow> string" where
  "ReplaceFirst [] old new = []"
| "ReplaceFirst (c # s) old new =
     (if HasPrefix (c # s) old then new @ drop (length old) (c # s)
      else c # ReplaceFirst s old new)"

text \<open>
  \<open>strings.TrimSpace\<close>: the UTF-8 encodings of the code points for which \<open>unicode.IsSpace\<close>
  holds, removed from both ends. On the right a suffix is such an encoding exactly when
  \<open>utf8.DecodeLastRune\<close> yields that code point.
\<close>

definition space_runes :: "string list" where
  "space_runes =
     map (map char_of)
       ([[9], [10], [11], [12], [13], [32], [194, 133], [194, 160], [225, 154, 128]]
        @ map (\<lambda>i. [226, 128, i]) [128 ..< 139]
        @ [[226, 128, 168], [226, 128, 169], [226, 128, 175], [226, 129, 159],
           [227, 128, 128 :: nat]])"

fun strip_rune :: "string list \<Rightarrow> string \<Rightarrow> string option" where
  "strip_rune [] s = None"
| "strip_rune (r # rs) s =
     (if r \<noteq> [] \<and> HasPrefix s r then Some (drop (length r) s) else strip_rune rs s)"

lemma HasPrefix_iff: "HasPrefix s p \<longleftrightarrow> (\<exists>t. s = p @ t)"
  by (induction s p rule: HasPrefix.induct) auto

lemma HasPrefix_append [simp]: "HasPrefix (p @ t) p"
  by (simp add: HasPrefix_iff)

lemma HasPrefix_trans: "HasPrefix s p \<Longrightarrow> HasPrefix p q \<Longrightarrow> HasPrefix s q"
  by (auto simp: HasPrefix_iff)

lemma strip_rune_length: "strip_rune rs s = Some t \<Longrightarrow> length t < length s"
  by (induction rs) (auto simp: HasPrefix_iff split: if_splits)

function trim_left :: "string list \<Rightarrow> string \<Rightarrow> string" where
  "trim_left rs s = (case strip_rune rs s of None \<Rightarrow> s | Some t \<Rightarrow> trim_left rs t)"
  by pat_completeness auto
termination
  by (relation "measure (\<lambda>(rs, s). length s)") (auto dest: strip_rune_length)

declare trim_left.simps [simp del]

definition TrimSpace :: "string \<Rightarrow> string" where
  "TrimSpace s =
     rev (trim_left (map rev space_runes) (rev (trim_left space_runes s)))"

lemma strip_rune_None: "\<forall>r \<in> set rs. r \<noteq> [] \<longrightarrow> hd r \<noteq> hd s \<Longrightarrow> strip_rune rs s = None"
proof (induction rs)
  case (Cons r rs)
  then show ?case by (cases r; cases s) auto
qed simp

definition visible :: "char \<Rightarrow> bool" where
  "visible c \<longleftrightarrow> 33 \<le> (of_char c :: nat) \<and> (of_char c :: nat) < 128"

lemma space_runes_ends:
  "\<forall>r \<in> set space_runes. r \<noteq> [] \<and> \<not> visible (hd r) \<and> \<not> visible (last r)"
  by (auto simp: space_runes_def visible_def)

text \<open>A string that begins and ends with a visible ASCII character is not trimmed.\<close>

lemma TrimSpace_id:
  assumes "s \<noteq> []" "visible (hd s)" "visible (last s)"
  shows "TrimSpace s = s"
proof -
  have "strip_rune space_runes s = None"
    using space_runes_ends assms(2) by (intro strip_rune_None) auto
  then have "trim_left space_runes s = s" by (simp add: trim_left.simps [of _ s])
  moreover have "strip_rune (map rev space_runes) (rev s) = None"
    using space_runes_ends assms(3) by (intro strip_rune_None) (auto simp: hd_rev)
  then have "trim_left (map rev space_runes) (rev s) = rev s" by (simp add: trim_left.simps [of _ "rev s"])
  ultimately show ?thesis by (simp add: TrimSpace_def)
qed

text \<open>\<open>TrimSpace\<close> leaves nothing to trim, and only removes characters.\<close>

lemma strip_rune_None_iff: "strip_rune rs s = None \<longleftrightarrow> (\<forall>r \<in> set rs. r \<noteq> [] \<longrightarrow> \<not> HasPrefix s r)"
  by (induction rs) auto

lemma strip_trim_left: "strip_rune rs (trim_left rs s) = None"
  by (induction rs s rule: trim_left.induct) (subst trim_left.simps, simp split: option.split)

lemma trim_left_None: "strip_rune rs s = None \<Longrightarrow> trim_left rs s = s"
  by (subst trim_left.simps) simp

lemma strip_rune_suffix: "strip_rune rs s = Some t \<Longrightarrow> \<exists>p. s = p @ t"
  by (induction rs) (auto simp: HasPrefix_iff split: if_splits)

lemma trim_left_suffix: "\<exists>p. s = p @ trim_left rs s"
proof (induction rs s rule: trim_left.induct)
  case (1 rs s)
  show ?case
  proof (cases "strip_rune rs s")
    case (Some t)
    then obtain p where "s = p @ t" using strip_rune_suffix by blast
    moreover obtain q where "t = q @ trim_left rs t" using 1 Some by blast
    moreover have "trim_left rs s = trim_left rs t" by (subst trim_left.simps) (simp add: Some)
    ultimately show ?thesis by (metis append.assoc)
  qed (subst trim_left.simps, simp)
qed

lemma TrimSpace_prefix: "\<exists>w. trim_left space_runes s = TrimSpace s @ w"
proof -
  obtain p where "rev (trim_left space_runes s) = p @ trim_left (map rev space_runes) (rev (trim_left space_runes s))"
    using trim_left_suffix by blast
  then have "trim_left space_runes s = TrimSpace s @ rev p" unfolding TrimSpace_def by (metis rev_append rev_rev_ident)
  then show ?thesis ..
qed

lemma TrimSpace_idem [simp]: "TrimSpace (TrimSpace s) = TrimSpace s"
proof -
  obtain w where w: "trim_left space_runes s = TrimSpace s @ w" using TrimSpace_prefix by blast
  have "strip_rune space_runes (TrimSpace s @ w) = None" using strip_trim_left [of space_runes s] w by simp
  then have "strip_rune space_runes (TrimSpace s) = None" by (auto simp: strip_rune_None_iff HasPrefix_iff)
  then have "trim_left space_runes (TrimSpace s) = TrimSpace s" by (rule trim_left_None)
  moreover have "trim_left (map rev space_runes) (rev (TrimSpace s)) = rev (TrimSpace s)"
    unfolding TrimSpace_def rev_rev_ident by (rule trim_left_None [OF strip_trim_left])
  ultimately show ?thesis by (simp add: TrimSpace_def [of "TrimSpace s"])
qed

lemma set_TrimSpace: "set (TrimSpace s) \<subseteq> set s"
proof -
  obtain w where "trim_left space_runes s = TrimSpace s @ w" using TrimSpace_prefix by blast
  moreover obtain p where "s = p @ trim_left space_runes s" using trim_left_suffix by blast
  ultimately have "s = p @ TrimSpace s @ w" by simp
  then show ?thesis by (metis Un_iff set_append subsetI)
qed

section \<open>strconv\<close>

definition is_digit :: "char \<Rightarrow> bool" where
  "is_digit c \<longleftrightarrow> 48 \<le> (of_char c :: nat) \<and> (of_char c :: nat) \<le> 57"

definition digit_val :: "char \<Rightarrow> int" where
  "digit_val c = int (of_char c) - 48"

definition digit_char :: "nat \<Rightarrow> char" where
  "digit_char d = char_of (48 + d)"

definition digits_val :: "string \<Rightarrow> int" where
  "digits_val s = foldl (\<lambda>acc c. acc * 10 + digit_val c) 0 s"

datatype num_error = ErrSyntax | ErrRange

text \<open>
  \<open>strconv.ParseInt(s, 10, 64)\<close>, which is \<open>strconv.Atoi\<close> on a 64-bit platform: a value and an
  optional error. A syntax error comes with the value 0, a range error with the nearest
  representable value, and callers that drop the error see that value.
\<close>

definition parse_magnitude :: "bool \<Rightarrow> string \<Rightarrow> int \<times> num_error option" where
  "parse_magnitude neg ds =
     (if ds = [] \<or> \<not> list_all is_digit ds then (0, Some ErrSyntax)
      else let v = digits_val ds in
        if neg then (if v > 2 ^ 63 then (MinInt64, Some ErrRange) else (- v, None))
        else (if v \<ge> 2 ^ 63 then (MaxInt64, Some ErrRange) else (v, None)))"

definition ParseInt :: "string \<Rightarrow> int \<times> num_error option" where
  "ParseInt s =
     (case s of
        [] \<Rightarrow> (0, Some ErrSyntax)
      | c # cs \<Rightarrow>
          if c = CHR ''-'' then parse_magnitude True cs
          else if c = CHR ''+'' then parse_magnitude False cs
          else parse_magnitude False (c # cs))"

abbreviation Atoi :: "string \<Rightarrow> int \<times> num_error option" where
  "Atoi \<equiv> ParseInt"

fun nat_digits :: "nat \<Rightarrow> string" where
  "nat_digits n = (if n < 10 then [digit_char n] else nat_digits (n div 10) @ [digit_char (n mod 10)])"

declare nat_digits.simps [simp del]

definition FormatInt :: "int \<Rightarrow> string" where
  "FormatInt v = (if v < 0 then CHR ''-'' # nat_digits (nat (- v)) else nat_digits (nat v))"

section \<open>Lemmas on the string functions\<close>

lemma IndexByte_None [simp]: "IndexByte s b = None \<longleftrightarrow> b \<notin> set s"
  by (induction s) auto

lemma IndexByte_SomeD:
  "IndexByte s b = Some i \<Longrightarrow> i < length s \<and> s ! i = b \<and> b \<notin> set (take i s)"
proof (induction s arbitrary: i)
  case (Cons c s)
  show ?case
  proof (cases "c = b")
    case True
    with Cons.prems show ?thesis by auto
  next
    case False
    with Cons.prems obtain j where j: "IndexByte s b = Some j" "i = Suc j" by auto
    with Cons.IH [of j] False show ?thesis by auto
  qed
qed simp

lemma IndexByte_split [simp]: "b \<notin> set p \<Longrightarrow> IndexByte (p @ b # s) b = Some (length p)"
  by (induction p) auto

lemma IndexByte_recompose:
  assumes "IndexByte s b = Some i"
  shows "take i s @ b # drop (Suc i) s = s"
  using IndexByte_SomeD [OF assms] by (metis id_take_nth_drop)

lemma SplitN2_split [simp]: "b \<notin> set p \<Longrightarrow> SplitN2 b (p @ b # s) = [p, s]"
  by (simp add: SplitN2_def)

lemma Split_not_Nil [simp]: "Split sep s \<noteq> []"
  by (induction s) (auto split: list.splits)

lemma Join_Cons: "xs \<noteq> [] \<Longrightarrow> Join sep (x # xs) = x @ sep # Join sep xs"
  by (cases xs) auto

lemma Join_Cons_head: "Join sep ((c # x) # xs) = c # Join sep (x # xs)"
  by (cases xs) auto

lemma Join_Split: "Join sep (Split sep s) = s"
proof (induction s)
  case (Cons c s)
  then show ?case
    by (cases "Split sep s") (auto simp: Join_Cons Join_Cons_head)
qed simp

lemma Split_inject [simp]: "Split sep s = Split sep t \<longleftrightarrow> s = t"
  by (metis Join_Split)

lemma Split_append: "sep \<notin> set p \<Longrightarrow> Split sep (p @ sep # s) = p # Split sep s"
  by (induction p) auto

lemma Split_single: "sep \<notin> set p \<Longrightarrow> Split sep p = [p]"
  by (induction p) auto

lemma Split_Join: "ps \<noteq> [] \<Longrightarrow> \<forall>p \<in> set ps. sep \<notin> set p \<Longrightarrow> Split sep (Join sep ps) = ps"
proof (induction ps)
  case (Cons p ps)
  then show ?case by (cases ps) (simp_all add: Split_single Join_Cons Split_append del: Join.simps(3))
qed simp

lemma Split_no_sep: "x \<in> set (Split sep s) \<Longrightarrow> sep \<notin> set x"
proof (induction s arbitrary: x)
  case (Cons c s)
  then show ?case
    by (cases "Split sep s") (auto split: if_splits)
qed simp

section \<open>Lemmas on strconv\<close>

lemma digits_val_snoc: "digits_val (s @ [c]) = digits_val s * 10 + digit_val c"
  by (simp add: digits_val_def)

lemma digit_char [simp]:
  assumes "d < 10"
  shows "is_digit (digit_char d)" and "digit_val (digit_char d) = int d"
  using assms by (simp_all add: is_digit_def digit_val_def digit_char_def)

lemma nat_digits_digits: "list_all is_digit (nat_digits n)"
proof (induction n rule: nat_digits.induct)
  case (1 n)
  then show ?case by (subst nat_digits.simps) simp
qed

lemma nat_digits_not_Nil [simp]: "nat_digits n \<noteq> []"
  by (subst nat_digits.simps) simp

lemma digits_val_nat_digits [simp]: "digits_val (nat_digits n) = int n"
proof (induction n rule: nat_digits.induct)
  case (1 n)
  show ?case
  proof (cases "n < 10")
    case True
    then show ?thesis by (subst nat_digits.simps) (simp add: digits_val_def)
  next
    case False
    have "digits_val (nat_digits n) = int (n div 10) * 10 + int (n mod 10)"
      using False "1.IH" by (subst nat_digits.simps) (simp add: digits_val_snoc)
    also have "\<dots> = int n" by presburger
    finally show ?thesis .
  qed
qed

lemma hd_nat_digits: "is_digit (hd (nat_digits n))"
  using nat_digits_digits [of n] by (cases "nat_digits n") auto

lemma ParseInt_FormatInt [simp]:
  assumes "is_int64 v"
  shows "ParseInt (FormatInt v) = (v, None)"
proof (cases "v < 0")
  case True
  with assms show ?thesis
    by (simp add: FormatInt_def ParseInt_def parse_magnitude_def nat_digits_digits is_int64_def)
next
  case False
  have "c # cs = nat_digits (nat v) \<Longrightarrow> c \<noteq> CHR ''-'' \<and> c \<noteq> CHR ''+''" for c cs
    using hd_nat_digits [of "nat v"] by (auto simp: is_digit_def dest: sym)
  with assms False show ?thesis
    using nat_digits_digits [of "nat v"]
      digits_val_nat_digits [of "nat v"]
    by (auto simp: FormatInt_def ParseInt_def parse_magnitude_def is_int64_def
        simp del: digits_val_nat_digits split: list.splits)
qed

lemma FormatInt_inject:
  assumes "is_int64 v" "is_int64 w" "FormatInt v = FormatInt w"
  shows "v = w"
  by (metis ParseInt_FormatInt assms prod.inject)

lemma digits_val_nonneg: "list_all is_digit ds \<Longrightarrow> 0 \<le> digits_val ds"
proof (induction ds rule: rev_induct)
  case (snoc c ds)
  then show ?case by (simp add: digits_val_snoc digit_val_def is_digit_def)
qed (simp add: digits_val_def)

lemma parse_magnitude_range: "is_int64 (fst (parse_magnitude neg ds))"
  using digits_val_nonneg [of ds] by (auto simp: parse_magnitude_def is_int64_def Let_def)

lemma ParseInt_range: "is_int64 (fst (ParseInt s))"
  using parse_magnitude_range by (auto simp: ParseInt_def is_int64_def split: list.splits)

section \<open>Sorting\<close>

text \<open>
  \<open>sort.Slice\<close> with a comparison of keys is \<open>sort_key\<close>. Go's sort is not stable, but on
  elements with pairwise distinct keys the sorted list is unique, and then it does not depend
  on the order in which a Go map was ranged over.
\<close>

lemma sort_key_cong_mset:
  assumes "mset xs = mset ys" "distinct (map f xs)"
  shows "sort_key f xs = sort_key f ys"
proof (rule sort_key_inj_key_eq)
  show "mset xs = mset (sort_key f ys)" using assms(1) by simp
  show "inj_on f (set xs)" using assms(2) by (simp add: distinct_map)
qed simp

lemma distinct_map_sort_key [simp]: "distinct (map f (sort_key g xs)) = distinct (map f xs)"
  by (metis distinct_map distinct_sort set_sort)

section \<open>Association lists\<close>

lemma set_alist_update:
  "(k, v) \<in> set (AList.update k' v' al) \<Longrightarrow> (k, v) = (k', v') \<or> (k, v) \<in> set al"
  by (induction al) (auto split: if_splits)

lemma set_alist_delete: "set (AList.delete k al) = {(k', v). (k', v) \<in> set al \<and> k' \<noteq> k}"
  by (auto simp: AList.delete_eq)

text \<open>The rows a loop keeps have distinct keys when its inputs have.\<close>

lemma set_map_filter: "set (List.map_filter g xs) = {y. \<exists>x \<in> set xs. g x = Some y}"
  by (induction xs) (auto simp: List.map_filter_simps split: option.splits)

lemma distinct_map_option_filter:
  assumes "distinct (map k xs)" "\<And>x y. g x = Some y \<Longrightarrow> f y = k x"
  shows "distinct (map f (List.map_filter g xs))"
  using assms(1)
proof (induction xs)
  case (Cons x xs)
  then show ?case
    by (auto simp: List.map_filter_simps set_map_filter dest!: assms(2) split: option.splits) (metis image_eqI)
qed (simp add: List.map_filter_simps)

lemma distinct_concat_by:
  assumes "distinct ks" "\<And>k. k \<in> set ks \<Longrightarrow> distinct (map g (f k))"
    and "\<And>k x. k \<in> set ks \<Longrightarrow> x \<in> set (f k) \<Longrightarrow> h (g x) = k"
  shows "distinct (map g (concat (map f ks)))"
  using assms
proof (induction ks)
  case (Cons k ks)
  have "distinct (map g (concat (map f ks)))" using Cons.prems by (intro Cons.IH) auto
  moreover have "g x \<noteq> g y" if "x \<in> set (f k)" "k' \<in> set ks" "y \<in> set (f k')" for x y k'
    using that Cons.prems(1) Cons.prems(3) [of k x] Cons.prems(3) [of k' y] by auto
  ultimately show ?case using Cons.prems(2) [of k] by (auto simp: image_iff)
qed simp

lemma map_of_filter_distinct:
  "distinct (map fst l) \<Longrightarrow>
     map_of (filter P l) k = (case map_of l k of None \<Rightarrow> None | Some v \<Rightarrow> if P (k, v) then Some v else None)"
proof (induction l)
  case (Cons x l)
  have "map_of l (fst x) = None" using Cons.prems by (simp add: map_of_eq_None_iff)
  with Cons show ?case by (cases x) (auto split: option.splits)
qed simp

lemma set_clearjunk: "(k, v) \<in> set (AList.clearjunk l) \<longleftrightarrow> map_of l k = Some v"
  by (metis distinct_clearjunk map_of_clearjunk map_of_eq_Some_iff)

end
