(* ===== verification/Base64.thy ===== *)
theory Base64
  imports Prelude
begin

text \<open>
  \<open>base64.RawURLEncoding\<close> of Go's \<open>encoding/base64\<close>, which carries the session cookie, the CSRF
  token, the seeded password and the identifiers of ACL rules. The decoder is Go's: it skips
  carriage returns and newlines wherever they stand, it wants no padding, and it does not check
  that the unused low bits of the last character are zero.
\<close>

definition b64_char :: "nat \<Rightarrow> char" where
  "b64_char n =
     (if n < 26 then char_of (65 + n)
      else if n < 52 then char_of (71 + n)
      else if n < 62 then char_of (n - 4)
      else if n = 62 then CHR ''-'' else CHR ''_'')"

definition b64_val :: "char \<Rightarrow> nat option" where
  "b64_val c =
     (let n = of_char c in
      if 65 \<le> n \<and> n \<le> 90 then Some (n - 65)
      else if 97 \<le> n \<and> n \<le> 122 then Some (n - 71)
      else if 48 \<le> n \<and> n \<le> 57 then Some (n + 4)
      else if c = CHR ''-'' then Some 62
      else if c = CHR ''_'' then Some 63
      else None)"

fun b64_encode_nat :: "nat list \<Rightarrow> char list" where
  "b64_encode_nat [] = []"
| "b64_encode_nat [a] = [b64_char (a div 4), b64_char (a mod 4 * 16)]"
| "b64_encode_nat [a, b] =
     [b64_char (a div 4), b64_char (a mod 4 * 16 + b div 16), b64_char (b mod 16 * 4)]"
| "b64_encode_nat (a # b # c # bs) =
     [b64_char (a div 4), b64_char (a mod 4 * 16 + b div 16),
      b64_char (b mod 16 * 4 + c div 64), b64_char (c mod 64)] @ b64_encode_nat bs"

definition EncodeToString :: "bytes \<Rightarrow> string" where
  "EncodeToString bs = b64_encode_nat (map of_char bs)"

fun b64_decode_vals :: "nat list \<Rightarrow> nat list option" where
  "b64_decode_vals [] = Some []"
| "b64_decode_vals [a] = None"
| "b64_decode_vals [a, b] = Some [a * 4 + b div 16]"
| "b64_decode_vals [a, b, c] = Some [a * 4 + b div 16, b mod 16 * 16 + c div 4]"
| "b64_decode_vals (a # b # c # d # vs) =
     map_option (\<lambda>bs. [a * 4 + b div 16, b mod 16 * 16 + c div 4, c mod 4 * 64 + d] @ bs)
       (b64_decode_vals vs)"

text \<open>\<open>None\<close> is Go's \<open>CorruptInputError\<close>.\<close>

definition DecodeString :: "string \<Rightarrow> bytes option" where
  "DecodeString s =
     (case those (map b64_val (filter (\<lambda>c. c \<noteq> CHR 0x0A \<and> c \<noteq> CHR 0x0D) s)) of
        None \<Rightarrow> None
      | Some vs \<Rightarrow> map_option (map char_of) (b64_decode_vals vs))"

definition is_b64 :: "char \<Rightarrow> bool" where
  "is_b64 c \<longleftrightarrow> b64_val c \<noteq> None"

lemma b64_val_char [simp]: "n < 64 \<Longrightarrow> b64_val (b64_char n) = Some n"
  by (auto simp: b64_val_def b64_char_def Let_def)

lemma is_b64_char [simp]: "is_b64 (b64_char n)"
proof (cases "n < 64")
  case True
  then show ?thesis by (simp add: is_b64_def)
next
  case False
  then show ?thesis by (simp add: is_b64_def b64_char_def b64_val_def)
qed

lemma EncodeToString_alphabet: "list_all is_b64 (EncodeToString bs)"
proof -
  have "list_all is_b64 (b64_encode_nat ns)" for ns
    by (induction ns rule: b64_encode_nat.induct) simp_all
  then show ?thesis by (simp add: EncodeToString_def)
qed

lemma not_is_b64 [simp]:
  "\<not> is_b64 (CHR ''.'')" "\<not> is_b64 (CHR 0x0A)" "\<not> is_b64 (CHR 0x0D)" "\<not> is_b64 (CHR ''/'')"
  by (simp_all add: is_b64_def b64_val_def)

lemma notin_EncodeToString [simp]: "\<not> is_b64 c \<Longrightarrow> c \<notin> set (EncodeToString bs)"
  using EncodeToString_alphabet [of bs] by (auto simp: list_all_iff)

fun b64_encode_vals :: "nat list \<Rightarrow> nat list" where
  "b64_encode_vals [] = []"
| "b64_encode_vals [a] = [a div 4, a mod 4 * 16]"
| "b64_encode_vals [a, b] = [a div 4, a mod 4 * 16 + b div 16, b mod 16 * 4]"
| "b64_encode_vals (a # b # c # bs) =
     [a div 4, a mod 4 * 16 + b div 16, b mod 16 * 4 + c div 64, c mod 64]
       @ b64_encode_vals bs"

lemma b64_encode_nat_vals: "b64_encode_nat bs = map b64_char (b64_encode_vals bs)"
  by (induction bs rule: b64_encode_nat.induct) simp_all

lemma b64_encode_vals_bound:
  "list_all (\<lambda>b. b < 256) bs \<Longrightarrow> list_all (\<lambda>v. v < 64) (b64_encode_vals bs)"
proof (induction bs rule: b64_encode_vals.induct)
  case (4 a b c bs)
  then show ?case by simp linarith
qed (simp_all, linarith+)

lemma b64_quantum:
  assumes "(b::nat) < 256" "(c::nat) < 256"
  shows "b div 16 div 16 = 0" "b div 16 mod 16 = b div 16"
    "c div 64 div 4 = 0" "c div 64 mod 4 = c div 64"
proof -
  have "b div 16 < 16" "c div 64 < 4" using assms by linarith+
  then show "b div 16 div 16 = 0" "b div 16 mod 16 = b div 16"
    "c div 64 div 4 = 0" "c div 64 mod 4 = c div 64"
    by (simp_all only: div_less mod_less)
qed

lemma b64_decode_encode_vals:
  "list_all (\<lambda>b. b < 256) bs \<Longrightarrow> b64_decode_vals (b64_encode_vals bs) = Some bs"
proof (induction bs rule: b64_encode_vals.induct)
  case (4 a b c bs)
  then show ?case by (simp add: b64_quantum [of b c])
next
  case (3 a b)
  then show ?case by (simp add: b64_quantum(1,2) [of b 0])
next
  case (2 a)
  then show ?case by simp
qed simp

lemma those_map_b64_val:
  "list_all (\<lambda>v. v < 64) vs \<Longrightarrow> those (map b64_val (map b64_char vs)) = Some vs"
  by (induction vs) simp_all

lemma filter_newlines_EncodeToString:
  "filter (\<lambda>c. c \<noteq> CHR 0x0A \<and> c \<noteq> CHR 0x0D) (EncodeToString bs) = EncodeToString bs"
  by (rule filter_True) (metis notin_EncodeToString not_is_b64(2,3))

theorem DecodeString_EncodeToString [simp]: "DecodeString (EncodeToString bs) = Some bs"
proof -
  let ?ns = "map of_char bs :: nat list"
  have bound: "list_all (\<lambda>b. b < 256) ?ns"
    by (simp add: list_all_iff)
  have "those (map b64_val (EncodeToString bs)) = Some (b64_encode_vals ?ns)"
    using those_map_b64_val [OF b64_encode_vals_bound [OF bound]]
    by (simp add: EncodeToString_def b64_encode_nat_vals)
  then show ?thesis
    by (simp only: DecodeString_def filter_newlines_EncodeToString option.case)
      (simp add: b64_decode_encode_vals [OF bound] o_def)
qed

lemma EncodeToString_inject [simp]: "EncodeToString a = EncodeToString b \<longleftrightarrow> a = b"
  by (metis DecodeString_EncodeToString option.inject)

end
