(* ===== verification/CredStore.thy ===== *)
theory CredStore
  imports Base64
begin

text \<open>
  The dashboard's own accounts: the types of \<open>dashboard/auth/credstore.go\<close>, the interface
  \<open>CredStore\<close> as a record of operations over a store state \<open>'s\<close> (a Go interface value is a
  record of methods), and the contract its two implementations share, as a locale. The
  password hash is third-party code (\<open>golang.org/x/crypto/bcrypt\<close>) and a field of the
  environment: \<open>bcrypt_generate\<close> is one call of \<open>GenerateFromPassword\<close> with its salt,
  \<open>bcrypt_compare hash password\<close> whether \<open>CompareHashAndPassword\<close> returns nil.
\<close>

section \<open>Types\<close>

type_synonym Role = string

definition RoleAdmin :: Role where
  "RoleAdmin = ''admin''"

definition RoleViewer :: Role where
  "RoleViewer = ''viewer''"

definition role_Valid :: "Role \<Rightarrow> bool" where
  "role_Valid r \<longleftrightarrow> r = RoleAdmin \<or> r = RoleViewer"

record User =
  Username :: string
  Hash :: string
  Role :: Role
  MustChange :: bool
  PasswordSetAt :: int
  FailedAttempts :: int
  LockedUntil :: int
  CreatedAt :: int

text \<open>Go's zero value \<open>User{}\<close>.\<close>

definition zero_User :: User where
  "zero_User = \<lparr>Username = [], Hash = [], Role = [], MustChange = False, PasswordSetAt = 0,
     FailedAttempts = 0, LockedUntil = 0, CreatedAt = 0\<rparr>"

lemma zero_User_Username [simp]: "Username zero_User = []"
  by (simp add: zero_User_def)

datatype auth_error =
    ErrBadCredentials
  | ErrUserNotFound
  | ErrUserExists
  | ErrCannotDeleteLastAdmin
  | ErrLocked
  | ErrInvalidRole
  | ErrBcrypt \<comment> \<open>an error of \<open>bcrypt.GenerateFromPassword\<close>\<close>
  | ErrRand \<comment> \<open>an error of \<open>rand.Read\<close>\<close>
  | ErrIO \<comment> \<open>an error of the file system, of redis or of the JSON decoder\<close>

text \<open>
  What an operation reads from outside the store: the clock (nanoseconds since Go's zero time),
  bcrypt, the variable \<open>DASHBOARD_INITIAL_PASSWORD\<close> (empty when unset) and the random source
  (\<open>None\<close> when \<open>rand.Read\<close> fails).
\<close>

record auth_env =
  clock :: int
  bcrypt_generate :: "string \<Rightarrow> string option"
  bcrypt_compare :: "string \<Rightarrow> string \<Rightarrow> bool"
  initial_password :: string
  rand_bytes :: "nat \<Rightarrow> bytes option"

text \<open>\<open>time.Time.Unix\<close>: seconds since 1970 of an instant that counts from year 1.\<close>

definition Unix :: "int \<Rightarrow> int" where
  "Unix t = t div 1000000000 - 62135596800"

definition randomPassword :: "auth_env \<Rightarrow> nat \<Rightarrow> (auth_error, string) result" where
  "randomPassword e n =
     (case rand_bytes e n of
        None \<Rightarrow> Inl ErrRand
      | Some buf \<Rightarrow> Inr (take n (EncodeToString buf)))"

text \<open>The record literal both stores build for a new account.\<close>

definition new_user :: "string \<Rightarrow> string \<Rightarrow> Role \<Rightarrow> int \<Rightarrow> User" where
  "new_user username hash role t =
     zero_User\<lparr>Username := username, Hash := hash, Role := role, MustChange := True,
       PasswordSetAt := t, CreatedAt := t\<rparr>"

text \<open>The five assignments both stores make on a password change.\<close>

definition set_password :: "string \<Rightarrow> int \<Rightarrow> User \<Rightarrow> User" where
  "set_password hash t u =
     u\<lparr>Hash := hash, MustChange := False, PasswordSetAt := t, FailedAttempts := 0,
       LockedUntil := 0\<rparr>"

section \<open>The interface\<close>

record 's CredStore =
  Seed :: "auth_env \<Rightarrow> string \<Rightarrow> 's \<Rightarrow> (auth_error, string) result \<times> 's"
  Authenticate :: "auth_env \<Rightarrow> string \<Rightarrow> string \<Rightarrow> 's \<Rightarrow> (auth_error, User) result"
  SetPassword :: "auth_env \<Rightarrow> string \<Rightarrow> string \<Rightarrow> 's \<Rightarrow> (auth_error, unit) result \<times> 's"
  CreateUser :: "auth_env \<Rightarrow> string \<Rightarrow> string \<Rightarrow> Role \<Rightarrow> 's \<Rightarrow> (auth_error, unit) result \<times> 's"
  DeleteUser :: "string \<Rightarrow> 's \<Rightarrow> (auth_error, unit) result \<times> 's"
  SetRole :: "string \<Rightarrow> Role \<Rightarrow> 's \<Rightarrow> (auth_error, unit) result \<times> 's"
  GetUser :: "string \<Rightarrow> 's \<Rightarrow> (auth_error, User) result"
  ListUsers :: "'s \<Rightarrow> (auth_error, User list) result"
  SetLockedUntil :: "string \<Rightarrow> int \<Rightarrow> 's \<Rightarrow> (auth_error, unit) result \<times> 's"
  IncrementFailures :: "string \<Rightarrow> 's \<Rightarrow> (auth_error, int) result \<times> 's"
  ResetFailures :: "string \<Rightarrow> 's \<Rightarrow> (auth_error, unit) result \<times> 's"

section \<open>The contract\<close>

text \<open>What a store holds, seen from outside: a finite map from usernames to accounts.\<close>

type_synonym user_view = "string \<rightharpoonup> User"

definition admins :: "user_view \<Rightarrow> string set" where
  "admins v = {n. \<exists>u. v n = Some u \<and> Role u = RoleAdmin}"

lemma admins_update [simp]:
  "admins (v(n \<mapsto> u)) = (if Role u = RoleAdmin then insert n (admins v) else admins v - {n})"
  by (auto simp: admins_def)

lemma admins_delete [simp]: "admins (v(n := None)) = admins v - {n}"
  by (auto simp: admins_def)

locale cred_store =
  fixes S :: "'s CredStore"
    and view :: "'s \<Rightarrow> user_view"
    and inv :: "'s \<Rightarrow> bool"
  assumes view_Username: "inv s \<Longrightarrow> view s n = Some u \<Longrightarrow> Username u = n"
    and view_finite: "inv s \<Longrightarrow> finite (dom (view s))"
    and GetUser_Inr: "inv s \<Longrightarrow> GetUser S n s = Inr u \<Longrightarrow> view s n = Some u"
    and GetUser_NotFound: "inv s \<Longrightarrow> GetUser S n s = Inl ErrUserNotFound \<Longrightarrow> view s n = None"
    and ListUsers_Inr: "inv s \<Longrightarrow> ListUsers S s = Inr us \<Longrightarrow>
        distinct (map Username us) \<and> set us = ran (view s)"
    and Authenticate_Inr: "inv s \<Longrightarrow> Authenticate S e n pw s = Inr u \<Longrightarrow>
        view s n = Some u \<and> LockedUntil u \<le> Unix (clock e) \<and> bcrypt_compare e (Hash u) pw"
    and SetPassword_Inr: "inv s \<Longrightarrow> SetPassword S e n pw s = (Inr (), s') \<Longrightarrow>
        inv s' \<and> (\<exists>u h. view s n = Some u \<and> bcrypt_generate e pw = Some h
          \<and> view s' = (view s)(n \<mapsto> set_password h (Unix (clock e)) u))"
    and CreateUser_Inr: "inv s \<Longrightarrow> CreateUser S e n pw r s = (Inr (), s') \<Longrightarrow>
        inv s' \<and> (\<exists>h. view s n = None \<and> bcrypt_generate e pw = Some h
          \<and> view s' = (view s)(n \<mapsto> new_user n h r (Unix (clock e))))"
    and DeleteUser_Inr: "inv s \<Longrightarrow> DeleteUser S n s = (Inr (), s') \<Longrightarrow>
        inv s' \<and> (\<exists>u. view s n = Some u \<and> (Role u = RoleAdmin \<longrightarrow> admins (view s) \<noteq> {n})
          \<and> view s' = (view s)(n := None))"
    and SetRole_Inr: "inv s \<Longrightarrow> SetRole S n r s = (Inr (), s') \<Longrightarrow>
        inv s' \<and> role_Valid r \<and> (\<exists>u. view s n = Some u \<and> view s' = (view s)(n \<mapsto> u\<lparr>Role := r\<rparr>))"
    and SetLockedUntil_Inr: "inv s \<Longrightarrow> SetLockedUntil S n t s = (Inr (), s') \<Longrightarrow>
        inv s' \<and> (\<exists>u. view s n = Some u \<and> view s' = (view s)(n \<mapsto> u\<lparr>LockedUntil := t\<rparr>))"
    and IncrementFailures_Inr: "inv s \<Longrightarrow> IncrementFailures S n s = (Inr k, s') \<Longrightarrow>
        inv s' \<and> (\<exists>u. view s n = Some u \<and> k = wrap64 (FailedAttempts u + 1)
          \<and> view s' = (view s)(n \<mapsto> u\<lparr>FailedAttempts := k\<rparr>))"
    and ResetFailures_Inr: "inv s \<Longrightarrow> ResetFailures S n s = (Inr (), s') \<Longrightarrow>
        inv s' \<and> (\<exists>u. view s n = Some u
          \<and> view s' = (view s)(n \<mapsto> u\<lparr>FailedAttempts := 0, LockedUntil := 0\<rparr>))"
    and Seed_Inr: "inv s \<Longrightarrow> Seed S e n s = (Inr pw, s') \<Longrightarrow>
        inv s' \<and> (view s' = view s \<and> pw = []
          \<or> (\<exists>h. view s = Map.empty \<and> bcrypt_generate e pw = Some h
               \<and> view s' = [n \<mapsto> new_user n h RoleAdmin (Unix (clock e))]))"
begin

lemma finite_admins: "inv s \<Longrightarrow> finite (admins (view s))"
  by (rule finite_subset [OF _ view_finite]) (auto simp: admins_def)

lemma DeleteUser_keeps_admin:
  assumes "inv s" "DeleteUser S n s = (Inr (), s')" "admins (view s) \<noteq> {}"
  shows "admins (view s') \<noteq> {}"
proof
  assume none: "admins (view s') = {}"
  obtain u where u: "view s n = Some u" "Role u = RoleAdmin \<longrightarrow> admins (view s) \<noteq> {n}"
    and v: "view s' = (view s)(n := None)"
    using DeleteUser_Inr [OF assms(1,2)] by blast
  from none v assms(3) have "admins (view s) = {n}" by auto
  then have "n \<in> admins (view s)" by simp
  then have "Role u = RoleAdmin" using u(1) by (simp add: admins_def)
  with u(2) \<open>admins (view s) = {n}\<close> show False by simp
qed

text \<open>A password that was just set is the one that authenticates.\<close>

lemma SetPassword_hash:
  assumes "inv s" "SetPassword S e n pw s = (Inr (), s')"
  obtains u h where "view s' n = Some (set_password h (Unix (clock e)) u)"
    "bcrypt_generate e pw = Some h" "inv s'"
  using SetPassword_Inr [OF assms] by auto

lemma Authenticate_after_SetPassword:
  assumes "inv s" "SetPassword S e n pw s = (Inr (), s')"
    and "Authenticate S e' n pw' s' = Inr u"
  shows "\<exists>h. bcrypt_generate e pw = Some h \<and> bcrypt_compare e' h pw' \<and> \<not> MustChange u"
proof (rule SetPassword_hash [OF assms(1,2)])
  fix v h
  assume "view s' n = Some (set_password h (Unix (clock e)) v)"
    and gen: "bcrypt_generate e pw = Some h" and "inv s'"
  with Authenticate_Inr [OF \<open>inv s'\<close> assms(3)]
  have "u = set_password h (Unix (clock e)) v" "bcrypt_compare e' (Hash u) pw'" by simp_all
  with gen show ?thesis by (auto simp: set_password_def)
qed

lemma ListUsers_admins:
  assumes "inv s" "ListUsers S s = Inr us"
  shows "card (admins (view s)) = length (filter (\<lambda>u. Role u = RoleAdmin) us)"
proof -
  let ?as = "filter (\<lambda>u. Role u = RoleAdmin) us"
  have d: "distinct (map Username us)" and r: "set us = ran (view s)"
    using ListUsers_Inr [OF assms] by auto
  have "admins (view s) = set (map Username ?as)"
    using r view_Username [OF assms(1)] by (force simp: admins_def ran_def)
  moreover have "distinct (map Username ?as)" using d by (rule distinct_map_filter)
  ultimately show ?thesis using distinct_card by fastforce
qed

end

text \<open>
  A store whose storage does not fail half-way: an operation that reports an error has not
  changed anything.
\<close>

locale reliable_cred_store = cred_store +
  assumes SetPassword_Inl: "inv s \<Longrightarrow> SetPassword S e n pw s = (Inl err, s') \<Longrightarrow> s' = s"
    and CreateUser_Inl: "inv s \<Longrightarrow> CreateUser S e n pw r s = (Inl err, s') \<Longrightarrow> s' = s"
    and DeleteUser_Inl: "inv s \<Longrightarrow> DeleteUser S n s = (Inl err, s') \<Longrightarrow> s' = s"
    and SetRole_Inl: "inv s \<Longrightarrow> SetRole S n r s = (Inl err, s') \<Longrightarrow> s' = s"

end
