(* ===== verification/Redis.thy ===== *)
theory Redis
  imports Prelude
begin

text \<open>
  Redis as the program uses it: the commands it issues, as a record of functions over the state
  \<open>'s\<close> of the server, and what redis documents of them, as a locale. A reply is a value, nil, or an
  error of the connection. Each command is atomic. Of a command that fails nothing is assumed but that SETNX never
  overwrites a value.
\<close>

datatype 'a reply = RNil | RErr | ROk 'a

record 's redis =
  HLen :: "string \<Rightarrow> 's \<Rightarrow> int reply"
  HGet :: "string \<Rightarrow> string \<Rightarrow> 's \<Rightarrow> bytes reply"
  HExists :: "string \<Rightarrow> string \<Rightarrow> 's \<Rightarrow> bool reply"
  HGetAll :: "string \<Rightarrow> 's \<Rightarrow> (string \<times> bytes) list reply"
  HSet :: "string \<Rightarrow> string \<Rightarrow> bytes \<Rightarrow> 's \<Rightarrow> unit reply \<times> 's"
  HDel :: "string \<Rightarrow> string \<Rightarrow> 's \<Rightarrow> int reply \<times> 's"
  Del :: "string \<Rightarrow> 's \<Rightarrow> unit reply \<times> 's"
  Scan :: "string \<Rightarrow> 's \<Rightarrow> string list reply" \<comment> \<open>a complete iteration with a pattern\<close>
  RGet :: "string \<Rightarrow> 's \<Rightarrow> bytes reply"
  SetNX :: "string \<Rightarrow> bytes \<Rightarrow> 's \<Rightarrow> bool reply \<times> 's"

text \<open>
  The hashes and the plain values of a server. An absent hash is an empty one. SCAN matches keys
  against a pattern; for a prefix without special characters and a star it returns every key that
  has the prefix and holds a hash, in any order, and possibly a key twice.
\<close>

definition no_glob :: "string \<Rightarrow> bool" where
  "no_glob p \<longleftrightarrow> set p \<inter> set (CHR 0x5C # ''*?['') = {}"

locale redis_server =
  fixes R :: "'s redis"
    and hash :: "'s \<Rightarrow> string \<Rightarrow> string \<rightharpoonup> bytes"
    and plain :: "'s \<Rightarrow> string \<rightharpoonup> bytes"
  assumes hash_finite: "finite (dom (hash s k))"
    and HLen_ok: "HLen R k s = ROk n \<Longrightarrow> n = int (card (dom (hash s k)))"
    and HGet_ok: "HGet R k f s = ROk v \<Longrightarrow> hash s k f = Some v"
    and HGet_nil: "HGet R k f s = RNil \<Longrightarrow> hash s k f = None"
    and HExists_ok: "HExists R k f s = ROk b \<Longrightarrow> b = (hash s k f \<noteq> None)"
    and HGetAll_ok: "HGetAll R k s = ROk xs \<Longrightarrow> distinct (map fst xs) \<and> map_of xs = hash s k"
    and HSet_ok: "HSet R k f v s = (ROk u, s') \<Longrightarrow>
        hash s' = (hash s)(k := (hash s k)(f \<mapsto> v)) \<and> plain s' = plain s"
    and HDel_ok: "HDel R k f s = (ROk n, s') \<Longrightarrow>
        hash s' = (hash s)(k := (hash s k)(f := None)) \<and> plain s' = plain s
        \<and> n = (if hash s k f = None then 0 else 1)"
    and Del_ok: "Del R k s = (ROk u, s') \<Longrightarrow>
        hash s' = (hash s)(k := Map.empty) \<and> plain s' = (plain s)(k := None)"
    and Scan_ok: "Scan R (p @ ''*'') s = ROk ks \<Longrightarrow> no_glob p \<Longrightarrow>
        (\<forall>k \<in> set ks. HasPrefix k p) \<and> (\<forall>k. HasPrefix k p \<and> hash s k \<noteq> Map.empty \<longrightarrow> k \<in> set ks)"
    and Get_ok: "RGet R k s = ROk v \<Longrightarrow> plain s k = Some v"
    and Get_nil: "RGet R k s = RNil \<Longrightarrow> plain s k = None"
    and SetNX_true: "SetNX R k v s = (ROk True, s') \<Longrightarrow>
        plain s k = None \<and> plain s' = (plain s)(k \<mapsto> v) \<and> hash s' = hash s"
    and SetNX_false: "SetNX R k v s = (ROk False, s') \<Longrightarrow>
        plain s k \<noteq> None \<and> plain s' = plain s \<and> hash s' = hash s"
    and SetNX_keeps: "SetNX R k v s = (x, s') \<Longrightarrow> plain s k = Some w \<Longrightarrow> plain s' k = Some w"

section \<open>A server in memory\<close>

text \<open>A server that answers every command and knows the patterns of a prefix and a star: the contract
  above can be met.\<close>

record mem_state =
  ms_hash :: "(string \<times> (string \<times> bytes) list) list"
  ms_plain :: "(string \<times> bytes) list"

definition ms_lookup :: "mem_state \<Rightarrow> string \<Rightarrow> (string \<times> bytes) list" where
  "ms_lookup s k = (case map_of (ms_hash s) k of None \<Rightarrow> [] | Some h \<Rightarrow> AList.clearjunk h)"

definition mem_redis :: "mem_state redis" where
  "mem_redis = \<lparr>
     HLen = (\<lambda>k s. ROk (int (length (ms_lookup s k)))),
     HGet = (\<lambda>k f s. case map_of (ms_lookup s k) f of None \<Rightarrow> RNil | Some v \<Rightarrow> ROk v),
     HExists = (\<lambda>k f s. ROk (map_of (ms_lookup s k) f \<noteq> None)),
     HGetAll = (\<lambda>k s. ROk (ms_lookup s k)),
     HSet = (\<lambda>k f v s. (ROk (), s\<lparr>ms_hash := AList.update k (AList.update f v (ms_lookup s k)) (ms_hash s)\<rparr>)),
     HDel = (\<lambda>k f s. (ROk (if map_of (ms_lookup s k) f = None then 0 else 1),
        s\<lparr>ms_hash := AList.update k (AList.delete f (ms_lookup s k)) (ms_hash s)\<rparr>)),
     Del = (\<lambda>k s. (ROk (), s\<lparr>ms_hash := AList.update k [] (ms_hash s), ms_plain := AList.delete k (ms_plain s)\<rparr>)),
     Scan = (\<lambda>p s. ROk (filter (\<lambda>k. HasPrefix k (butlast p)) (remdups (map fst (ms_hash s))))),
     RGet = (\<lambda>k s. case map_of (ms_plain s) k of None \<Rightarrow> RNil | Some v \<Rightarrow> ROk v),
     SetNX = (\<lambda>k v s. if map_of (ms_plain s) k = None
        then (ROk True, s\<lparr>ms_plain := AList.update k v (ms_plain s)\<rparr>) else (ROk False, s))\<rparr>"

definition ms_hashes :: "mem_state \<Rightarrow> string \<Rightarrow> string \<rightharpoonup> bytes" where
  "ms_hashes s k = map_of (ms_lookup s k)"

definition ms_plains :: "mem_state \<Rightarrow> string \<rightharpoonup> bytes" where
  "ms_plains s = map_of (ms_plain s)"

lemma distinct_ms_lookup: "distinct (map fst (ms_lookup s k))"
  by (auto simp: ms_lookup_def distinct_clearjunk split: option.splits)

lemma ms_hashes_update:
  "ms_hashes (s\<lparr>ms_hash := AList.update k h (ms_hash s)\<rparr>) = (ms_hashes s)(k := map_of h)"
  by (auto simp: fun_eq_iff ms_hashes_def ms_lookup_def update_conv' map_of_clearjunk)

interpretation mem: redis_server mem_redis ms_hashes ms_plains
proof (unfold_locales, goal_cases)
  case (1 s k)
  show ?case by (simp add: ms_hashes_def finite_dom_map_of)
next
  case (2 k s n)
  then show ?case
    using distinct_card [OF distinct_ms_lookup [of s k]]
    by (simp add: mem_redis_def ms_hashes_def dom_map_of_conv_image_fst)
next
  case (10 p s ks)
  then show ?case
    by (auto simp: mem_redis_def ms_hashes_def ms_lookup_def image_iff split: option.splits)
      (metis fst_conv map_of_SomeD)
qed (auto simp: mem_redis_def ms_hashes_update ms_hashes_def ms_plains_def distinct_ms_lookup update_conv'
    delete_conv' fun_eq_iff ms_lookup_def map_of_clearjunk split: option.splits if_splits)

end
