(* ===== verification/RedisStore.thy ===== *)
theory RedisStore
  imports CredStore Redis
begin

text \<open>
  The cluster's credential store, \<open>dashboard/auth/credstore_redis.go\<close>, one redis hash from username
  to the JSON of an account, and the shared session secret, \<open>dashboard/auth/secret_redis.go\<close>. Redis
  and the JSON codec (\<open>enc\<close>, \<open>dec\<close>) are parameters. A method of this store is several commands and
  not one atomic step; the definitions run one call without interference, \<open>mutate\<close> being atomic
  through WATCH (a lost race is the error of its write).
\<close>

record 's RedisStore =
  rs_Client :: "'s redis"
  rs_KeyPrefix :: string

definition NewRedisStore :: "'s redis \<Rightarrow> string \<Rightarrow> 's RedisStore" where
  "NewRedisStore client keyPrefix =
     \<lparr>rs_Client = client, rs_KeyPrefix = (if keyPrefix = [] then ''comqtt:dashboard'' else keyPrefix)\<rparr>"

definition usersKey :: "'s RedisStore \<Rightarrow> string" where
  "usersKey r = rs_KeyPrefix r @ '':users''"

text \<open>What an HSET leaves of its reply in the source: the error or nothing.\<close>

definition hset_result :: "unit reply \<times> 's \<Rightarrow> (auth_error, unit) result \<times> 's" where
  "hset_result x = (case x of (ROk _, s') \<Rightarrow> (Inr (), s') | (_, s') \<Rightarrow> (Inl ErrIO, s'))"

definition rs_GetUser ::
  "'s RedisStore \<Rightarrow> (bytes \<Rightarrow> User option) \<Rightarrow> string \<Rightarrow> 's \<Rightarrow> (auth_error, User) result" where
  "rs_GetUser r dec username s =
     (case HGet (rs_Client r) (usersKey r) username s of
        RNil \<Rightarrow> Inl ErrUserNotFound
      | RErr \<Rightarrow> Inl ErrIO
      | ROk body \<Rightarrow> (case dec body of None \<Rightarrow> Inl ErrIO | Some u \<Rightarrow> Inr u))"

definition rs_ListUsers ::
  "'s RedisStore \<Rightarrow> (bytes \<Rightarrow> User option) \<Rightarrow> 's \<Rightarrow> (auth_error, User list) result" where
  "rs_ListUsers r dec s =
     (case HGetAll (rs_Client r) (usersKey r) s of
        ROk all \<Rightarrow> Inr (List.map_filter (\<lambda>(_, raw). dec raw) all)
      | _ \<Rightarrow> Inl ErrIO)"

text \<open>\<open>Seed\<close> after its check that the hash is empty.\<close>

definition rs_seed_write ::
  "'s RedisStore \<Rightarrow> (User \<Rightarrow> bytes) \<Rightarrow> auth_env \<Rightarrow> string \<Rightarrow> 's \<Rightarrow> (auth_error, string) result \<times> 's" where
  "rs_seed_write r enc e username s =
     (case randomPassword e 16 of
        Inl err \<Rightarrow> (Inl err, s)
      | Inr random \<Rightarrow>
          let pw = (if initial_password e \<noteq> [] then initial_password e else random) in
          (case bcrypt_generate e pw of
             None \<Rightarrow> (Inl ErrBcrypt, s)
           | Some hash \<Rightarrow>
               (case hset_result (HSet (rs_Client r) (usersKey r) username
                       (enc (new_user username hash RoleAdmin (Unix (clock e)))) s) of
                  (Inl err, s') \<Rightarrow> (Inl err, s')
                | (Inr _, s') \<Rightarrow> (Inr pw, s'))))"

definition rs_Seed ::
  "'s RedisStore \<Rightarrow> (User \<Rightarrow> bytes) \<Rightarrow> auth_env \<Rightarrow> string \<Rightarrow> 's \<Rightarrow> (auth_error, string) result \<times> 's" where
  "rs_Seed r enc e username s =
     (case HLen (rs_Client r) (usersKey r) s of
        ROk n \<Rightarrow> if n > 0 then (Inr [], s) else rs_seed_write r enc e username s
      | _ \<Rightarrow> (Inl ErrIO, s))"

definition rs_Authenticate ::
  "'s RedisStore \<Rightarrow> (bytes \<Rightarrow> User option) \<Rightarrow> auth_env \<Rightarrow> string \<Rightarrow> string \<Rightarrow> 's \<Rightarrow> (auth_error, User) result" where
  "rs_Authenticate r dec e username password s =
     (case rs_GetUser r dec username s of
        Inl ErrUserNotFound \<Rightarrow> Inl ErrBadCredentials
      | Inl err \<Rightarrow> Inl err
      | Inr u \<Rightarrow>
          if LockedUntil u > Unix (clock e) then Inl ErrLocked
          else if \<not> bcrypt_compare e (Hash u) password then Inl ErrBadCredentials
          else Inr u)"

definition rs_mutate ::
  "'s RedisStore \<Rightarrow> (User \<Rightarrow> bytes) \<Rightarrow> (bytes \<Rightarrow> User option) \<Rightarrow> string \<Rightarrow> (User \<Rightarrow> User) \<Rightarrow> 's
     \<Rightarrow> (auth_error, unit) result \<times> 's" where
  "rs_mutate r enc dec username f s =
     (case HGet (rs_Client r) (usersKey r) username s of
        RNil \<Rightarrow> (Inl ErrUserNotFound, s)
      | RErr \<Rightarrow> (Inl ErrIO, s)
      | ROk body \<Rightarrow>
          (case dec body of
             None \<Rightarrow> (Inl ErrIO, s)
           | Some u \<Rightarrow> hset_result (HSet (rs_Client r) (usersKey r) username (enc (f u)) s)))"

definition rs_SetPassword ::
  "'s RedisStore \<Rightarrow> (User \<Rightarrow> bytes) \<Rightarrow> (bytes \<Rightarrow> User option) \<Rightarrow> auth_env \<Rightarrow> string \<Rightarrow> string \<Rightarrow> 's
     \<Rightarrow> (auth_error, unit) result \<times> 's" where
  "rs_SetPassword r enc dec e username password s =
     (case bcrypt_generate e password of
        None \<Rightarrow> (Inl ErrBcrypt, s)
      | Some hash \<Rightarrow> rs_mutate r enc dec username (set_password hash (Unix (clock e))) s)"

definition rs_CreateUser ::
  "'s RedisStore \<Rightarrow> (User \<Rightarrow> bytes) \<Rightarrow> auth_env \<Rightarrow> string \<Rightarrow> string \<Rightarrow> Role \<Rightarrow> 's
     \<Rightarrow> (auth_error, unit) result \<times> 's" where
  "rs_CreateUser r enc e username password role s =
     (case HExists (rs_Client r) (usersKey r) username s of
        ROk exists \<Rightarrow>
          if exists then (Inl ErrUserExists, s)
          else (case bcrypt_generate e password of
             None \<Rightarrow> (Inl ErrBcrypt, s)
           | Some hash \<Rightarrow>
               hset_result (HSet (rs_Client r) (usersKey r) username
                 (enc (new_user username hash role (Unix (clock e)))) s))
      | _ \<Rightarrow> (Inl ErrIO, s))"

text \<open>The loop of \<open>DeleteUser\<close>: the number of administrators and the last account of the name.\<close>

fun rs_scan :: "string \<Rightarrow> User list \<Rightarrow> nat \<times> User option \<Rightarrow> nat \<times> User option" where
  "rs_scan username [] acc = acc"
| "rs_scan username (u # us) (adm, target) =
     rs_scan username us
       (if Role u = RoleAdmin then Suc adm else adm, if Username u = username then Some u else target)"

definition rs_DeleteUser ::
  "'s RedisStore \<Rightarrow> (bytes \<Rightarrow> User option) \<Rightarrow> string \<Rightarrow> 's \<Rightarrow> (auth_error, unit) result \<times> 's" where
  "rs_DeleteUser r dec username s =
     (case rs_ListUsers r dec s of
        Inl err \<Rightarrow> (Inl err, s)
      | Inr users \<Rightarrow>
          (case rs_scan username users (0, None) of
             (adm, None) \<Rightarrow> (Inl ErrUserNotFound, s)
           | (adm, Some target) \<Rightarrow>
               if Role target = RoleAdmin \<and> adm = 1 then (Inl ErrCannotDeleteLastAdmin, s)
               else (case HDel (rs_Client r) (usersKey r) username s of
                       (ROk _, s') \<Rightarrow> (Inr (), s')
                     | (_, s') \<Rightarrow> (Inl ErrIO, s'))))"

definition rs_SetRole ::
  "'s RedisStore \<Rightarrow> (User \<Rightarrow> bytes) \<Rightarrow> (bytes \<Rightarrow> User option) \<Rightarrow> string \<Rightarrow> Role \<Rightarrow> 's
     \<Rightarrow> (auth_error, unit) result \<times> 's" where
  "rs_SetRole r enc dec username role s =
     (if \<not> role_Valid role then (Inl ErrInvalidRole, s)
      else rs_mutate r enc dec username (\<lambda>u. u\<lparr>Role := role\<rparr>) s)"

definition rs_SetLockedUntil ::
  "'s RedisStore \<Rightarrow> (User \<Rightarrow> bytes) \<Rightarrow> (bytes \<Rightarrow> User option) \<Rightarrow> string \<Rightarrow> int \<Rightarrow> 's
     \<Rightarrow> (auth_error, unit) result \<times> 's" where
  "rs_SetLockedUntil r enc dec username until s =
     rs_mutate r enc dec username (\<lambda>u. u\<lparr>LockedUntil := until\<rparr>) s"

definition rs_IncrementFailures ::
  "'s RedisStore \<Rightarrow> (User \<Rightarrow> bytes) \<Rightarrow> (bytes \<Rightarrow> User option) \<Rightarrow> string \<Rightarrow> 's
     \<Rightarrow> (auth_error, int) result \<times> 's" where
  "rs_IncrementFailures r enc dec username s =
     (case rs_mutate r enc dec username
             (\<lambda>u. u\<lparr>FailedAttempts := wrap64 (FailedAttempts u + 1)\<rparr>) s of
        (Inl err, s') \<Rightarrow> (Inl err, s')
      | (Inr _, s') \<Rightarrow>
          (Inr (case rs_GetUser r dec username s of
                  Inr u \<Rightarrow> wrap64 (FailedAttempts u + 1) | Inl _ \<Rightarrow> 0), s'))"

definition rs_ResetFailures ::
  "'s RedisStore \<Rightarrow> (User \<Rightarrow> bytes) \<Rightarrow> (bytes \<Rightarrow> User option) \<Rightarrow> string \<Rightarrow> 's
     \<Rightarrow> (auth_error, unit) result \<times> 's" where
  "rs_ResetFailures r enc dec username s =
     rs_mutate r enc dec username (\<lambda>u. u\<lparr>FailedAttempts := 0, LockedUntil := 0\<rparr>) s"

definition RedisStore_ops :: "'s RedisStore \<Rightarrow> (User \<Rightarrow> bytes) \<Rightarrow> (bytes \<Rightarrow> User option) \<Rightarrow> 's CredStore" where
  "RedisStore_ops r enc dec = \<lparr>Seed = rs_Seed r enc, Authenticate = rs_Authenticate r dec,
     SetPassword = rs_SetPassword r enc dec, CreateUser = rs_CreateUser r enc,
     DeleteUser = rs_DeleteUser r dec, SetRole = rs_SetRole r enc dec, GetUser = rs_GetUser r dec,
     ListUsers = rs_ListUsers r dec, SetLockedUntil = rs_SetLockedUntil r enc dec,
     IncrementFailures = rs_IncrementFailures r enc dec, ResetFailures = rs_ResetFailures r enc dec\<rparr>"

lemma RedisStore_sel [simp]:
  "Seed (RedisStore_ops r enc dec) = rs_Seed r enc"
  "Authenticate (RedisStore_ops r enc dec) = rs_Authenticate r dec"
  "SetPassword (RedisStore_ops r enc dec) = rs_SetPassword r enc dec"
  "CreateUser (RedisStore_ops r enc dec) = rs_CreateUser r enc"
  "DeleteUser (RedisStore_ops r enc dec) = rs_DeleteUser r dec"
  "SetRole (RedisStore_ops r enc dec) = rs_SetRole r enc dec"
  "GetUser (RedisStore_ops r enc dec) = rs_GetUser r dec"
  "ListUsers (RedisStore_ops r enc dec) = rs_ListUsers r dec"
  "SetLockedUntil (RedisStore_ops r enc dec) = rs_SetLockedUntil r enc dec"
  "IncrementFailures (RedisStore_ops r enc dec) = rs_IncrementFailures r enc dec"
  "ResetFailures (RedisStore_ops r enc dec) = rs_ResetFailures r enc dec"
  by (simp_all add: RedisStore_ops_def)

section \<open>The store implements the contract\<close>

lemma hset_result_Inr: "hset_result x = (Inr (), s') \<longleftrightarrow> (\<exists>u. x = (ROk u, s'))"
  by (auto simp: hset_result_def split: prod.splits reply.splits)

lemma rs_scan_eq:
  assumes "distinct (map Username us)"
  shows "rs_scan n us (k, t) = (k + length (filter (\<lambda>u. Role u = RoleAdmin) us),
    case find (\<lambda>u. Username u = n) us of Some u \<Rightarrow> Some u | None \<Rightarrow> t)"
  using assms
proof (induction us arbitrary: k t)
  case (Cons u us)
  have "Username u = n \<Longrightarrow> find (\<lambda>u. Username u = n) us = None"
    using Cons.prems by (auto simp: find_None_iff image_iff)
  with Cons show ?case by (auto split: option.splits)
qed simp

lemma set_map_filter_snd:
  "u \<in> set (List.map_filter (\<lambda>(_, raw). dec raw) xs) \<longleftrightarrow> (\<exists>n b. (n, b) \<in> set xs \<and> dec b = Some u)"
  by (induction xs) (auto simp: map_filter_simps split: option.splits)

text \<open>
  The accounts in a server with the given hashes, and well-formedness: every field decodes to an
  account of that name.
\<close>

definition rs_view ::
  "'s RedisStore \<Rightarrow> ('s \<Rightarrow> string \<Rightarrow> string \<rightharpoonup> bytes) \<Rightarrow> (bytes \<Rightarrow> User option) \<Rightarrow> 's \<Rightarrow> user_view" where
  "rs_view r hash dec s n = Option.bind (hash s (usersKey r) n) dec"

definition rs_inv ::
  "'s RedisStore \<Rightarrow> ('s \<Rightarrow> string \<Rightarrow> string \<rightharpoonup> bytes) \<Rightarrow> (bytes \<Rightarrow> User option) \<Rightarrow> 's \<Rightarrow> bool" where
  "rs_inv r hash dec s \<longleftrightarrow>
     (\<forall>n b. hash s (usersKey r) n = Some b \<longrightarrow> (\<exists>u. dec b = Some u \<and> Username u = n))"

locale redis_accounts = redis_server "rs_Client r" hash plain
  for r :: "'s RedisStore" and hash plain +
  fixes enc :: "User \<Rightarrow> bytes" and dec :: "bytes \<Rightarrow> User option"
  assumes dec_enc: "dec (enc u) = Some u"
begin

abbreviation rview :: "'s \<Rightarrow> user_view" where
  "rview \<equiv> rs_view r hash dec"

abbreviation rinv :: "'s \<Rightarrow> bool" where
  "rinv \<equiv> rs_inv r hash dec"

lemmas rview_def = rs_view_def
lemmas rinv_def = rs_inv_def

lemma rview_write:
  assumes "rinv s" "hset_result (HSet (rs_Client r) (usersKey r) n (enc u) s) = (Inr (), s')" "Username u = n"
  shows "rinv s' \<and> rview s' = (rview s)(n \<mapsto> u)"
proof -
  have "hash s' = (hash s)(usersKey r := (hash s (usersKey r))(n \<mapsto> enc u))"
    using assms(2) HSet_ok unfolding hset_result_Inr by blast
  then show ?thesis using assms(1,3) dec_enc by (auto simp: rinv_def rview_def fun_eq_iff)
qed

lemma rview_GetUser:
  assumes "rinv s"
  shows "rs_GetUser r dec n s = Inr u \<Longrightarrow> rview s n = Some u"
    "rs_GetUser r dec n s = Inl ErrUserNotFound \<Longrightarrow> rview s n = None"
  using assms HGet_ok HGet_nil
  by (auto simp: rs_GetUser_def rview_def split: reply.splits option.splits)

lemma rview_Some: "rinv s \<Longrightarrow> rview s n = Some u \<Longrightarrow> Username u = n"
  by (auto simp: rinv_def rview_def bind_eq_Some_conv) force

lemma rview_mutate:
  assumes "rinv s" "rs_mutate r enc dec n f s = (Inr (), s')" "\<And>u. Username (f u) = Username u"
  shows "rinv s' \<and> (\<exists>u. rview s n = Some u \<and> rview s' = (rview s)(n \<mapsto> f u))"
proof -
  obtain body u where b: "HGet (rs_Client r) (usersKey r) n s = ROk body" "dec body = Some u"
    and w: "hset_result (HSet (rs_Client r) (usersKey r) n (enc (f u)) s) = (Inr (), s')"
    using assms(2) by (auto simp: rs_mutate_def split: reply.splits option.splits)
  have v: "rview s n = Some u" using HGet_ok [OF b(1)] b(2) by (simp add: rview_def)
  then have "Username (f u) = n" using rview_Some [OF assms(1)] assms(3) by simp
  from rview_write [OF assms(1) w this] v show ?thesis by blast
qed

lemma rview_ListUsers:
  assumes "rinv s" "rs_ListUsers r dec s = Inr us"
  shows "distinct (map Username us) \<and> set us = ran (rview s)"
proof -
  obtain all where all: "HGetAll (rs_Client r) (usersKey r) s = ROk all"
    and us: "us = List.map_filter (\<lambda>(_, raw). dec raw) all"
    using assms(2) by (auto simp: rs_ListUsers_def split: reply.splits)
  have d: "distinct (map fst all)" and m: "map_of all = hash s (usersKey r)"
    using HGetAll_ok [OF all] by auto
  have dec: "\<exists>u. dec b = Some u \<and> Username u = n" if "(n, b) \<in> set all" for n b
    using that assms(1) m map_of_is_SomeI [OF d] by (auto simp: rinv_def)
  then have "map Username us = map fst all"
    unfolding us by (induction all) (force simp: map_filter_simps)+
  moreover have "u \<in> set us \<longleftrightarrow> (\<exists>n b. hash s (usersKey r) n = Some b \<and> dec b = Some u)" for u
    unfolding us m [symmetric] map_of_eq_Some_iff [OF d] by (rule set_map_filter_snd)
  then have "set us = ran (rview s)" by (auto simp: ran_def rview_def bind_eq_Some_conv)
  ultimately show ?thesis using d by simp
qed

lemma rview_DeleteUser:
  assumes "rinv s" "rs_DeleteUser r dec n s = (Inr (), s')"
  shows "rinv s' \<and> (\<exists>u. rview s n = Some u \<and> (Role u = RoleAdmin \<longrightarrow> admins (rview s) \<noteq> {n})
    \<and> rview s' = (rview s)(n := None))"
proof -
  obtain us where l: "rs_ListUsers r dec s = Inr us"
    using assms(2) by (auto simp: rs_DeleteUser_def split: sum.splits)
  have du: "distinct (map Username us)" and ru: "set us = ran (rview s)" using rview_ListUsers [OF assms(1) l] by auto
  let ?adm = "length (filter (\<lambda>u. Role u = RoleAdmin) us)"
  obtain t k where f: "find (\<lambda>u. Username u = n) us = Some t" and g: "\<not> (Role t = RoleAdmin \<and> ?adm = 1)"
    and h: "HDel (rs_Client r) (usersKey r) n s = (ROk k, s')"
    using assms(2) l rs_scan_eq [OF du, of n 0 None]
    by (auto simp: rs_DeleteUser_def split: option.splits if_splits prod.splits reply.splits)
  have t: "t \<in> set us" "Username t = n" using f by (auto simp: find_Some_iff)
  have vn: "rview s n = Some t" using t ru rview_Some [OF assms(1)] by (auto simp: ran_def)
  have adm: "admins (rview s) = Username ` set (filter (\<lambda>u. Role u = RoleAdmin) us)"
    using ru rview_Some [OF assms(1)] by (force simp: admins_def ran_def)
  have "card (admins (rview s)) = ?adm"
    using distinct_card [OF distinct_map_filter [OF du, of "\<lambda>u. Role u = RoleAdmin"]] unfolding adm by simp
  then have "Role t = RoleAdmin \<longrightarrow> admins (rview s) \<noteq> {n}" using g by (metis is_singletonI is_singleton_altdef)
  moreover have "hash s' = (hash s)(usersKey r := (hash s (usersKey r))(n := None))" using HDel_ok [OF h] by simp
  then have "rinv s'" "rview s' = (rview s)(n := None)"
    using assms(1) by (auto simp: rinv_def rview_def fun_eq_iff)
  ultimately show ?thesis using vn by blast
qed

lemma rview_CreateUser:
  assumes "rinv s" "rs_CreateUser r enc e n pw role s = (Inr (), s')"
  shows "rinv s' \<and> (\<exists>h. rview s n = None \<and> bcrypt_generate e pw = Some h
    \<and> rview s' = (rview s)(n \<mapsto> new_user n h role (Unix (clock e))))"
proof -
  obtain h where x: "HExists (rs_Client r) (usersKey r) n s = ROk False" and g: "bcrypt_generate e pw = Some h"
    and w: "hset_result (HSet (rs_Client r) (usersKey r) n (enc (new_user n h role (Unix (clock e)))) s) = (Inr (), s')"
    using assms(2) by (auto simp: rs_CreateUser_def split: reply.splits option.splits if_splits)
  have "rview s n = None" using HExists_ok [OF x] by (simp add: rview_def)
  with g rview_write [OF assms(1) w] show ?thesis by (simp add: new_user_def)
qed

lemma rview_Seed:
  assumes "rinv s" "rs_Seed r enc e n s = (Inr pw, s')"
  shows "rinv s' \<and> (rview s' = rview s \<and> pw = [] \<or> (\<exists>h. rview s = Map.empty \<and> bcrypt_generate e pw = Some h
    \<and> rview s' = [n \<mapsto> new_user n h RoleAdmin (Unix (clock e))]))"
proof -
  obtain k where k: "HLen (rs_Client r) (usersKey r) s = ROk k"
    using assms(2) by (auto simp: rs_Seed_def split: reply.splits)
  show ?thesis
  proof (cases "k > 0")
    case True
    then show ?thesis using assms k by (auto simp: rs_Seed_def)
  next
    case False
    then obtain h where g: "bcrypt_generate e pw = Some h"
      and w: "hset_result (HSet (rs_Client r) (usersKey r) n (enc (new_user n h RoleAdmin (Unix (clock e)))) s) = (Inr (), s')"
      using assms(2) k by (auto simp: rs_Seed_def rs_seed_write_def Let_def split: sum.splits option.splits prod.splits if_splits)
    have "card (dom (hash s (usersKey r))) = 0" using HLen_ok [OF k] False by simp
    then have "rview s = Map.empty" using hash_finite [of s "usersKey r"] by (simp add: rview_def fun_eq_iff)
    with g rview_write [OF assms(1) w] show ?thesis by (simp add: new_user_def)
  qed
qed

lemma rview_IncrementFailures:
  assumes "rinv s" "rs_IncrementFailures r enc dec n s = (Inr k, s')"
  shows "rinv s' \<and> (\<exists>u. rview s n = Some u \<and> k = wrap64 (FailedAttempts u + 1)
    \<and> rview s' = (rview s)(n \<mapsto> u\<lparr>FailedAttempts := k\<rparr>))"
proof -
  have m: "rs_mutate r enc dec n (\<lambda>u. u\<lparr>FailedAttempts := wrap64 (FailedAttempts u + 1)\<rparr>) s = (Inr (), s')"
    and k: "k = (case rs_GetUser r dec n s of Inr u \<Rightarrow> wrap64 (FailedAttempts u + 1) | Inl _ \<Rightarrow> 0)"
    using assms(2) by (auto simp: rs_IncrementFailures_def split: prod.splits sum.splits)
  obtain u where u: "rs_GetUser r dec n s = Inr u"
    using m by (auto simp: rs_mutate_def rs_GetUser_def split: reply.splits option.splits)
  from rview_mutate [OF assms(1) m] rview_GetUser(1) [OF assms(1) u] k u show ?thesis by auto
qed

end

sublocale redis_accounts \<subseteq> cred_store "RedisStore_ops r enc dec" rview rinv
proof (unfold_locales, unfold RedisStore_sel, goal_cases)
  case (2 s)
  have "dom (rview s) \<subseteq> dom (hash s (usersKey r))" by (auto simp: rview_def bind_eq_Some_conv)
  then show ?case using hash_finite finite_subset by blast
next
  case (6 s e n pw u)
  then show ?case
    using rview_GetUser(1) [OF "6"(1), of n u]
    by (auto simp: rs_Authenticate_def split: sum.splits if_splits auth_error.splits)
next
  case (7 s e n pw s')
  then obtain h where "bcrypt_generate e pw = Some h"
    "rs_mutate r enc dec n (set_password h (Unix (clock e))) s = (Inr (), s')"
    by (auto simp: rs_SetPassword_def split: option.splits)
  with rview_mutate [OF "7"(1) this(2)] show ?case by (auto simp: set_password_def)
next
  case (10 s n role s')
  then show ?case
    using rview_mutate [OF "10"(1), of n "\<lambda>u. u\<lparr>Role := role\<rparr>" s'] by (auto simp: rs_SetRole_def split: if_splits)
next
  case (11 s n t s')
  then show ?case
    using rview_mutate [OF "11"(1), of n "\<lambda>u. u\<lparr>LockedUntil := t\<rparr>" s'] by (auto simp: rs_SetLockedUntil_def)
next
  case (13 s n s')
  then show ?case
    using rview_mutate [OF "13"(1), of n "\<lambda>u. u\<lparr>FailedAttempts := 0, LockedUntil := 0\<rparr>" s']
    by (auto simp: rs_ResetFailures_def)
qed (fact rview_Some rview_GetUser rview_ListUsers rview_CreateUser rview_DeleteUser
    rview_IncrementFailures rview_Seed)+

text \<open>A server whose failed writes have not written.\<close>

locale reliable_redis = redis_accounts +
  assumes HSet_fails: "HSet (rs_Client r) k f v s = (x, s') \<Longrightarrow> x \<noteq> ROk () \<Longrightarrow> s' = s"
    and HDel_fails: "HDel (rs_Client r) k f s = (y, s') \<Longrightarrow> \<forall>n. y \<noteq> ROk n \<Longrightarrow> s' = s"
begin

lemma hset_result_Inl: "hset_result (HSet (rs_Client r) k f v s) = (Inl err, s') \<Longrightarrow> s' = s"
  using HSet_fails by (auto simp: hset_result_def split: prod.splits reply.splits)

lemma rs_mutate_Inl: "rs_mutate r enc dec n f s = (Inl err, s') \<Longrightarrow> s' = s"
  by (auto simp: rs_mutate_def dest: hset_result_Inl split: reply.splits option.splits)

end

sublocale reliable_redis \<subseteq> reliable_cred_store "RedisStore_ops r enc dec" rview rinv
proof (unfold_locales, unfold RedisStore_sel, goal_cases)
  case (3 s n err s')
  then show ?case
    using HDel_fails by (auto simp: rs_DeleteUser_def split: sum.splits option.splits if_splits prod.splits reply.splits)
qed (auto simp: rs_SetPassword_def rs_CreateUser_def rs_SetRole_def
    dest: rs_mutate_Inl hset_result_Inl split: reply.splits option.splits if_splits)

section \<open>An instance\<close>

text \<open>
  The server in memory with a lossless codec of accounts: every byte of a string behind a marker,
  numbers in unary with their sign, each field ended by a dot.
\<close>

definition put_string :: "string \<Rightarrow> bytes" where
  "put_string s = concat (map (\<lambda>c. [CHR ''c'', c]) s) @ ''.''"

fun get_string :: "bytes \<Rightarrow> (string \<times> bytes) option" where
  "get_string (a # xs) =
     (if a = CHR ''.'' then Some ([], xs)
      else (case xs of [] \<Rightarrow> None | c # ys \<Rightarrow> map_option (\<lambda>(s, r). (c # s, r)) (get_string ys)))"
| "get_string [] = None"

definition put_int :: "int \<Rightarrow> bytes" where
  "put_int i = put_string ((if i < 0 then CHR ''-'' else CHR ''+'') # replicate (nat \<bar>i\<bar>) CHR ''1'')"

definition get_int :: "string \<Rightarrow> int" where
  "get_int s = (if hd s = CHR ''-'' then - int (length s - 1) else int (length s - 1))"

fun get_strings :: "nat \<Rightarrow> bytes \<Rightarrow> string list option" where
  "get_strings 0 xs = Some []"
| "get_strings (Suc n) xs =
     (case get_string xs of None \<Rightarrow> None | Some (s, r) \<Rightarrow> map_option ((#) s) (get_strings n r))"

definition plain_enc :: "User \<Rightarrow> bytes" where
  "plain_enc u = put_string (Username u) @ put_string (Hash u) @ put_string (Role u)
     @ put_string (if MustChange u then ''t'' else ''f'') @ put_int (PasswordSetAt u)
     @ put_int (FailedAttempts u) @ put_int (LockedUntil u) @ put_int (CreatedAt u)"

definition plain_dec :: "bytes \<Rightarrow> User option" where
  "plain_dec b = (case get_strings 8 b of
     Some [n, h, r, m, p, f, l, c] \<Rightarrow> Some \<lparr>Username = n, Hash = h, Role = r, MustChange = (m = ''t''),
       PasswordSetAt = get_int p, FailedAttempts = get_int f, LockedUntil = get_int l, CreatedAt = get_int c\<rparr>
   | _ \<Rightarrow> None)"

lemma get_put_string [simp]: "get_string (put_string s @ r) = Some (s, r)"
  by (induction s) (simp_all add: put_string_def)

lemma plain_dec_enc: "plain_dec (plain_enc u) = Some u"
proof -
  have i: "get_int ((if i < 0 then CHR ''-'' else CHR ''+'') # replicate (nat \<bar>i\<bar>) CHR ''1'') = i" for i
    by (simp add: get_int_def)
  have g: "get_string (put_string s) = Some (s, [])" for s using get_put_string [of s "[]"] by simp
  show ?thesis
    by (simp add: plain_dec_def plain_enc_def put_int_def g i eval_nat_numeral)
qed

definition mem_store :: "mem_state RedisStore" where
  "mem_store = NewRedisStore mem_redis []"

lemma mem_store_Client [simp]: "rs_Client mem_store = mem_redis"
  by (simp add: mem_store_def NewRedisStore_def)

interpretation memr: reliable_redis mem_store ms_hashes ms_plains plain_enc plain_dec
proof (intro reliable_redis.intro redis_accounts.intro)
  show "redis_server (rs_Client mem_store) ms_hashes ms_plains"
    using mem.redis_server_axioms by simp
  show "redis_accounts_axioms plain_enc plain_dec"
    by (simp add: redis_accounts_axioms_def plain_dec_enc)
  show "reliable_redis_axioms mem_store"
    by (auto simp: reliable_redis_axioms_def mem_redis_def split: if_splits)
qed

section \<open>The shared secret\<close>

datatype secret_error =
    ErrNilClient
  | ErrEmptyKey
  | ErrSecretRedis \<comment> \<open>an error of a command, \<open>redis.Nil\<close> on the last read included\<close>
  | ErrSecretRand

text \<open>\<open>buf\<close> is what \<open>rand.Read\<close> filled in, \<open>None\<close> when it failed.\<close>

definition EnsureSecret ::
  "'s redis option \<Rightarrow> bytes option \<Rightarrow> string \<Rightarrow> 's \<Rightarrow> (secret_error, bytes) result \<times> 's" where
  "EnsureSecret client buf key s =
     (case client of
        None \<Rightarrow> (Inl ErrNilClient, s)
      | Some R \<Rightarrow>
          if key = [] then (Inl ErrEmptyKey, s)
          else (case RGet R key s of
             ROk b \<Rightarrow> (Inr b, s)
           | RErr \<Rightarrow> (Inl ErrSecretRedis, s)
           | RNil \<Rightarrow>
               (case buf of
                  None \<Rightarrow> (Inl ErrSecretRand, s)
                | Some b \<Rightarrow>
                    (case SetNX R key b s of
                       (ROk ok, s') \<Rightarrow>
                         if ok then (Inr b, s')
                         else (case RGet R key s' of
                            ROk w \<Rightarrow> (Inr w, s') | _ \<Rightarrow> (Inl ErrSecretRedis, s'))
                     | (_, s') \<Rightarrow> (Inl ErrSecretRedis, s')))))"

text \<open>
  The same call one command at a time: between two commands of a node, other nodes run theirs.
\<close>

datatype secret_pc =
    SecretStart
  | SecretAbsent
  | SecretLost
  | SecretDone "(secret_error, bytes) result"

fun secret_command ::
  "'s redis \<Rightarrow> bytes option \<Rightarrow> string \<Rightarrow> secret_pc \<Rightarrow> 's \<Rightarrow> secret_pc \<times> 's" where
  "secret_command R buf key SecretStart s =
     (case RGet R key s of
        ROk b \<Rightarrow> (SecretDone (Inr b), s)
      | RErr \<Rightarrow> (SecretDone (Inl ErrSecretRedis), s)
      | RNil \<Rightarrow> (SecretAbsent, s))"
| "secret_command R buf key SecretAbsent s =
     (case buf of
        None \<Rightarrow> (SecretDone (Inl ErrSecretRand), s)
      | Some b \<Rightarrow>
          (case SetNX R key b s of
             (ROk ok, s') \<Rightarrow> (if ok then SecretDone (Inr b) else SecretLost, s')
           | (_, s') \<Rightarrow> (SecretDone (Inl ErrSecretRedis), s')))"
| "secret_command R buf key SecretLost s =
     (case RGet R key s of
        ROk w \<Rightarrow> (SecretDone (Inr w), s) | _ \<Rightarrow> (SecretDone (Inl ErrSecretRedis), s))"
| "secret_command R buf key (SecretDone x) s = (SecretDone x, s)"

lemma EnsureSecret_commands:
  assumes "key \<noteq> []"
  shows "(case secret_command R buf key SecretStart s of (p, s') \<Rightarrow>
     case secret_command R buf key p s' of (p, s') \<Rightarrow> secret_command R buf key p s')
   = map_prod SecretDone (\<lambda>s. s) (EnsureSecret (Some R) buf key s)"
  using assms by (simp add: EnsureSecret_def split: reply.split option.split prod.split)

inductive secret_run ::
  "'s redis \<Rightarrow> (nat \<Rightarrow> bytes option) \<Rightarrow> string \<Rightarrow> 's \<Rightarrow> (nat \<Rightarrow> secret_pc) \<Rightarrow> 's \<Rightarrow> bool"
  for R buf key s0 where
  start: "secret_run R buf key s0 (\<lambda>_. SecretStart) s0"
| command: "secret_run R buf key s0 pcs s \<Longrightarrow> secret_command R (buf i) key (pcs i) s = (p, s')
    \<Longrightarrow> secret_run R buf key s0 (pcs(i := p)) s'"

context redis_server
begin

lemma secret_command_keeps:
  "secret_command R buf key p s = (p', s') \<Longrightarrow> plain s key = Some w \<Longrightarrow> plain s' key = Some w"
  by (cases p) (auto dest: SetNX_keeps split: reply.splits option.splits prod.splits)

lemma secret_command_Done:
  "secret_command R buf key p s = (SecretDone (Inr b), s') \<Longrightarrow> p \<noteq> SecretDone (Inr b) \<Longrightarrow> plain s' key = Some b"
  by (cases p) (auto dest: Get_ok SetNX_true split: reply.splits option.splits prod.splits if_splits)

lemma secret_run_agrees:
  assumes "secret_run R buf key s0 pcs s"
  shows "(\<forall>i b. pcs i = SecretDone (Inr b) \<longrightarrow> plain s key = Some b)
    \<and> (\<forall>w. plain s0 key = Some w \<longrightarrow> plain s key = Some w)"
  using assms
proof (induction rule: secret_run.induct)
  case (command pcs s i p s')
  have "plain s' key = Some b" if "(pcs(i := p)) j = SecretDone (Inr b)" for j b
  proof (cases "pcs j = SecretDone (Inr b)")
    case True
    then show ?thesis using command.IH secret_command_keeps [OF command.hyps(2)] by blast
  next
    case False
    with that have "j = i" "p = SecretDone (Inr b)" by (auto split: if_splits)
    with False show ?thesis using secret_command_Done command.hyps(2) by blast
  qed
  with command show ?case using secret_command_keeps by blast
qed simp

end

end
