(* ===== verification/FileStore.thy ===== *)
theory FileStore
  imports CredStore
begin

text \<open>
  The single-node credential store, \<open>dashboard/auth/credstore_file.go\<close>: a JSON array of accounts
  in one file. The file is modelled at the level of the decoded document. Reading it can find no
  file, fail, or find bytes that are not such an array; writing it either succeeds or fails and
  then leaves any content behind (\<open>os.WriteFile\<close> truncates first). Each method holds the store's
  mutex from its load to its save, so one method is one atomic step.
\<close>

datatype file_doc = Absent | Unreadable | Garbage | UsersDoc "User list"

datatype write_outcome = WriteOk | WriteFails file_doc

record FileStore =
  fs_path :: string
  fs_file :: file_doc
  fs_write :: write_outcome

definition NewFileStore ::
  "bool \<Rightarrow> string \<Rightarrow> file_doc \<Rightarrow> write_outcome \<Rightarrow> (auth_error, FileStore) result" where
  "NewFileStore mkdir_ok path f w =
     (if \<not> mkdir_ok then Inl ErrIO else Inr \<lparr>fs_path = path, fs_file = f, fs_write = w\<rparr>)"

definition fs_load :: "FileStore \<Rightarrow> (auth_error, User list) result" where
  "fs_load s =
     (case fs_file s of
        Absent \<Rightarrow> Inr []
      | Unreadable \<Rightarrow> Inl ErrIO
      | Garbage \<Rightarrow> Inl ErrIO
      | UsersDoc us \<Rightarrow> Inr us)"

definition fs_save :: "User list \<Rightarrow> FileStore \<Rightarrow> (auth_error, unit) result \<times> FileStore" where
  "fs_save us s =
     (case fs_write s of
        WriteOk \<Rightarrow> (Inr (), s\<lparr>fs_file := UsersDoc us\<rparr>)
      | WriteFails d \<Rightarrow> (Inl ErrIO, s\<lparr>fs_file := d\<rparr>))"

definition fs_Seed :: "auth_env \<Rightarrow> string \<Rightarrow> FileStore \<Rightarrow> (auth_error, string) result \<times> FileStore" where
  "fs_Seed e username s =
     (case fs_load s of
        Inl err \<Rightarrow> (Inl err, s)
      | Inr users \<Rightarrow>
          if length users > 0 then (Inr [], s)
          else (case randomPassword e 16 of
             Inl err \<Rightarrow> (Inl err, s)
           | Inr random \<Rightarrow>
               let pw = (if initial_password e \<noteq> [] then initial_password e else random) in
               (case bcrypt_generate e pw of
                  None \<Rightarrow> (Inl ErrBcrypt, s)
                | Some hash \<Rightarrow>
                    (case fs_save (users @ [new_user username hash RoleAdmin (Unix (clock e))]) s of
                       (Inl err, s') \<Rightarrow> (Inl err, s')
                     | (Inr _, s') \<Rightarrow> (Inr pw, s')))))"

fun fs_auth_loop :: "auth_env \<Rightarrow> string \<Rightarrow> string \<Rightarrow> User list \<Rightarrow> (auth_error, User) result" where
  "fs_auth_loop e username password [] = Inl ErrBadCredentials"
| "fs_auth_loop e username password (u # us) =
     (if Username u \<noteq> username then fs_auth_loop e username password us
      else if LockedUntil u > Unix (clock e) then Inl ErrLocked
      else if \<not> bcrypt_compare e (Hash u) password then Inl ErrBadCredentials
      else Inr u)"

definition fs_Authenticate ::
  "auth_env \<Rightarrow> string \<Rightarrow> string \<Rightarrow> FileStore \<Rightarrow> (auth_error, User) result" where
  "fs_Authenticate e username password s =
     (case fs_load s of Inl err \<Rightarrow> Inl err | Inr users \<Rightarrow> fs_auth_loop e username password users)"

text \<open>The loop that finds the first account of a name and changes it in place.\<close>

fun update_first :: "string \<Rightarrow> (User \<Rightarrow> User) \<Rightarrow> User list \<Rightarrow> User list option" where
  "update_first username f [] = None"
| "update_first username f (u # us) =
     (if Username u \<noteq> username then map_option ((#) u) (update_first username f us)
      else Some (f u # us))"

definition fs_SetPassword ::
  "auth_env \<Rightarrow> string \<Rightarrow> string \<Rightarrow> FileStore \<Rightarrow> (auth_error, unit) result \<times> FileStore" where
  "fs_SetPassword e username password s =
     (case fs_load s of
        Inl err \<Rightarrow> (Inl err, s)
      | Inr users \<Rightarrow>
          if \<not> list_ex (\<lambda>u. Username u = username) users then (Inl ErrUserNotFound, s)
          else (case bcrypt_generate e password of
             None \<Rightarrow> (Inl ErrBcrypt, s)
           | Some hash \<Rightarrow>
               (case update_first username (set_password hash (Unix (clock e))) users of
                  None \<Rightarrow> (Inl ErrUserNotFound, s)
                | Some users' \<Rightarrow> fs_save users' s)))"

definition fs_CreateUser ::
  "auth_env \<Rightarrow> string \<Rightarrow> string \<Rightarrow> Role \<Rightarrow> FileStore \<Rightarrow> (auth_error, unit) result \<times> FileStore" where
  "fs_CreateUser e username password role s =
     (case fs_load s of
        Inl err \<Rightarrow> (Inl err, s)
      | Inr users \<Rightarrow>
          if list_ex (\<lambda>u. Username u = username) users then (Inl ErrUserExists, s)
          else (case bcrypt_generate e password of
             None \<Rightarrow> (Inl ErrBcrypt, s)
           | Some hash \<Rightarrow> fs_save (users @ [new_user username hash role (Unix (clock e))]) s))"

text \<open>The second loop of \<open>DeleteUser\<close>: \<open>out\<close> is what it has kept so far.\<close>

fun fs_delete_loop :: "nat \<Rightarrow> string \<Rightarrow> User list \<Rightarrow> User list \<Rightarrow> (auth_error, User list) result" where
  "fs_delete_loop adm username out [] = Inr out"
| "fs_delete_loop adm username out (u # us) =
     (if Username u = username
      then if Role u = RoleAdmin \<and> adm = 1 then Inl ErrCannotDeleteLastAdmin
           else fs_delete_loop adm username out us
      else fs_delete_loop adm username (out @ [u]) us)"

definition fs_DeleteUser :: "string \<Rightarrow> FileStore \<Rightarrow> (auth_error, unit) result \<times> FileStore" where
  "fs_DeleteUser username s =
     (case fs_load s of
        Inl err \<Rightarrow> (Inl err, s)
      | Inr users \<Rightarrow>
          let adm = length (filter (\<lambda>u. Role u = RoleAdmin) users) in
          (case fs_delete_loop adm username [] users of
             Inl err \<Rightarrow> (Inl err, s)
           | Inr out \<Rightarrow>
               if length out = length users then (Inl ErrUserNotFound, s) else fs_save out s))"

fun fs_get_loop :: "string \<Rightarrow> User list \<Rightarrow> (auth_error, User) result" where
  "fs_get_loop username [] = Inl ErrUserNotFound"
| "fs_get_loop username (u # us) = (if Username u = username then Inr u else fs_get_loop username us)"

definition fs_GetUser :: "string \<Rightarrow> FileStore \<Rightarrow> (auth_error, User) result" where
  "fs_GetUser username s =
     (case fs_load s of Inl err \<Rightarrow> Inl err | Inr users \<Rightarrow> fs_get_loop username users)"

definition fs_ListUsers :: "FileStore \<Rightarrow> (auth_error, User list) result" where
  "fs_ListUsers s = fs_load s"

definition fs_mutate ::
  "string \<Rightarrow> (User \<Rightarrow> User) \<Rightarrow> FileStore \<Rightarrow> (auth_error, unit) result \<times> FileStore" where
  "fs_mutate username f s =
     (case fs_load s of
        Inl err \<Rightarrow> (Inl err, s)
      | Inr users \<Rightarrow>
          (case update_first username f users of
             None \<Rightarrow> (Inl ErrUserNotFound, s)
           | Some users' \<Rightarrow> fs_save users' s))"

definition fs_SetRole :: "string \<Rightarrow> Role \<Rightarrow> FileStore \<Rightarrow> (auth_error, unit) result \<times> FileStore" where
  "fs_SetRole username role s =
     (if \<not> role_Valid role then (Inl ErrInvalidRole, s)
      else fs_mutate username (\<lambda>u. u\<lparr>Role := role\<rparr>) s)"

definition fs_SetLockedUntil ::
  "string \<Rightarrow> int \<Rightarrow> FileStore \<Rightarrow> (auth_error, unit) result \<times> FileStore" where
  "fs_SetLockedUntil username until s = fs_mutate username (\<lambda>u. u\<lparr>LockedUntil := until\<rparr>) s"

definition incr_failures :: "User \<Rightarrow> User" where
  "incr_failures u = u\<lparr>FailedAttempts := wrap64 (FailedAttempts u + 1)\<rparr>"

text \<open>The closure of \<open>IncrementFailures\<close> also stores the new count in \<open>n\<close>, zero if it never ran.\<close>

definition fs_IncrementFailures ::
  "string \<Rightarrow> FileStore \<Rightarrow> (auth_error, int) result \<times> FileStore" where
  "fs_IncrementFailures username s =
     (case fs_mutate username incr_failures s of
        (Inl err, s') \<Rightarrow> (Inl err, s')
      | (Inr _, s') \<Rightarrow>
          (Inr (case fs_GetUser username s of
                  Inr u \<Rightarrow> FailedAttempts (incr_failures u) | Inl _ \<Rightarrow> 0), s'))"

definition fs_ResetFailures :: "string \<Rightarrow> FileStore \<Rightarrow> (auth_error, unit) result \<times> FileStore" where
  "fs_ResetFailures username s =
     fs_mutate username (\<lambda>u. u\<lparr>FailedAttempts := 0, LockedUntil := 0\<rparr>) s"

definition FileStore_ops :: "FileStore CredStore" where
  "FileStore_ops = \<lparr>Seed = fs_Seed, Authenticate = fs_Authenticate, SetPassword = fs_SetPassword,
     CreateUser = fs_CreateUser, DeleteUser = fs_DeleteUser, SetRole = fs_SetRole,
     GetUser = fs_GetUser, ListUsers = fs_ListUsers, SetLockedUntil = fs_SetLockedUntil,
     IncrementFailures = fs_IncrementFailures, ResetFailures = fs_ResetFailures\<rparr>"

section \<open>The view of the file and its invariant\<close>

definition user_map :: "User list \<Rightarrow> user_view" where
  "user_map us = map_of (map (\<lambda>u. (Username u, u)) us)"

definition fs_view :: "FileStore \<Rightarrow> user_view" where
  "fs_view s = (case fs_file s of UsersDoc us \<Rightarrow> user_map us | _ \<Rightarrow> Map.empty)"

definition fs_inv :: "FileStore \<Rightarrow> bool" where
  "fs_inv s = (case fs_file s of UsersDoc us \<Rightarrow> distinct (map Username us) | _ \<Rightarrow> True)"

lemma user_map_simps [simp]:
  "user_map [] = Map.empty"
  "user_map (u # us) = (user_map us)(Username u \<mapsto> u)"
  by (simp_all add: user_map_def)

lemma dom_user_map [simp]: "dom (user_map us) = Username ` set us"
  by (simp add: user_map_def dom_map_of_conv_image_fst image_image)

lemma user_map_Username: "user_map us n = Some u \<Longrightarrow> Username u = n \<and> u \<in> set us"
  by (induction us) (auto split: if_splits)

lemma user_map_iff:
  "distinct (map Username us) \<Longrightarrow> user_map us n = Some u \<longleftrightarrow> u \<in> set us \<and> Username u = n"
  by (auto simp: user_map_def map_of_eq_Some_iff o_def)

lemma user_map_None: "user_map us n = None \<longleftrightarrow> n \<notin> Username ` set us"
  by (metis domIff dom_user_map)

lemma user_map_snoc:
  "Username u \<notin> Username ` set us \<Longrightarrow> user_map (us @ [u]) = (user_map us)(Username u \<mapsto> u)"
  by (induction us) (auto simp: fun_upd_twist)

lemma ran_user_map: "distinct (map Username us) \<Longrightarrow> ran (user_map us) = set us"
  by (auto simp: ran_def user_map_iff)

lemma user_map_filter:
  "user_map (filter (\<lambda>u. Username u \<noteq> n) us) = (user_map us)(n := None)"
  by (induction us) (auto simp: fun_upd_twist fun_eq_iff)

lemma update_first_user_map:
  assumes "update_first n f us = Some us'" "\<And>u. Username (f u) = Username u"
  shows "map Username us' = map Username us
    \<and> (\<exists>u. user_map us n = Some u \<and> user_map us' = (user_map us)(n \<mapsto> f u))"
  using assms(1)
proof (induction us arbitrary: us')
  case (Cons v us)
  then show ?case
    using assms(2) by (auto simp: fun_eq_iff split: if_splits)
qed simp

lemma update_first_None: "update_first n f us = None \<longleftrightarrow> n \<notin> Username ` set us"
  by (induction us) auto

lemma fs_delete_loop_eq:
  "fs_delete_loop adm n out us =
     (if adm = 1 \<and> (\<exists>u \<in> set us. Username u = n \<and> Role u = RoleAdmin)
      then Inl ErrCannotDeleteLastAdmin
      else Inr (out @ filter (\<lambda>u. Username u \<noteq> n) us))"
  by (induction us arbitrary: out) auto

lemma fs_get_loop_eq:
  "fs_get_loop n us = (case user_map us n of None \<Rightarrow> Inl ErrUserNotFound | Some u \<Rightarrow> Inr u)"
  by (induction us) auto

lemma fs_auth_loop_eq:
  "fs_auth_loop e n pw us =
     (case user_map us n of
        None \<Rightarrow> Inl ErrBadCredentials
      | Some u \<Rightarrow>
          if LockedUntil u > Unix (clock e) then Inl ErrLocked
          else if \<not> bcrypt_compare e (Hash u) pw then Inl ErrBadCredentials else Inr u)"
  by (induction us) auto

lemma fs_load_Inr:
  "fs_load s = Inr us \<Longrightarrow> fs_view s = user_map us \<and> (fs_inv s \<longrightarrow> distinct (map Username us))"
  by (auto simp: fs_load_def fs_view_def fs_inv_def split: file_doc.splits)

lemma fs_save_Inr:
  "fs_save us s = (Inr (), s') \<Longrightarrow>
     fs_view s' = user_map us \<and> (distinct (map Username us) \<longrightarrow> fs_inv s')"
  by (auto simp: fs_save_def fs_view_def fs_inv_def split: write_outcome.splits)

lemma fs_mutate_Inr:
  assumes "fs_inv s" "fs_mutate n f s = (Inr (), s')" "\<And>u. Username (f u) = Username u"
  shows "fs_inv s' \<and> (\<exists>u. fs_view s n = Some u \<and> fs_view s' = (fs_view s)(n \<mapsto> f u))"
proof -
  obtain us us' where us: "fs_load s = Inr us" "update_first n f us = Some us'"
    "fs_save us' s = (Inr (), s')"
    using assms(2) by (auto simp: fs_mutate_def split: sum.splits option.splits)
  from update_first_user_map [OF us(2) assms(3)] fs_load_Inr [OF us(1)] fs_save_Inr [OF us(3)]
    assms(1)
  show ?thesis by auto
qed

lemma length_filter_1_iff_admin:
  assumes "distinct (map Username us)" "u \<in> set us" "Role u = RoleAdmin"
  shows "length (filter (\<lambda>u. Role u = RoleAdmin) us) = 1 \<longleftrightarrow> admins (user_map us) = {Username u}"
proof -
  let ?as = "filter (\<lambda>u. Role u = RoleAdmin) us"
  have d: "distinct (map Username ?as)" using assms(1) by (rule distinct_map_filter)
  have adm: "admins (user_map us) = Username ` set ?as"
    using user_map_iff [OF assms(1)] by (auto simp: admins_def)
  have mem: "Username u \<in> admins (user_map us)"
    using assms by (auto simp: adm)
  have "card (admins (user_map us)) = length ?as"
    using d distinct_card unfolding adm by (metis image_set length_map)
  then show ?thesis using mem by (metis One_nat_def card_1_singleton_iff singletonD)
qed

section \<open>The file store implements the contract\<close>

lemma fs_DeleteUser_Inr:
  assumes "fs_inv s" "fs_DeleteUser n s = (Inr (), s')"
  shows "fs_inv s' \<and> (\<exists>u. fs_view s n = Some u
     \<and> (Role u = RoleAdmin \<longrightarrow> admins (fs_view s) \<noteq> {n}) \<and> fs_view s' = (fs_view s)(n := None))"
proof -
  let ?adm = "\<lambda>us. length (filter (\<lambda>u. Role u = RoleAdmin) us)"
  obtain us where us: "fs_load s = Inr us" using assms(2)
    by (auto simp: fs_DeleteUser_def split: sum.splits)
  let ?out = "filter (\<lambda>u. Username u \<noteq> n) us"
  let ?last = "?adm us = 1 \<and> (\<exists>u \<in> set us. Username u = n \<and> Role u = RoleAdmin)"
  have "fs_DeleteUser n s =
      (if ?last then (Inl ErrCannotDeleteLastAdmin, s)
       else if length ?out = length us then (Inl ErrUserNotFound, s) else fs_save ?out s)"
    by (simp only: fs_DeleteUser_def us Let_def fs_delete_loop_eq sum.case append.simps
        if_distrib [of "case_sum _ _"])
  with assms(2) have ok: "\<not> ?last" and len: "length ?out \<noteq> length us"
    and save: "fs_save ?out s = (Inr (), s')"
    by (simp_all only: prod.inject sum.distinct simp_thms if_False if_True split: if_splits)
  have d: "distinct (map Username us)" and v: "fs_view s = user_map us"
    using fs_load_Inr [OF us] assms(1) by auto
  obtain u where u: "u \<in> set us" "Username u = n"
  proof (rule ccontr)
    assume "\<not> thesis"
    with that have "\<forall>u \<in> set us. Username u \<noteq> n" by blast
    then have "?out = us" by (rule filter_True)
    with len show False by (rule_tac notE) simp_all
  qed
  have "fs_view s n = Some u" using u d v by (simp add: user_map_iff)
  moreover have "Role u = RoleAdmin \<longrightarrow> admins (fs_view s) \<noteq> {n}"
    using ok u length_filter_1_iff_admin [OF d u(1)] unfolding v by blast
  moreover have "fs_view s' = (fs_view s)(n := None) \<and> fs_inv s'"
    using fs_save_Inr [OF save] v user_map_filter distinct_map_filter [OF d] by auto
  ultimately show ?thesis by blast
qed

lemma fs_Seed_Inr:
  assumes "fs_inv s" "fs_Seed e n s = (Inr pw, s')"
  shows "fs_inv s' \<and> (fs_view s' = fs_view s \<and> pw = []
     \<or> (\<exists>h. fs_view s = Map.empty \<and> bcrypt_generate e pw = Some h
          \<and> fs_view s' = [n \<mapsto> new_user n h RoleAdmin (Unix (clock e))]))"
proof -
  obtain us where us: "fs_load s = Inr us" using assms(2)
    by (auto simp: fs_Seed_def split: sum.splits)
  show ?thesis
  proof (cases us)
    case (Cons u vs)
    with assms us show ?thesis by (auto simp: fs_Seed_def)
  next
    case Nil
    then obtain h where h: "bcrypt_generate e pw = Some h"
      "fs_save [new_user n h RoleAdmin (Unix (clock e))] s = (Inr (), s')"
      using assms(2) us
      by (auto simp: fs_Seed_def Let_def split: sum.splits option.splits prod.splits)
    from fs_save_Inr [OF h(2)] fs_load_Inr [OF us] Nil h(1) show ?thesis
      by (auto simp: new_user_def)
  qed
qed

lemma fs_CreateUser_Inr:
  assumes "fs_inv s" "fs_CreateUser e n pw r s = (Inr (), s')"
  shows "fs_inv s' \<and> (\<exists>h. fs_view s n = None \<and> bcrypt_generate e pw = Some h
     \<and> fs_view s' = (fs_view s)(n \<mapsto> new_user n h r (Unix (clock e))))"
proof -
  obtain us h where us: "fs_load s = Inr us" "\<not> list_ex (\<lambda>u. Username u = n) us"
    "bcrypt_generate e pw = Some h"
    "fs_save (us @ [new_user n h r (Unix (clock e))]) s = (Inr (), s')"
    using assms(2) by (auto simp: fs_CreateUser_def split: sum.splits option.splits if_splits)
  have n: "n \<notin> Username ` set us" using us(2) by (auto simp: list_ex_iff)
  have "Username (new_user n h r t) = n" for t by (simp add: new_user_def)
  with fs_save_Inr [OF us(4)] fs_load_Inr [OF us(1)] assms(1) us(3) n
  show ?thesis by (auto simp: user_map_snoc user_map_None)
qed

lemma fs_SetPassword_Inr:
  assumes "fs_inv s" "fs_SetPassword e n pw s = (Inr (), s')"
  shows "fs_inv s' \<and> (\<exists>u h. fs_view s n = Some u \<and> bcrypt_generate e pw = Some h
     \<and> fs_view s' = (fs_view s)(n \<mapsto> set_password h (Unix (clock e)) u))"
proof -
  obtain h where h: "bcrypt_generate e pw = Some h"
    "fs_mutate n (set_password h (Unix (clock e))) s = (Inr (), s')"
    using assms(2)
    by (auto simp: fs_SetPassword_def fs_mutate_def split: sum.splits option.splits if_splits)
  from fs_mutate_Inr [OF assms(1) h(2)] h(1) show ?thesis
    by (auto simp: set_password_def)
qed

lemma fs_IncrementFailures_Inr:
  assumes "fs_inv s" "fs_IncrementFailures n s = (Inr k, s')"
  shows "fs_inv s' \<and> (\<exists>u. fs_view s n = Some u \<and> k = wrap64 (FailedAttempts u + 1)
     \<and> fs_view s' = (fs_view s)(n \<mapsto> u\<lparr>FailedAttempts := k\<rparr>))"
proof -
  have m: "fs_mutate n incr_failures s = (Inr (), s')"
    using assms(2) by (auto simp: fs_IncrementFailures_def split: prod.splits sum.splits)
  obtain us where us: "fs_load s = Inr us"
    using m by (auto simp: fs_mutate_def split: sum.splits)
  obtain u where u: "fs_view s n = Some u" "fs_view s' = (fs_view s)(n \<mapsto> incr_failures u)" "fs_inv s'"
    using fs_mutate_Inr [OF assms(1) m] by (auto simp: incr_failures_def)
  have "fs_GetUser n s = Inr u"
    using u(1) us fs_load_Inr [OF us] by (simp add: fs_GetUser_def fs_get_loop_eq)
  with assms(2) m have "k = FailedAttempts (incr_failures u)"
    by (simp add: fs_IncrementFailures_def)
  with u show ?thesis by (simp add: incr_failures_def)
qed

interpretation fs: cred_store FileStore_ops fs_view fs_inv
proof (unfold_locales, unfold FileStore_ops_def CredStore.simps, goal_cases)
  case (1 s n u)
  then show ?case
    by (auto simp: fs_view_def dest: user_map_Username split: file_doc.splits)
next
  case (2 s)
  then show ?case by (auto simp: fs_view_def split: file_doc.splits)
next
  case (3 s n u)
  then show ?case
    by (auto simp: fs_GetUser_def fs_get_loop_eq dest!: fs_load_Inr split: sum.splits option.splits)
next
  case (4 s n)
  then show ?case
    by (auto simp: fs_GetUser_def fs_get_loop_eq fs_load_def fs_view_def
        split: sum.splits option.splits file_doc.splits)
next
  case (5 s us)
  then show ?case by (auto simp: fs_ListUsers_def ran_user_map dest!: fs_load_Inr)
next
  case (6 s e n pw u)
  then show ?case
    by (auto simp: fs_Authenticate_def fs_auth_loop_eq dest!: fs_load_Inr
        split: sum.splits option.splits if_splits)
next
  case (7 s e n pw s')
  then show ?case by (rule fs_SetPassword_Inr)
next
  case (8 s e n pw r s')
  then show ?case by (rule fs_CreateUser_Inr)
next
  case (9 s n s')
  then show ?case by (rule fs_DeleteUser_Inr)
next
  case (10 s n r s')
  then show ?case
    using fs_mutate_Inr [OF "10"(1), of n "\<lambda>u. u\<lparr>Role := r\<rparr>" s']
    by (simp add: fs_SetRole_def split: if_splits)
next
  case (11 s n t s')
  then show ?case
    using fs_mutate_Inr [OF "11"(1), of n "\<lambda>u. u\<lparr>LockedUntil := t\<rparr>" s']
    by (simp add: fs_SetLockedUntil_def split: if_splits)
next
  case (12 s n k s')
  then show ?case by (rule fs_IncrementFailures_Inr)
next
  case (13 s n s')
  then show ?case
    using fs_mutate_Inr [OF "13"(1), of n "\<lambda>u. u\<lparr>FailedAttempts := 0, LockedUntil := 0\<rparr>" s']
    by (simp add: fs_ResetFailures_def split: if_splits)
next
  case (14 s e n pw s')
  then show ?case by (rule fs_Seed_Inr)
qed

section \<open>A file store whose writes succeed\<close>

definition fs_ok :: "FileStore \<Rightarrow> bool" where
  "fs_ok s \<longleftrightarrow> fs_inv s \<and> fs_write s = WriteOk"

lemma fs_save_ok:
  "fs_write s = WriteOk \<Longrightarrow> fs_save us s = (Inr (), s\<lparr>fs_file := UsersDoc us\<rparr>)"
  by (simp add: fs_save_def)

lemma fs_mutate_ok:
  "fs_write s = WriteOk \<Longrightarrow> fs_write (snd (fs_mutate n f s)) = WriteOk
     \<and> (\<forall>err s'. fs_mutate n f s = (Inl err, s') \<longrightarrow> s' = s)"
  by (auto simp: fs_mutate_def fs_save_ok split: sum.splits option.splits)

lemma snd_fs_IncrementFailures:
  "snd (fs_IncrementFailures n s) = snd (fs_mutate n incr_failures s)"
  by (auto simp: fs_IncrementFailures_def split: prod.splits sum.splits)

lemma fs_write_ops:
  assumes "fs_write s = WriteOk"
  shows "fs_write (snd (fs_SetPassword e n pw s)) = WriteOk"
    "fs_write (snd (fs_CreateUser e n pw r s)) = WriteOk"
    "fs_write (snd (fs_DeleteUser n s)) = WriteOk"
    "fs_write (snd (fs_SetRole n r s)) = WriteOk"
    "fs_write (snd (fs_SetLockedUntil n t s)) = WriteOk"
    "fs_write (snd (fs_IncrementFailures n s)) = WriteOk"
    "fs_write (snd (fs_ResetFailures n s)) = WriteOk"
    "fs_write (snd (fs_Seed e n s)) = WriteOk"
  using assms fs_mutate_ok [OF assms]
  by (auto simp: fs_SetPassword_def fs_CreateUser_def fs_DeleteUser_def fs_SetRole_def
      fs_SetLockedUntil_def snd_fs_IncrementFailures fs_ResetFailures_def fs_Seed_def fs_save_ok
      Let_def split: sum.splits option.splits prod.splits)

lemma fs_frame_ops:
  assumes "fs_write s = WriteOk"
  shows "fs_SetPassword e n pw s = (Inl err, s') \<Longrightarrow> s' = s"
    "fs_CreateUser e n pw r s = (Inl err, s') \<Longrightarrow> s' = s"
    "fs_DeleteUser n s = (Inl err, s') \<Longrightarrow> s' = s"
    "fs_SetRole n r s = (Inl err, s') \<Longrightarrow> s' = s"
  using assms fs_mutate_ok [OF assms]
  by (auto simp: fs_SetPassword_def fs_CreateUser_def fs_DeleteUser_def fs_SetRole_def fs_save_ok
      Let_def split: sum.splits option.splits if_splits)

lemma fs_opsD:
  "Seed FileStore_ops = fs_Seed" "Authenticate FileStore_ops = fs_Authenticate"
  "SetPassword FileStore_ops = fs_SetPassword" "CreateUser FileStore_ops = fs_CreateUser"
  "DeleteUser FileStore_ops = fs_DeleteUser" "SetRole FileStore_ops = fs_SetRole"
  "GetUser FileStore_ops = fs_GetUser" "ListUsers FileStore_ops = fs_ListUsers"
  "SetLockedUntil FileStore_ops = fs_SetLockedUntil"
  "IncrementFailures FileStore_ops = fs_IncrementFailures"
  "ResetFailures FileStore_ops = fs_ResetFailures"
  by (simp_all add: FileStore_ops_def)

interpretation fsok: reliable_cred_store FileStore_ops fs_view fs_ok
proof (unfold_locales, unfold fs_ok_def, goal_cases)
  case (7 s e n pw s')
  then show ?case
    using fs.SetPassword_Inr [of s e n pw s'] fs_write_ops(1) [of s e n pw] by (simp add: fs_opsD)
next
  case (8 s e n pw r s')
  then show ?case
    using fs.CreateUser_Inr [of s e n pw r s'] fs_write_ops(2) [of s e n pw r] by (simp add: fs_opsD)
next
  case (9 s n s')
  then show ?case
    using fs.DeleteUser_Inr [of s n s'] fs_write_ops(3) [of s n] by (simp add: fs_opsD)
next
  case (10 s n r s')
  then show ?case
    using fs.SetRole_Inr [of s n r s'] fs_write_ops(4) [of s n r] by (simp add: fs_opsD)
next
  case (11 s n t s')
  then show ?case
    using fs.SetLockedUntil_Inr [of s n t s'] fs_write_ops(5) [of s n t] by (simp add: fs_opsD)
next
  case (12 s n k s')
  then show ?case
    using fs.IncrementFailures_Inr [of s n k s'] fs_write_ops(6) [of s n] by (simp add: fs_opsD)
next
  case (13 s n s')
  then show ?case
    using fs.ResetFailures_Inr [of s n s'] fs_write_ops(7) [of s n] by (simp add: fs_opsD)
next
  case (14 s e n pw s')
  then show ?case
    using fs.Seed_Inr [of s e n pw s'] fs_write_ops(8) [of s e n] by (simp add: fs_opsD)
qed (use fs.view_Username fs.view_finite fs.GetUser_Inr fs.GetUser_NotFound fs.ListUsers_Inr
      fs.Authenticate_Inr fs_frame_ops in \<open>auto simp: fs_opsD\<close>)

end
