(* ===== verification/Session.thy ===== *)
theory Session
  imports Base64
begin

text \<open>
  The stateless login session: \<open>dashboard/auth/session.go\<close> and \<open>dashboard/auth/csrf.go\<close>.
  HMAC-SHA256 and the JSON codec of the payload are parameters: \<open>hmac secret msg\<close> is the MAC,
  \<open>marshal\<close> and \<open>unmarshal\<close> are \<open>json.Marshal\<close> and \<open>json.Unmarshal\<close> at \<open>SessionPayload\<close>
  (\<open>None\<close> for an error). Times are Unix seconds.
\<close>

record SessionPayload =
  spUsername :: string
  spRole :: string
  Exp :: int
  Nonce :: string

datatype session_error = ErrBadMAC | ErrExpired | ErrMalformed | ErrMarshal

definition Sign ::
  "(bytes \<Rightarrow> bytes \<Rightarrow> bytes) \<Rightarrow> (SessionPayload \<Rightarrow> bytes option) \<Rightarrow> bytes \<Rightarrow> SessionPayload
     \<Rightarrow> (session_error, string) result" where
  "Sign hmac marshal secret p =
     (case marshal p of
        None \<Rightarrow> Inl ErrMarshal
      | Some body \<Rightarrow>
          let b = EncodeToString body
          in Inr (b @ ''.'' @ EncodeToString (hmac secret b)))"

definition Verify ::
  "(bytes \<Rightarrow> bytes \<Rightarrow> bytes) \<Rightarrow> (bytes \<Rightarrow> SessionPayload option) \<Rightarrow> int \<Rightarrow> bytes \<Rightarrow> string
     \<Rightarrow> (session_error, SessionPayload) result" where
  "Verify hmac unmarshal now secret cookie =
     (case SplitN2 (CHR ''.'') cookie of
        [part0, part1] \<Rightarrow>
          (case DecodeString part1 of
             None \<Rightarrow> Inl ErrMalformed
           | Some got \<Rightarrow>
               if hmac secret part0 \<noteq> got then Inl ErrBadMAC
               else (case DecodeString part0 of
                       None \<Rightarrow> Inl ErrMalformed
                     | Some body \<Rightarrow>
                         (case unmarshal body of
                            None \<Rightarrow> Inl ErrMalformed
                          | Some p \<Rightarrow> if now > Exp p then Inl ErrExpired else Inr p)))
      | _ \<Rightarrow> Inl ErrMalformed)"

text \<open>\<open>NewCSRFToken\<close>: \<open>buf\<close> is the 24-byte buffer after \<open>rand.Read\<close> (its error is dropped).\<close>

definition NewCSRFToken :: "bytes \<Rightarrow> string" where
  "NewCSRFToken buf = EncodeToString buf"

definition ValidateCSRFToken :: "string \<Rightarrow> string \<Rightarrow> bool" where
  "ValidateCSRFToken form expected =
     (if form = [] \<or> expected = [] then False else form = expected)"

section \<open>What a verified cookie is\<close>

lemma SplitN2_pair: "SplitN2 sep s = [a, b] \<longleftrightarrow> s = a @ sep # b \<and> sep \<notin> set a"
proof
  assume "SplitN2 sep s = [a, b]"
  then obtain i where i: "IndexByte s sep = Some i" "a = take i s" "b = drop (Suc i) s"
    by (auto simp: SplitN2_def split: option.splits)
  with IndexByte_recompose [OF i(1)] IndexByte_SomeD [OF i(1)]
  show "s = a @ sep # b \<and> sep \<notin> set a" by simp
qed simp

lemma SplitN2_cases:
  obtains "sep \<notin> set s" "SplitN2 sep s = [s]"
  | a b where "s = a @ sep # b" "sep \<notin> set a" "SplitN2 sep s = [a, b]"
proof (cases "IndexByte s sep")
  case None
  then have "SplitN2 sep s = [s]" by (simp only: SplitN2_def option.case)
  with None show ?thesis using that(1) by simp
next
  case (Some i)
  then have "SplitN2 sep s = [take i s, drop (Suc i) s]" by (simp add: SplitN2_def)
  then show ?thesis using that(2) SplitN2_pair by blast
qed

text \<open>
  C9. \<open>Verify\<close> accepts a cookie as the session \<open>p\<close> exactly when the cookie is \<open>b.m\<close> with \<open>b\<close>
  free of dots, \<open>m\<close> decodes to the HMAC of \<open>b\<close> under the server's secret, \<open>b\<close> decodes to the JSON
  of \<open>p\<close>, and \<open>p\<close> has not expired: the decision depends on nothing else, and in particular no
  payload is returned before its MAC has been checked.
\<close>

theorem Verify_accepts_iff:
  "Verify hmac unmarshal now secret cookie = Inr p \<longleftrightarrow>
     (\<exists>b m body. cookie = b @ CHR ''.'' # m \<and> CHR ''.'' \<notin> set b
        \<and> DecodeString m = Some (hmac secret b)
        \<and> DecodeString b = Some body \<and> unmarshal body = Some p \<and> now \<le> Exp p)"
  (is "?L \<longleftrightarrow> ?R")
proof (rule SplitN2_cases [of "CHR ''.''" cookie], goal_cases)
  case 1
  then show ?thesis by (auto simp: Verify_def)
next
  case (2 b m)
  have "?R \<longleftrightarrow> (\<exists>body. DecodeString m = Some (hmac secret b)
        \<and> DecodeString b = Some body \<and> unmarshal body = Some p \<and> now \<le> Exp p)"
    using 2 by (metis SplitN2_pair list.inject)
  also have "\<dots> \<longleftrightarrow> ?L"
    using 2(3) by (auto simp: Verify_def split: option.splits if_splits)
  finally show ?thesis by blast
qed

lemma Verify_Sign_general:
  assumes "marshal p = Some body" "unmarshal body = Some q"
    and "Sign hmac marshal secret p = Inr cookie"
  shows "Verify hmac unmarshal now secret' cookie =
    (if hmac secret' (EncodeToString body) \<noteq> hmac secret (EncodeToString body) then Inl ErrBadMAC
     else if now > Exp q then Inl ErrExpired else Inr q)"
proof -
  have "cookie = EncodeToString body @ CHR ''.'' # EncodeToString (hmac secret (EncodeToString body))"
    using assms by (simp add: Sign_def Let_def)
  then show ?thesis
    using assms by (simp add: Verify_def)
qed

text \<open>
  Signing a payload and verifying the cookie under the same secret gives the payload back
  up to and including the second \<open>Exp\<close>, and \<open>ErrExpired\<close> from the next second on, whenever the JSON
  codec reads back what it wrote for this payload.
\<close>

theorem Verify_Sign:
  assumes "marshal p = Some body" "unmarshal body = Some p"
  shows "\<exists>cookie. Sign hmac marshal secret p = Inr cookie \<and>
     Verify hmac unmarshal now secret cookie = (if now \<le> Exp p then Inr p else Inl ErrExpired)"
proof -
  obtain cookie where "Sign hmac marshal secret p = Inr cookie"
    using assms(1) by (simp add: Sign_def Let_def)
  then show ?thesis
    using Verify_Sign_general [of marshal p body unmarshal p hmac secret cookie now secret] assms
    by auto
qed

theorem Verify_Sign_witness:
  "\<exists>cookie. Sign (\<lambda>k m. k @ m) (\<lambda>p. Some (spUsername p)) ''key''
        \<lparr>spUsername = ''admin'', spRole = ''admin'', Exp = 100, Nonce = ''n''\<rparr> = Inr cookie \<and>
     Verify (\<lambda>k m. k @ m)
        (\<lambda>b. Some \<lparr>spUsername = b, spRole = ''admin'', Exp = 100, Nonce = ''n''\<rparr>) 100 ''key'' cookie
      = Inr \<lparr>spUsername = ''admin'', spRole = ''admin'', Exp = 100, Nonce = ''n''\<rparr>"
  using Verify_Sign
    [of "\<lambda>p. Some (spUsername p)"
        "\<lparr>spUsername = ''admin'', spRole = ''admin'', Exp = 100, Nonce = ''n''\<rparr>" "''admin''"
        "\<lambda>b. Some \<lparr>spUsername = b, spRole = ''admin'', Exp = 100, Nonce = ''n''\<rparr>"
        "\<lambda>k m. k @ m" "''key''" 100]
  by simp

lemma ValidateCSRFToken_iff: "ValidateCSRFToken form expected \<longleftrightarrow> form = expected \<and> form \<noteq> []"
  by (auto simp: ValidateCSRFToken_def)

end
