(* ===== verification/Http.thy ===== *)
theory Http
  imports Prelude
begin

text \<open>
  The part of \<open>net/http\<close> the handlers are written against: what a handler answers, the cookie it
  sets, and the request it reads. A form or a query is a function from field names to values,
  the empty string standing for an absent field, as \<open>PostFormValue\<close>, \<open>Query().Get\<close> and
  \<open>PathValue\<close> return it. A rendered page is the data handed to the template.
\<close>

datatype 'p response =
    Redirect nat string \<comment> \<open>\<open>http.Redirect(w, r, url, code)\<close>\<close>
  | HttpError nat string \<comment> \<open>\<open>http.Error(w, msg, code)\<close>\<close>
  | NotFound \<comment> \<open>\<open>http.NotFound\<close>\<close>
  | NoContent \<comment> \<open>\<open>w.WriteHeader(204)\<close> with no body\<close>
  | Render nat 'p \<comment> \<open>a status and the page data\<close>

fun status :: "'p response \<Rightarrow> nat" where
  "status (Redirect c u) = c"
| "status (HttpError c m) = c"
| "status NotFound = 404"
| "status NoContent = 204"
| "status (Render c p) = c"

abbreviation StatusOK :: nat where "StatusOK \<equiv> 200"
abbreviation StatusFound :: nat where "StatusFound \<equiv> 302"
abbreviation StatusBadRequest :: nat where "StatusBadRequest \<equiv> 400"
abbreviation StatusUnauthorized :: nat where "StatusUnauthorized \<equiv> 401"
abbreviation StatusForbidden :: nat where "StatusForbidden \<equiv> 403"
abbreviation StatusInternalServerError :: nat where "StatusInternalServerError \<equiv> 500"
abbreviation StatusBadGateway :: nat where "StatusBadGateway \<equiv> 502"
abbreviation StatusServiceUnavailable :: nat where "StatusServiceUnavailable \<equiv> 503"

type_synonym form_values = "string \<Rightarrow> string"

record Cookie =
  CookieName :: string
  CookieValue :: string
  CookiePath :: string
  HttpOnly :: bool
  SameSiteLax :: bool
  Secure :: bool
  MaxAge :: int

end
