(* ===== verification/Middleware.thy ===== *)
theory Middleware
  imports Session CredStore Http
begin

text \<open>
  \<open>dashboard/auth/middleware.go\<close>: the two wrappers every dashboard route but the public ones goes
  through. A wrapper either answers the request itself (\<open>Refuse\<close>) or calls the next handler with
  a request context (\<open>Admit\<close>); the context holds at most one value, the user.
\<close>

type_synonym ctx = "User option"

datatype decision = Admit ctx | Refuse "unit response"

definition WithUser :: "ctx \<Rightarrow> User \<Rightarrow> ctx" where
  "WithUser c u = Some u"

definition UserFromContext :: "ctx \<Rightarrow> User" where
  "UserFromContext c = (case c of Some u \<Rightarrow> u | None \<Rightarrow> zero_User)"

definition isExempt :: "string \<Rightarrow> bool" where
  "isExempt path \<longleftrightarrow>
     HasPrefix path ''/dashboard/login'' \<or> HasPrefix path ''/dashboard/logout''
     \<or> HasPrefix path ''/dashboard/static/''"

definition redirectLogin :: "string \<Rightarrow> decision" where
  "redirectLogin path = Refuse (Redirect StatusFound (''/dashboard/login?next='' @ path))"

text \<open>
  The session machinery the wrapper closes over: the HMAC, the JSON decoder of the payload and
  the secret.
\<close>

record session_ctx =
  sc_hmac :: "bytes \<Rightarrow> bytes \<Rightarrow> bytes"
  sc_marshal :: "SessionPayload \<Rightarrow> bytes option"
  sc_unmarshal :: "bytes \<Rightarrow> SessionPayload option"
  sc_secret :: bytes

text \<open>\<open>cookie\<close> is the value of the \<open>comqtt_session\<close> cookie, \<open>None\<close> when the request has none.\<close>

definition RequireAuth ::
  "session_ctx \<Rightarrow> 's CredStore \<Rightarrow> int \<Rightarrow> int \<Rightarrow> 's \<Rightarrow> string \<Rightarrow> string option \<Rightarrow> ctx \<Rightarrow> decision" where
  "RequireAuth sc S expiryDays tm store path cookie c =
     (if isExempt path then Admit c
      else case cookie of
        None \<Rightarrow> redirectLogin path
      | Some v \<Rightarrow>
          (case Verify (sc_hmac sc) (sc_unmarshal sc) (Unix tm) (sc_secret sc) v of
             Inl _ \<Rightarrow> redirectLogin path
           | Inr payload \<Rightarrow>
               (case GetUser S (spUsername payload) store of
                  Inl _ \<Rightarrow> redirectLogin path
                | Inr u \<Rightarrow>
                    if MustChange u \<and> \<not> HasPrefix path ''/dashboard/account/password''
                    then Refuse (Redirect StatusFound ''/dashboard/account/password?reason=must_change'')
                    else if expiryDays > 0
                        \<and> wrap64 (Unix tm - PasswordSetAt u) > wrap64 (expiryDays * 86400)
                        \<and> \<not> HasPrefix path ''/dashboard/account/password''
                    then Refuse (Redirect StatusFound ''/dashboard/account/password?reason=expired'')
                    else Admit (WithUser c u))))"

definition RequireRole :: "Role \<Rightarrow> ctx \<Rightarrow> decision" where
  "RequireRole minrole c =
     (let u = UserFromContext c in
      if Role u = [] then Refuse (HttpError StatusUnauthorized ''unauthorized'')
      else if minrole = RoleAdmin \<and> Role u \<noteq> RoleAdmin
        then Refuse (HttpError StatusForbidden ''forbidden'')
      else Admit c)"

section \<open>Who gets through\<close>

text \<open>The password policy: the account may use \<open>path\<close> at the instant \<open>tm\<close>.\<close>

definition policy_allows :: "int \<Rightarrow> int \<Rightarrow> string \<Rightarrow> User \<Rightarrow> bool" where
  "policy_allows expiryDays tm path u \<longleftrightarrow>
     HasPrefix path ''/dashboard/account/password''
     \<or> \<not> MustChange u \<and> \<not> (expiryDays > 0
          \<and> wrap64 (Unix tm - PasswordSetAt u) > wrap64 (expiryDays * 86400))"

lemma RequireAuth_Admit:
  "RequireAuth sc S days tm store path cookie c = Admit c' \<longleftrightarrow>
     (if isExempt path then c' = c
      else \<exists>v p u. cookie = Some v
        \<and> Verify (sc_hmac sc) (sc_unmarshal sc) (Unix tm) (sc_secret sc) v = Inr p
        \<and> GetUser S (spUsername p) store = Inr u \<and> policy_allows days tm path u \<and> c' = Some u)"
  by (auto simp: RequireAuth_def redirectLogin_def policy_allows_def WithUser_def
      split: option.splits sum.splits if_splits)

lemma RequireRole_Admin_Admit:
  "RequireRole RoleAdmin c = Admit c' \<longleftrightarrow> c' = c \<and> (\<exists>u. c = Some u \<and> Role u = RoleAdmin)"
  by (auto simp: RequireRole_def UserFromContext_def Let_def zero_User_def RoleAdmin_def
      split: option.splits)

lemma isExempt_not_password:
  assumes "HasPrefix path ''/dashboard/account/password''"
  shows "\<not> isExempt path"
  using assms by (auto simp: HasPrefix_iff isExempt_def)

end
