(* ===== verification/LockoutModel.thy ===== *)
theory LockoutModel
  imports Prelude
begin

text \<open>
  The sliding-window login lockout, \<open>dashboard/auth/lockout.go\<close>. Instants and durations are
  nanoseconds; instants count from Go's zero \<open>time.Time\<close>, which is therefore \<open>0\<close>. Every
  operation of the source reads the clock once under the mutex: that reading is the argument
  \<open>now\<close>, and one operation is one atomic step.
\<close>

record LockoutConfig =
  Threshold :: int
  Window :: int
  Duration :: int

record lockoutState =
  failures :: "int list"
  lockedUntil :: int

record Lockout =
  lcfg :: LockoutConfig
  st :: "string \<rightharpoonup> lockoutState"

definition NewLockout :: "LockoutConfig \<Rightarrow> Lockout" where
  "NewLockout c = \<lparr>lcfg = c, st = Map.empty\<rparr>"

definition Record :: "int \<Rightarrow> string \<Rightarrow> Lockout \<Rightarrow> Lockout" where
  "Record now username l =
     (let s = (case st l username of None \<Rightarrow> \<lparr>failures = [], lockedUntil = 0\<rparr> | Some s \<Rightarrow> s);
          cutoff = now - Window (lcfg l);
          fs = filter (\<lambda>t. t > cutoff) (failures s) @ [now];
          s' = (if int (length fs) \<ge> Threshold (lcfg l)
                then s\<lparr>failures := [], lockedUntil := now + Duration (lcfg l)\<rparr>
                else s\<lparr>failures := fs\<rparr>)
      in l\<lparr>st := (st l)(username \<mapsto> s')\<rparr>)"

definition IsLocked :: "int \<Rightarrow> string \<Rightarrow> Lockout \<Rightarrow> bool \<times> int" where
  "IsLocked now username l =
     (case st l username of
        None \<Rightarrow> (False, 0)
      | Some s \<Rightarrow> if now < lockedUntil s then (True, lockedUntil s) else (False, 0))"

definition Reset :: "string \<Rightarrow> Lockout \<Rightarrow> Lockout" where
  "Reset username l = l\<lparr>st := (st l)(username := None)\<rparr>"

lemmas lockout_defs = Record_def Reset_def IsLocked_def NewLockout_def Let_def

section \<open>Histories of login attempts\<close>

text \<open>A failed attempt is recorded, a successful one resets; both at an instant.\<close>

datatype attempt = Fail int string | Success int string

fun instant :: "attempt \<Rightarrow> int" where
  "instant (Fail t u) = t"
| "instant (Success t u) = t"

fun apply_attempt :: "attempt \<Rightarrow> Lockout \<Rightarrow> Lockout" where
  "apply_attempt (Fail t u) l = Record t u l"
| "apply_attempt (Success t u) l = Reset u l"

text \<open>
  The reference: no pruning. It keeps every failure of a user since the last success or lock,
  and locks when those of the last \<open>Window\<close>, with the present one, reach the threshold.
\<close>

record ref_state =
  ref_failures :: "int list"
  ref_until :: int

fun ref_attempt :: "LockoutConfig \<Rightarrow> attempt \<Rightarrow> (string \<Rightarrow> ref_state) \<Rightarrow> (string \<Rightarrow> ref_state)" where
  "ref_attempt c (Fail t u) r =
     (let recent = filter (\<lambda>x. t - Window c < x) (ref_failures (r u))
      in r(u := if int (length recent) + 1 \<ge> Threshold c
                then \<lparr>ref_failures = [], ref_until = t + Duration c\<rparr>
                else (r u)\<lparr>ref_failures := ref_failures (r u) @ [t]\<rparr>))"
| "ref_attempt c (Success t u) r = r(u := \<lparr>ref_failures = [], ref_until = 0\<rparr>)"

definition ref_init :: "string \<Rightarrow> ref_state" where
  "ref_init u = \<lparr>ref_failures = [], ref_until = 0\<rparr>"

definition entry :: "Lockout \<Rightarrow> string \<Rightarrow> lockoutState" where
  "entry l u = (case st l u of None \<Rightarrow> \<lparr>failures = [], lockedUntil = 0\<rparr> | Some s \<Rightarrow> s)"

text \<open>
  The simulation relation at the instant \<open>t0\<close>: the two agree on the deadline, and on the
  failures that any later window can still contain.
\<close>

definition lockout_sim :: "int \<Rightarrow> Lockout \<Rightarrow> (string \<Rightarrow> ref_state) \<Rightarrow> bool" where
  "lockout_sim t0 l r \<longleftrightarrow>
     (\<forall>u. lockedUntil (entry l u) = ref_until (r u) \<and>
        (\<forall>cut \<ge> t0 - Window (lcfg l).
           filter (\<lambda>t. t > cut) (failures (entry l u)) = filter (\<lambda>t. t > cut) (ref_failures (r u))))"

lemma lcfg_apply [simp]: "lcfg (apply_attempt a l) = lcfg l"
  by (cases a) (simp_all add: lockout_defs)

lemma lcfg_Record [simp]: "lcfg (Record t u l) = lcfg l" and lcfg_Reset [simp]: "lcfg (Reset u l) = lcfg l"
  by (simp_all add: lockout_defs)

lemma lcfg_fold [simp]: "lcfg (fold apply_attempt as l) = lcfg l"
  by (induction "as" arbitrary: l) simp_all

lemma entry_Record:
  "entry (Record t u l) =
     (entry l)(u := let fs = filter (\<lambda>x. x > t - Window (lcfg l)) (failures (entry l u)) @ [t] in
        if int (length fs) \<ge> Threshold (lcfg l)
        then (entry l u)\<lparr>failures := [], lockedUntil := t + Duration (lcfg l)\<rparr>
        else (entry l u)\<lparr>failures := fs\<rparr>)"
  by (rule ext) (simp add: entry_def lockout_defs)

lemma entry_Reset: "entry (Reset u l) = (entry l)(u := \<lparr>failures = [], lockedUntil = 0\<rparr>)"
  by (rule ext) (simp add: entry_def lockout_defs)

lemma filter_filter_mono:
  "(c1::int) \<le> c2 \<Longrightarrow> filter (\<lambda>t. c1 < t \<and> c2 < t) xs = filter (\<lambda>t. t > c2) xs"
  by (induction xs) auto

lemma lockout_sim_step:
  assumes sim: "lockout_sim t0 l r" and le: "t0 \<le> instant a"
  shows "lockout_sim (instant a) (apply_attempt a l) (ref_attempt (lcfg l) a r)"
proof (cases a)
  case (Success t u)
  with assms show ?thesis by (auto simp: lockout_sim_def entry_Reset)
next
  case (Fail t u)
  let ?W = "Window (lcfg l)"
  have eq: "filter (\<lambda>x. x > cut) (failures (entry l v)) = filter (\<lambda>x. x > cut) (ref_failures (r v))"
    if "cut \<ge> t - ?W" for cut v
    using sim le that Fail by (simp add: lockout_sim_def)
  have keep: "filter (\<lambda>x. t - ?W < x \<and> cut < x) (ref_failures (r u))
      = filter (\<lambda>x. x > cut) (ref_failures (r u))" if "cut \<ge> t - ?W" for cut
    using that by (rule filter_filter_mono)
  have until: "lockedUntil (entry l v) = ref_until (r v)" for v
    using sim by (simp add: lockout_sim_def)
  show ?thesis
    using Fail eq [of "t - ?W" u]
    by (auto simp: lockout_sim_def entry_Record Let_def eq keep until)
qed

lemma lockout_sim_fold:
  assumes "lockout_sim t0 l r" "sorted (t0 # map instant as)"
  shows "\<exists>t1. lockout_sim t1 (fold apply_attempt as l) (fold (ref_attempt (lcfg l)) as r)"
  using assms
proof (induction "as" arbitrary: t0 l r)
  case (Cons a "as")
  have "lockout_sim (instant a) (apply_attempt a l) (ref_attempt (lcfg l) a r)"
    using Cons.prems by (intro lockout_sim_step [of t0]) auto
  from Cons.IH [OF this] Cons.prems show ?case by simp
qed auto

lemma IsLocked_entry:
  assumes "0 \<le> now"
  shows "IsLocked now u l =
    (if now < lockedUntil (entry l u) then (True, lockedUntil (entry l u)) else (False, 0))"
  using assms by (simp add: IsLocked_def entry_def split: option.splits)

text \<open>
  C24. Over any history of attempts with a clock that does not run backwards, the lockout with its
  pruned failure lists gives the same answers as the reference that never forgets a failure:
  an account is locked at \<open>now\<close> exactly when the reference's deadline for it lies in the future.
\<close>

theorem lockout_refines_reference:
  assumes "sorted (map instant as)" "0 \<le> now"
  shows "IsLocked now u (fold apply_attempt as (NewLockout c)) =
    (let d = ref_until (fold (ref_attempt c) as ref_init u)
     in if now < d then (True, d) else (False, 0))"
proof -
  define t0 where "t0 = (if as = [] then 0 else instant (hd as))"
  have "lockout_sim t0 (NewLockout c) ref_init"
    by (simp add: lockout_sim_def entry_def lockout_defs ref_init_def)
  moreover have "sorted (t0 # map instant as)"
    using assms(1) by (cases "as") (auto simp: t0_def)
  ultimately obtain t1 where
    "lockout_sim t1 (fold apply_attempt as (NewLockout c))
       (fold (ref_attempt (lcfg (NewLockout c))) as ref_init)"
    using lockout_sim_fold by blast
  moreover have "lcfg (NewLockout c) = c" by (simp add: NewLockout_def)
  ultimately show ?thesis
    using IsLocked_entry [OF assms(2)] by (simp add: lockout_sim_def Let_def)
qed

theorem lockout_refines_reference_witness:
  "IsLocked 40 ''bob''
      (fold apply_attempt [Fail 1 ''bob'', Fail 20 ''eve'', Fail 30 ''bob''] (NewLockout
         \<lparr>Threshold = 2, Window = 30, Duration = 100\<rparr>)) = (True, 130)"
  using lockout_refines_reference
    [of "[Fail 1 ''bob'', Fail 20 ''eve'', Fail 30 ''bob'']" 40 "''bob''"
        "\<lparr>Threshold = 2, Window = 30, Duration = 100\<rparr>"]
  by (simp add: ref_init_def Let_def)

section \<open>Bounds\<close>

definition lockout_wf :: "Lockout \<Rightarrow> bool" where
  "lockout_wf l \<longleftrightarrow>
     (\<forall>u s. st l u = Some s \<longrightarrow> int (length (failures s)) < Threshold (lcfg l))"

lemma lockout_wf_new: "lockout_wf (NewLockout c)"
  by (simp add: lockout_wf_def NewLockout_def)

lemma lockout_wf_step: "0 < Threshold (lcfg l) \<Longrightarrow> lockout_wf l \<Longrightarrow> lockout_wf (apply_attempt a l)"
  by (cases a) (auto simp: lockout_wf_def lockout_defs split: option.splits if_splits)

lemma lockout_wf_fold:
  "0 < Threshold (lcfg l) \<Longrightarrow> lockout_wf l \<Longrightarrow> lockout_wf (fold apply_attempt as l)"
  by (induction "as" arbitrary: l) (simp_all add: lockout_wf_step)

text \<open>
  A burst of failures: with a positive window, \<open>n\<close> failures of a user inside one window that
  have not yet reached the threshold are all remembered, and the failure that makes the count
  reach the threshold locks the account.
\<close>

lemma burst_below_threshold:
  assumes "sorted ts" "\<forall>t \<in> set ts. \<forall>t' \<in> set ts. t - t' < Window (lcfg l)"
    and "int (length ts) < Threshold (lcfg l)" "failures (entry l u) = []"
  shows "failures (entry (fold (\<lambda>t. Record t u) ts l) u) = ts
     \<and> lockedUntil (entry (fold (\<lambda>t. Record t u) ts l) u) = lockedUntil (entry l u)
     \<and> lcfg (fold (\<lambda>t. Record t u) ts l) = lcfg l"
  using assms
proof (induction ts rule: rev_induct)
  case (snoc t ts)
  then have IH: "failures (entry (fold (\<lambda>t. Record t u) ts l) u) = ts"
    "lockedUntil (entry (fold (\<lambda>t. Record t u) ts l) u) = lockedUntil (entry l u)"
    "lcfg (fold (\<lambda>t. Record t u) ts l) = lcfg l"
    by (auto simp: sorted_append)
  have "filter (\<lambda>x. x > t - Window (lcfg l)) ts = ts"
  proof (rule filter_True)
    show "\<forall>x \<in> set ts. x > t - Window (lcfg l)" using snoc.prems(2) by fastforce
  qed
  with IH snoc.prems(3) show ?case
    by (simp add: entry_Record Let_def)
qed simp

lemma burst_locks:
  assumes "sorted (ts @ [t])" "\<forall>x \<in> set (ts @ [t]). \<forall>y \<in> set (ts @ [t]). x - y < Window (lcfg l)"
    and "int (length ts) + 1 = Threshold (lcfg l)" "failures (entry l u) = []"
  shows "lockedUntil (entry (fold (\<lambda>t. Record t u) (ts @ [t]) l) u) = t + Duration (lcfg l)"
proof -
  have below: "failures (entry (fold (\<lambda>t. Record t u) ts l) u) = ts" "lcfg (fold (\<lambda>t. Record t u) ts l) = lcfg l"
    using burst_below_threshold [of ts l u] assms by (auto simp: sorted_append)
  have "filter (\<lambda>x. x > t - Window (lcfg l)) ts = ts"
  proof (rule filter_True)
    show "\<forall>x \<in> set ts. x > t - Window (lcfg l)" using assms(2) by fastforce
  qed
  with below assms(3) show ?thesis by (simp add: entry_Record Let_def)
qed

text \<open>
  From a state in which an account has no recorded failure, \<open>Threshold\<close> consecutive failures
  of it, all inside one window, lock it until \<open>Duration\<close> after the last of them, and any smaller
  number of them leaves its deadline untouched.
\<close>

theorem lockout_after_threshold:
  assumes "sorted (ts @ [t])" "\<forall>x \<in> set (ts @ [t]). \<forall>y \<in> set (ts @ [t]). x - y < Window (lcfg l)"
    and "int (length ts) + 1 = Threshold (lcfg l)" "failures (entry l u) = []" "0 \<le> now"
  shows "IsLocked now u (fold (\<lambda>t. Record t u) (ts @ [t]) l) =
      (if now < t + Duration (lcfg l) then (True, t + Duration (lcfg l)) else (False, 0))
    \<and> IsLocked now u (fold (\<lambda>t. Record t u) ts l) = IsLocked now u l"
proof -
  have "lockedUntil (entry (fold (\<lambda>t. Record t u) ts l) u) = lockedUntil (entry l u)"
    using burst_below_threshold [of ts l u] assms by (auto simp: sorted_append)
  with burst_locks [OF assms(1-4)] show ?thesis by (simp only: IsLocked_entry [OF assms(5)])
qed

theorem lockout_after_threshold_witness:
  "IsLocked 50 ''bob'' (fold (\<lambda>t. Record t ''bob'') ([1, 2] @ [3])
      (NewLockout \<lparr>Threshold = 3, Window = 10, Duration = 100\<rparr>)) = (True, 103)"
  using lockout_after_threshold
    [of "[1, 2]" 3 "NewLockout \<lparr>Threshold = 3, Window = 10, Duration = 100\<rparr>" "''bob''" 50]
  by (simp add: NewLockout_def entry_def)

end
