(* ===== verification/Account.thy ===== *)
theory Account
  imports Middleware LockoutModel
begin

text \<open>
  Login, logout and the personal account pages: \<open>dashboard/handlers/account.go\<close>. A handler is a
  function of the store's interface record, so it is the same for both stores. It reads the clock
  at one instant. \<open>url.Parse\<close> is the parameter \<open>parse\<close>: \<open>None\<close> for an error, otherwise the host,
  scheme and path. Error texts of wrapped errors are kept as the error itself.
\<close>

record url =
  url_Host :: string
  url_Scheme :: string
  url_Path :: string

datatype message =
    NoMsg
  | Msg string
  | LockedTill int \<comment> \<open>"Account temporarily locked. Try again at HH:MM."\<close>
  | MsgErr string auth_error \<comment> \<open>a prefix and \<open>err.Error()\<close>\<close>

record account_row =
  ar_Username :: string
  ar_Role :: string
  ar_PasswordSetAt :: "int option" \<comment> \<open>\<open>None\<close> renders as "never"\<close>
  ar_MustChange :: bool
  ar_Locked :: bool

datatype account_page =
    LoginPage string message \<comment> \<open>\<open>Next\<close>, \<open>Error\<close>\<close>
  | PasswordPage string message \<comment> \<open>\<open>Reason\<close>, \<open>Error\<close>\<close>
  | AccountPage User account_row

record AccountDeps =
  ad_session :: session_ctx
  SessionTTL :: int \<comment> \<open>nanoseconds\<close>
  ad_parse :: "string \<Rightarrow> url option"
  ad_nonce :: string \<comment> \<open>the value of \<open>NewCSRFToken()\<close>\<close>

definition ttl :: "AccountDeps \<Rightarrow> int" where
  "ttl d = (if SessionTTL d = 0 then 12 * 3600 * 1000000000 else SessionTTL d)"

definition sanitizeNext :: "(string \<Rightarrow> url option) \<Rightarrow> string \<Rightarrow> string" where
  "sanitizeNext parse raw =
     (if raw = [] then ''/dashboard/''
      else case parse raw of
        None \<Rightarrow> ''/dashboard/''
      | Some p \<Rightarrow>
          if url_Host p \<noteq> [] \<or> url_Scheme p \<noteq> [] then ''/dashboard/''
          else if \<not> HasPrefix (url_Path p) ''/dashboard/'' then ''/dashboard/''
          else url_Path p)"

definition LoginGet :: "AccountDeps \<Rightarrow> form_values \<Rightarrow> account_page response" where
  "LoginGet d query = Render StatusOK (LoginPage (sanitizeNext (ad_parse d) (query ''next'')) NoMsg)"

definition renderLoginError :: "string \<Rightarrow> message \<Rightarrow> account_page response" where
  "renderLoginError nxt msg = Render StatusUnauthorized (LoginPage nxt msg)"

text \<open>
  \<open>time.Duration.Seconds\<close> converted to \<open>int\<close> truncates towards zero.
\<close>

definition whole_seconds :: "int \<Rightarrow> int" where
  "whole_seconds t = sgn t * (\<bar>t\<bar> div 1000000000)"

definition session_cookie :: "string \<Rightarrow> bool \<Rightarrow> int \<Rightarrow> Cookie" where
  "session_cookie v tls age = \<lparr>CookieName = ''comqtt_session'', CookieValue = v, CookiePath = ''/'',
     HttpOnly = True, SameSiteLax = True, Secure = tls, MaxAge = age\<rparr>"

definition LoginPost ::
  "AccountDeps \<Rightarrow> 's CredStore \<Rightarrow> auth_env \<Rightarrow> bool \<Rightarrow> form_values \<Rightarrow> 's \<Rightarrow> Lockout
     \<Rightarrow> account_page response \<times> Cookie option \<times> Lockout" where
  "LoginPost d S e tls form store lock =
     (let username = TrimSpace (form ''username'');
          password = form ''password'';
          nxt = sanitizeNext (ad_parse d) (form ''next'')
      in case IsLocked (clock e) username lock of
           (True, until) \<Rightarrow> (renderLoginError nxt (LockedTill until), None, lock)
         | (False, _) \<Rightarrow>
             (case Authenticate S e username password store of
                Inl ErrLocked \<Rightarrow> (renderLoginError nxt (Msg ''Account locked.''), None, lock)
              | Inl _ \<Rightarrow>
                  (renderLoginError nxt (Msg ''Invalid credentials.''), None,
                   Record (clock e) username lock)
              | Inr u \<Rightarrow>
                  let lock' = Reset username lock;
                      payload = \<lparr>spUsername = Username u, spRole = Role u,
                        Exp = Unix (clock e + ttl d), Nonce = ad_nonce d\<rparr>
                  in case Sign (sc_hmac (ad_session d)) (sc_marshal (ad_session d))
                            (sc_secret (ad_session d)) payload of
                       Inl _ \<Rightarrow> (HttpError StatusInternalServerError ''session: '', None, lock')
                     | Inr cookie \<Rightarrow>
                         (Redirect StatusFound nxt,
                          Some (session_cookie cookie tls (whole_seconds (ttl d))), lock')))"

definition LogoutPost :: "bool \<Rightarrow> account_page response \<times> Cookie option" where
  "LogoutPost tls = (Redirect StatusFound ''/dashboard/login'', Some (session_cookie [] tls (- 1)))"

definition minPasswordLen :: nat where
  "minPasswordLen = 8"

definition ChangePasswordGet :: "form_values \<Rightarrow> account_page response" where
  "ChangePasswordGet query = Render StatusOK (PasswordPage (query ''reason'') NoMsg)"

definition ChangePasswordPost ::
  "'s CredStore \<Rightarrow> auth_env \<Rightarrow> ctx \<Rightarrow> form_values \<Rightarrow> form_values \<Rightarrow> 's
     \<Rightarrow> account_page response \<times> 's" where
  "ChangePasswordPost S e c query form store =
     (let current = form ''current''; nxt = form ''new''; confirm = form ''confirm'';
          reason = query ''reason'';
          u = UserFromContext c
      in if Username u = [] then (HttpError StatusUnauthorized ''unauthorized'', store)
         else if nxt \<noteq> confirm then
           (Render StatusBadRequest
              (PasswordPage reason (Msg ''New password and confirmation do not match.'')), store)
         else if length nxt < minPasswordLen then
           (Render StatusBadRequest
              (PasswordPage reason (Msg ''Password must be at least 8 characters.'')), store)
         else case Authenticate S e (Username u) current store of
           Inl _ \<Rightarrow>
             (Render StatusUnauthorized
                (PasswordPage reason (Msg ''Current password is incorrect.'')), store)
         | Inr _ \<Rightarrow>
             (case SetPassword S e (Username u) nxt store of
                (Inl err, store') \<Rightarrow>
                  (Render StatusInternalServerError
                     (PasswordPage reason (MsgErr ''Failed to update password: '' err)), store')
              | (Inr _, store') \<Rightarrow> (Redirect StatusFound ''/dashboard/'', store')))"

definition AccountGet ::
  "'s CredStore \<Rightarrow> auth_env \<Rightarrow> ctx \<Rightarrow> 's \<Rightarrow> account_page response" where
  "AccountGet S e c store =
     (let u = UserFromContext c in
      if Username u = [] then HttpError StatusUnauthorized ''unauthorized''
      else case GetUser S (Username u) store of
        Inl _ \<Rightarrow> HttpError StatusInternalServerError ''user lookup: ''
      | Inr stored \<Rightarrow>
          Render StatusOK (AccountPage u
            \<lparr>ar_Username = Username stored, ar_Role = Role stored,
              ar_PasswordSetAt =
                (if PasswordSetAt stored > 0 then Some (PasswordSetAt stored) else None),
              ar_MustChange = MustChange stored,
              ar_Locked = LockedUntil stored > Unix (clock e)\<rparr>))"

section \<open>Properties\<close>


lemma LoginPost_locked:
  assumes "fst (IsLocked (clock e) (TrimSpace (form ''username'')) lock)"
  shows "\<exists>nxt until. LoginPost d S e tls form store lock =
     (Render StatusUnauthorized (LoginPage nxt (LockedTill until)), None, lock)"
  using assms
  by (cases "IsLocked (clock e) (TrimSpace (form ''username'')) lock")
    (auto simp: LoginPost_def renderLoginError_def Let_def)

lemma LoginPost_failed:
  assumes "\<not> fst (IsLocked (clock e) (TrimSpace (form ''username'')) lock)"
    and "Authenticate S e (TrimSpace (form ''username'')) (form ''password'') store = Inl err"
    and "err \<noteq> ErrLocked"
  shows "snd (snd (LoginPost d S e tls form store lock)) =
      Record (clock e) (TrimSpace (form ''username'')) lock
    \<and> fst (snd (LoginPost d S e tls form store lock)) = None"
  using assms
  by (cases "IsLocked (clock e) (TrimSpace (form ''username'')) lock")
    (auto simp: LoginPost_def Let_def split: auth_error.splits)

lemma LoginPost_cookie:
  "fst (snd (LoginPost d S e tls form store lock)) = Some ck \<longleftrightarrow>
     \<not> fst (IsLocked (clock e) (TrimSpace (form ''username'')) lock) \<and>
     (\<exists>u cookie. Authenticate S e (TrimSpace (form ''username'')) (form ''password'') store = Inr u
        \<and> Sign (sc_hmac (ad_session d)) (sc_marshal (ad_session d)) (sc_secret (ad_session d))
            \<lparr>spUsername = Username u, spRole = Role u, Exp = Unix (clock e + ttl d),
              Nonce = ad_nonce d\<rparr> = Inr cookie
        \<and> ck = session_cookie cookie tls (whole_seconds (ttl d)))"
  by (cases "IsLocked (clock e) (TrimSpace (form ''username'')) lock")
    (auto simp: LoginPost_def Let_def split: sum.splits auth_error.splits bool.splits)

text \<open>
  \<open>n\<close> failing login requests for one account, given by their environments and forms, one after
  the other on the same lockout.
\<close>

fun login_run ::
  "AccountDeps \<Rightarrow> 's CredStore \<Rightarrow> bool \<Rightarrow> 's \<Rightarrow> (auth_env \<times> form_values) list \<Rightarrow> Lockout \<Rightarrow> Lockout" where
  "login_run d S tls store [] lock = lock"
| "login_run d S tls store ((e, form) # rs) lock =
     login_run d S tls store rs (snd (snd (LoginPost d S e tls form store lock)))"

definition wrong_login :: "'s CredStore \<Rightarrow> 's \<Rightarrow> string \<Rightarrow> auth_env \<times> form_values \<Rightarrow> bool" where
  "wrong_login S store n r \<longleftrightarrow>
     TrimSpace (snd r ''username'') = n
     \<and> (\<exists>err. Authenticate S (fst r) n (snd r ''password'') store = Inl err \<and> err \<noteq> ErrLocked)"

lemma login_run_snoc:
  "login_run d S tls store (rs @ [(e, form)]) lock =
     snd (snd (LoginPost d S e tls form store (login_run d S tls store rs lock)))"
  by (induction rs arbitrary: lock) auto

lemma login_run_records:
  assumes "sorted (map (\<lambda>r. clock (fst r)) rs)" "\<forall>r \<in> set rs. wrong_login S store n r"
    and "\<forall>r \<in> set rs. \<forall>r' \<in> set rs. clock (fst r) - clock (fst r') < Window (lcfg lock)"
    and "int (length rs) \<le> Threshold (lcfg lock)"
    and "failures (entry lock n) = []" "\<forall>r \<in> set rs. lockedUntil (entry lock n) \<le> clock (fst r)"
    and "\<forall>r \<in> set rs. 0 \<le> clock (fst r)"
  shows "login_run d S tls store rs lock = fold (\<lambda>t. Record t n) (map (\<lambda>r. clock (fst r)) rs) lock"
  using assms
proof (induction rs rule: rev_induct)
  case (snoc r rs)
  obtain e form where r: "r = (e, form)" by force
  have IH: "login_run d S tls store rs lock = fold (\<lambda>t. Record t n) (map (\<lambda>r. clock (fst r)) rs) lock"
    using snoc by (auto simp: sorted_append)
  have "lockedUntil (entry (fold (\<lambda>t. Record t n) (map (\<lambda>r. clock (fst r)) rs) lock) n)
      = lockedUntil (entry lock n)"
    using burst_below_threshold [of "map (\<lambda>r. clock (fst r)) rs" lock n] snoc.prems
    by (auto simp: sorted_append)
  then have "\<not> fst (IsLocked (clock e) n (login_run d S tls store rs lock))"
    using snoc.prems(6,7) r IH by (auto simp: IsLocked_entry)
  moreover obtain err where "Authenticate S e n (form ''password'') store = Inl err" "err \<noteq> ErrLocked"
    and "TrimSpace (form ''username'') = n"
    using snoc.prems(2) r by (auto simp: wrong_login_def)
  ultimately show ?case
    using LoginPost_failed [of e form "login_run d S tls store rs lock" S store err d tls] r IH
    by (simp add: login_run_snoc)
qed simp

end
