(* ===== verification/Users.thy ===== *)
theory Users
  imports Account FileStore
begin

text \<open>
  The account administration pages, \<open>dashboard/handlers/users.go\<close>, over any credential store, and
  the guarantee they give together: the dashboard always keeps an administrator. The routes of
  these handlers sit behind \<open>RequireRole(RoleAdmin)\<close>.
\<close>

text \<open>
  The page data: the rows and the message. The other fields of \<open>usersPageData\<close> (title, signed-in
  user, a fresh CSRF token, two navigation flags, a flash text that is always empty) are the same
  for every outcome.
\<close>

record userRow =
  ur_Username :: string
  ur_Role :: string
  ur_MustChange :: bool
  ur_Locked :: bool

record usersPageData =
  up_Error :: message
  up_Items :: "userRow list"

definition renderUsersPage ::
  "'s CredStore \<Rightarrow> auth_env \<Rightarrow> 's \<Rightarrow> message \<Rightarrow> usersPageData response" where
  "renderUsersPage S e store errMsg =
     (case ListUsers S store of
        Inl _ \<Rightarrow> HttpError StatusInternalServerError ''list users: ''
      | Inr users \<Rightarrow>
          Render StatusOK \<lparr>up_Error = errMsg,
            up_Items = map (\<lambda>u. \<lparr>ur_Username = Username u, ur_Role = Role u,
              ur_MustChange = MustChange u, ur_Locked = LockedUntil u > Unix (clock e)\<rparr>) users\<rparr>)"

definition UsersList :: "'s CredStore \<Rightarrow> auth_env \<Rightarrow> 's \<Rightarrow> usersPageData response" where
  "UsersList S e store = renderUsersPage S e store NoMsg"

definition UsersCreate ::
  "'s CredStore \<Rightarrow> auth_env \<Rightarrow> form_values \<Rightarrow> 's \<Rightarrow> usersPageData response \<times> 's" where
  "UsersCreate S e form store =
     (let username = TrimSpace (form ''username''); password = form ''password'';
          role = form ''role''
      in if username = [] \<or> length password < minPasswordLen \<or> \<not> role_Valid role
         then (renderUsersPage S e store
                 (Msg ''Invalid input. Username required, password 8+ chars, role admin or viewer.''),
               store)
         else case CreateUser S e username password role store of
           (Inl ErrUserExists, store') \<Rightarrow>
             (renderUsersPage S e store' (Msg ''User already exists.''), store')
         | (Inl err, store') \<Rightarrow>
             (renderUsersPage S e store' (MsgErr ''Failed to create user: '' err), store')
         | (Inr _, store') \<Rightarrow> (Redirect StatusFound ''/dashboard/users'', store'))"

definition UsersDelete ::
  "'s CredStore \<Rightarrow> auth_env \<Rightarrow> string \<Rightarrow> 's \<Rightarrow> usersPageData response \<times> 's" where
  "UsersDelete S e username store =
     (if username = [] then (HttpError StatusBadRequest ''username required'', store)
      else case DeleteUser S username store of
        (Inl ErrCannotDeleteLastAdmin, store') \<Rightarrow>
          (renderUsersPage S e store' (Msg ''Cannot delete the last admin.''), store')
      | (Inl ErrUserNotFound, store') \<Rightarrow> (NotFound, store')
      | (Inl err, store') \<Rightarrow>
          (renderUsersPage S e store' (MsgErr ''Failed to delete: '' err), store')
      | (Inr _, store') \<Rightarrow> (Redirect StatusFound ''/dashboard/users'', store'))"

text \<open>The loop of \<open>UsersToggleRole\<close>: the account found so far and the number of administrators.\<close>

fun toggle_scan :: "string \<Rightarrow> User list \<Rightarrow> User \<times> nat \<Rightarrow> User \<times> nat" where
  "toggle_scan username [] acc = acc"
| "toggle_scan username (u # us) (current, adm) =
     toggle_scan username us
       (if Username u = username then u else current,
        if Role u = RoleAdmin then Suc adm else adm)"

datatype toggle_plan = ToggleNotFound | ToggleLastAdmin | ToggleTo Role

definition toggle_decide :: "string \<Rightarrow> User list \<Rightarrow> toggle_plan" where
  "toggle_decide username users =
     (case toggle_scan username users (zero_User, 0) of (current, adm) \<Rightarrow>
        if Username current = [] then ToggleNotFound
        else if Role current = RoleAdmin
          then if adm = 1 then ToggleLastAdmin else ToggleTo RoleViewer
          else ToggleTo RoleAdmin)"

definition UsersToggleRole ::
  "'s CredStore \<Rightarrow> auth_env \<Rightarrow> string \<Rightarrow> 's \<Rightarrow> usersPageData response \<times> 's" where
  "UsersToggleRole S e username store =
     (if username = [] then (HttpError StatusBadRequest ''username required'', store)
      else case ListUsers S store of
        Inl err \<Rightarrow> (renderUsersPage S e store (MsgErr ''Failed to load users: '' err), store)
      | Inr users \<Rightarrow>
          (case toggle_decide username users of
             ToggleNotFound \<Rightarrow> (NotFound, store)
           | ToggleLastAdmin \<Rightarrow>
               (renderUsersPage S e store (Msg ''Cannot demote the last admin.''), store)
           | ToggleTo newRole \<Rightarrow>
               (case SetRole S username newRole store of
                  (Inl err, store') \<Rightarrow>
                    (renderUsersPage S e store' (MsgErr ''Failed to toggle role: '' err), store')
                | (Inr _, store') \<Rightarrow> (Redirect StatusFound ''/dashboard/users'', store'))))"

section \<open>What the toggle decides\<close>

lemma toggle_scan_admins:
  "snd (toggle_scan n us (c, k)) = k + length (filter (\<lambda>u. Role u = RoleAdmin) us)"
  by (induction us arbitrary: c k) auto

lemma toggle_scan_current:
  assumes "distinct (map Username us)"
  shows "fst (toggle_scan n us (c, k)) = (case user_map us n of None \<Rightarrow> c | Some u \<Rightarrow> u)"
  using assms
proof (induction us arbitrary: c k)
  case (Cons u us)
  then show ?case
    by (auto simp: user_map_None [symmetric] split: option.splits)
qed simp

lemma toggle_decide_eq:
  assumes "distinct (map Username us)" "n \<noteq> []"
  shows "toggle_decide n us =
    (case user_map us n of
       None \<Rightarrow> ToggleNotFound
     | Some u \<Rightarrow>
         if Role u = RoleAdmin
         then if length (filter (\<lambda>u. Role u = RoleAdmin) us) = 1 then ToggleLastAdmin
              else ToggleTo RoleViewer
         else ToggleTo RoleAdmin)"
proof -
  obtain c k where ck: "toggle_scan n us (zero_User, 0) = (c, k)" by force
  have "k = length (filter (\<lambda>u. Role u = RoleAdmin) us)"
    using toggle_scan_admins [of n us zero_User 0] ck by simp
  moreover have "c = (case user_map us n of None \<Rightarrow> zero_User | Some u \<Rightarrow> u)"
    using toggle_scan_current [OF assms(1), of n zero_User 0] ck by simp
  ultimately show ?thesis
    using assms(2) user_map_Username [of us n]
    by (auto simp: toggle_decide_def ck split: option.splits)
qed

section \<open>The last administrator stays\<close>

text \<open>
  One request that changes accounts, handled to its end: the three administration handlers and
  the password change of a signed-in user.
\<close>

inductive account_step :: "'s CredStore \<Rightarrow> 's \<Rightarrow> 's \<Rightarrow> bool" for S where
  create: "account_step S s (snd (UsersCreate S e form s))"
| delete: "account_step S s (snd (UsersDelete S e n s))"
| toggle: "account_step S s (snd (UsersToggleRole S e n s))"
| password: "account_step S s (snd (ChangePasswordPost S e c query form s))"

inductive account_run :: "'s CredStore \<Rightarrow> 's \<Rightarrow> 's \<Rightarrow> bool" for S where
  refl: "account_run S s s"
| step: "account_run S s t \<Longrightarrow> account_step S t t' \<Longrightarrow> account_run S s t'"

context reliable_cred_store
begin

lemma UsersCreate_effect:
  assumes "inv s"
  shows "snd (UsersCreate S e form s) = s \<or>
    (\<exists>r. CreateUser S e (TrimSpace (form ''username'')) (form ''password'') r s
       = (Inr (), snd (UsersCreate S e form s)))"
proof (cases "CreateUser S e (TrimSpace (form ''username'')) (form ''password'') (form ''role'') s")
  case (Pair res s')
  then show ?thesis
    using CreateUser_Inl [OF assms]
    by (cases res) (auto simp: UsersCreate_def Let_def split: auth_error.splits)
qed

lemma UsersDelete_effect:
  assumes "inv s"
  shows "snd (UsersDelete S e n s) = s \<or> DeleteUser S n s = (Inr (), snd (UsersDelete S e n s))"
proof (cases "DeleteUser S n s")
  case (Pair res s')
  then show ?thesis
    using DeleteUser_Inl [OF assms]
    by (cases res) (auto simp: UsersDelete_def split: auth_error.splits)
qed

lemma ChangePasswordPost_effect:
  assumes "inv s"
  shows "snd (ChangePasswordPost S e c query form s) = s \<or>
    SetPassword S e (Username (UserFromContext c)) (form ''new'') s
      = (Inr (), snd (ChangePasswordPost S e c query form s))"
proof (cases "SetPassword S e (Username (UserFromContext c)) (form ''new'') s")
  case (Pair res s')
  then show ?thesis
    using SetPassword_Inl [OF assms]
    by (cases res) (auto simp: ChangePasswordPost_def Let_def split: sum.splits)
qed

lemma UsersToggleRole_effect:
  assumes "inv s"
  shows "snd (UsersToggleRole S e n s) = s \<or>
    (\<exists>us r. n \<noteq> [] \<and> ListUsers S s = Inr us \<and> toggle_decide n us = ToggleTo r
       \<and> SetRole S n r s = (Inr (), snd (UsersToggleRole S e n s)))"
proof (cases "n = [] \<or> (\<exists>err. ListUsers S s = Inl err)")
  case True
  then show ?thesis by (auto simp: UsersToggleRole_def)
next
  case False
  then obtain us where us: "n \<noteq> []" "ListUsers S s = Inr us" by (cases "ListUsers S s") auto
  show ?thesis
  proof (cases "toggle_decide n us")
    case (ToggleTo r)
    obtain res s' where "SetRole S n r s = (res, s')" by force
    with us ToggleTo SetRole_Inl [OF assms] show ?thesis
      by (cases res) (auto simp: UsersToggleRole_def)
  qed (use us in \<open>auto simp: UsersToggleRole_def\<close>)
qed

lemma user_map_of_ListUsers:
  assumes "inv s" "ListUsers S s = Inr us"
  shows "user_map us = view s"
proof
  fix n
  have d: "distinct (map Username us)" and r: "set us = ran (view s)"
    using ListUsers_Inr [OF assms] by auto
  show "user_map us n = view s n"
  proof (cases "view s n")
    case None
    have "user_map us n = None"
    proof (rule ccontr)
      assume "user_map us n \<noteq> None"
      then obtain u where "u \<in> ran (view s)" "Username u = n"
        using user_map_Username r by fastforce
      then show False using None view_Username [OF assms(1)] by (auto simp: ran_def)
    qed
    with None show ?thesis by simp
  next
    case (Some u)
    then have "u \<in> set us" "Username u = n"
      using r view_Username [OF assms(1)] by (auto simp: ran_def)
    with Some show ?thesis by (simp add: user_map_iff [OF d])
  qed
qed

lemma toggle_keeps_admin:
  assumes "inv s" "ListUsers S s = Inr us" "n \<noteq> []" "toggle_decide n us = ToggleTo r"
    and "SetRole S n r s = (Inr (), s')" "admins (view s) \<noteq> {}"
  shows "admins (view s') \<noteq> {}"
proof -
  obtain u where u: "view s n = Some u" "view s' = (view s)(n \<mapsto> u\<lparr>Role := r\<rparr>)"
    using SetRole_Inr [OF assms(1,5)] by blast
  have d: "distinct (map Username us)" using ListUsers_Inr [OF assms(1,2)] by simp
  show ?thesis
  proof (cases "Role u = RoleAdmin")
    case False
    then have "r = RoleAdmin"
      using assms(4) u(1) toggle_decide_eq [OF d assms(3)] user_map_of_ListUsers [OF assms(1,2)]
      by simp
    then show ?thesis using u(2) by simp
  next
    case True
    then have ne1: "length (filter (\<lambda>u. Role u = RoleAdmin) us) \<noteq> 1"
      using assms(4) u(1) toggle_decide_eq [OF d assms(3)] user_map_of_ListUsers [OF assms(1,2)]
      by (auto split: if_splits)
    have "card (admins (view s)) \<noteq> 1"
      using ListUsers_admins [OF assms(1,2)] ne1 by metis
    then have "admins (view s) \<noteq> {n}" by (metis is_singletonI is_singleton_altdef)
    moreover have "n \<in> admins (view s)" using True u(1) by (simp add: admins_def)
    ultimately have "admins (view s) - {n} \<noteq> {}" by blast
    then show ?thesis using u(2) by auto
  qed
qed

lemma CreateUser_keeps_admin:
  assumes "inv s" "CreateUser S e n pw r s = (Inr (), s')" "admins (view s) \<noteq> {}"
  shows "inv s' \<and> admins (view s') \<noteq> {}"
proof -
  obtain h where "inv s'" and n: "view s n = None"
    and v: "view s' = (view s)(n \<mapsto> new_user n h r (Unix (clock e)))"
    using CreateUser_Inr [OF assms(1,2)] by blast
  have "n \<notin> admins (view s)" using n by (simp add: admins_def)
  then have "admins (view s) \<subseteq> admins (view s')" unfolding v by (simp, blast)
  with assms(3) \<open>inv s'\<close> show ?thesis by blast
qed

lemma SetPassword_keeps_admin:
  assumes "inv s" "SetPassword S e n pw s = (Inr (), s')" "admins (view s) \<noteq> {}"
  shows "inv s' \<and> admins (view s') \<noteq> {}"
proof -
  obtain u h where "inv s'" and n: "view s n = Some u"
    and v: "view s' = (view s)(n \<mapsto> set_password h (Unix (clock e)) u)"
    using SetPassword_Inr [OF assms(1,2)] by blast
  have "admins (view s') = admins (view s)"
    unfolding v using n by (auto simp: admins_def set_password_def)
  with assms(3) \<open>inv s'\<close> show ?thesis by metis
qed

lemma account_step_keeps_admin:
  assumes "account_step S s s'" "inv s" "admins (view s) \<noteq> {}"
  shows "inv s' \<and> admins (view s') \<noteq> {}"
  using assms(1)
proof cases
  case (create e form)
  then show ?thesis
    using UsersCreate_effect [OF assms(2), of e form] CreateUser_keeps_admin [OF assms(2) _ assms(3)]
      assms(2,3) by metis
next
  case (delete e n)
  then show ?thesis
    using UsersDelete_effect [OF assms(2), of e n] DeleteUser_Inr [OF assms(2)] assms(2,3)
      DeleteUser_keeps_admin [OF assms(2)] by metis
next
  case (toggle e n)
  then show ?thesis
    using UsersToggleRole_effect [OF assms(2), of e n] SetRole_Inr [OF assms(2)] assms(2,3)
      toggle_keeps_admin [OF assms(2)] by metis
next
  case (password e c query form)
  then show ?thesis
    using ChangePasswordPost_effect [OF assms(2), of e c query form]
      SetPassword_keeps_admin [OF assms(2) _ assms(3)] assms(2,3) by metis
qed

lemma account_run_keeps_admin:
  assumes "account_run S s s'" "inv s" "admins (view s) \<noteq> {}"
  shows "inv s' \<and> admins (view s') \<noteq> {}"
  using assms by (induction rule: account_run.induct) (auto dest: account_step_keeps_admin)

end

text \<open>What an account looks like once it went through the dashboard.\<close>

definition well_typed :: "user_view \<Rightarrow> bool" where
  "well_typed v \<longleftrightarrow> (\<forall>n u. v n = Some u \<longrightarrow> n \<noteq> [] \<and> TrimSpace n = n \<and> role_Valid (Role u))"

lemma well_typedD: "well_typed v \<Longrightarrow> v n = Some u \<Longrightarrow> n \<noteq> [] \<and> TrimSpace n = n \<and> role_Valid (Role u)"
  by (simp add: well_typed_def)

lemma well_typed_upd:
  "well_typed v \<Longrightarrow> n \<noteq> [] \<Longrightarrow> TrimSpace n = n \<Longrightarrow> role_Valid (Role u) \<Longrightarrow> well_typed (v(n \<mapsto> u))"
  "well_typed v \<Longrightarrow> well_typed (v(n := None))"
  by (auto simp: well_typed_def)

context reliable_cred_store
begin

lemma UsersCreate_well_typed:
  assumes "inv s" "well_typed (view s)"
  shows "inv (snd (UsersCreate S e form s)) \<and> well_typed (view (snd (UsersCreate S e form s)))"
proof (cases "snd (UsersCreate S e form s) = s")
  case False
  let ?n = "TrimSpace (form ''username'')"
  have v: "?n \<noteq> []" "role_Valid (form ''role'')"
    using False by (auto simp: UsersCreate_def Let_def split: if_splits)
  have "CreateUser S e ?n (form ''password'') (form ''role'') s = (Inr (), snd (UsersCreate S e form s))"
  proof (cases "CreateUser S e ?n (form ''password'') (form ''role'') s")
    case (Pair res s')
    then show ?thesis
      using False CreateUser_Inl [OF assms(1)]
      by (cases res) (auto simp: UsersCreate_def Let_def split: auth_error.splits if_splits)
  qed
  from CreateUser_Inr [OF assms(1) this] v assms(2) show ?thesis
    by (auto intro!: well_typed_upd simp: new_user_def TrimSpace_idem)
qed (use assms in simp)

lemma account_step_well_typed:
  assumes "account_step S s s'" "inv s" "well_typed (view s)"
  shows "inv s' \<and> well_typed (view s')"
  using assms(1)
proof cases
  case (create e form)
  then show ?thesis using UsersCreate_well_typed [OF assms(2,3)] by simp
next
  case (delete e n)
  then show ?thesis
    using UsersDelete_effect [OF assms(2), of e n] DeleteUser_Inr [OF assms(2)] assms(2,3) well_typed_upd(2) by metis
next
  case (toggle e n)
  show ?thesis
  proof (cases "s' = s")
    case False
    then obtain r where "SetRole S n r s = (Inr (), s')" using UsersToggleRole_effect [OF assms(2), of e n] toggle by auto
    then obtain u where u: "inv s'" "role_Valid r" "view s n = Some u" "view s' = (view s)(n \<mapsto> u\<lparr>Role := r\<rparr>)"
      using SetRole_Inr [OF assms(2)] by blast
    then show ?thesis using well_typedD [OF assms(3) u(3)] by (simp add: well_typed_upd(1) [OF assms(3)])
  qed (use assms in simp)
next
  case (password e c query form)
  show ?thesis
  proof (cases "s' = s")
    case False
    then have "SetPassword S e (Username (UserFromContext c)) (form ''new'') s = (Inr (), s')"
      using ChangePasswordPost_effect [OF assms(2), of e c query form] password by auto
    then obtain u h where u: "inv s'" "view s (Username (UserFromContext c)) = Some u"
      "view s' = (view s)(Username (UserFromContext c) \<mapsto> set_password h (Unix (clock e)) u)"
      using SetPassword_Inr [OF assms(2)] by blast
    then show ?thesis
      using well_typedD [OF assms(3) u(2)] by (simp add: well_typed_upd(1) [OF assms(3)] set_password_def)
  qed (use assms in simp)
qed

lemma account_run_well_typed:
  assumes "account_run S s s'" "inv s" "well_typed (view s)"
  shows "inv s' \<and> well_typed (view s')"
  using assms by (induction rule: account_run.induct) (auto dest: account_step_well_typed)

end

text \<open>
  Two administrators, one at each end of a toggle: the request for \<open>a\<close> and the request for \<open>b\<close>
  both read the account list before either writes. The store's mutex is taken once per method, so
  this interleaving of the two handlers is possible.
\<close>

definition toggle_race :: "string \<Rightarrow> string \<Rightarrow> FileStore \<Rightarrow> FileStore" where
  "toggle_race a b s =
     (case (fs_ListUsers s, fs_ListUsers s) of
        (Inr us, Inr us') \<Rightarrow>
          (case (toggle_decide a us, toggle_decide b us') of
             (ToggleTo r, ToggleTo r') \<Rightarrow> snd (fs_SetRole b r' (snd (fs_SetRole a r s)))
           | _ \<Rightarrow> s)
      | _ \<Rightarrow> s)"

lemma fs_SetRole_ok:
  assumes "fs_ok s" "fs_view s n = Some u" "role_Valid r"
  obtains s' where "fs_SetRole n r s = (Inr (), s')" "fs_ok s'"
    "fs_view s' = (fs_view s)(n \<mapsto> u\<lparr>Role := r\<rparr>)"
proof -
  obtain us where us: "fs_file s = UsersDoc us" "user_map us n = Some u"
    using assms(2) by (auto simp: fs_view_def split: file_doc.splits)
  have "update_first n (\<lambda>u. u\<lparr>Role := r\<rparr>) us \<noteq> None"
    using us(2) unfolding update_first_None by (metis image_eqI user_map_Username)
  then obtain us' where "update_first n (\<lambda>u. u\<lparr>Role := r\<rparr>) us = Some us'" by blast
  then have "fs_SetRole n r s = (Inr (), s\<lparr>fs_file := UsersDoc us'\<rparr>)"
    using assms us(1) by (simp add: fs_SetRole_def fs_mutate_def fs_load_def fs_save_def fs_ok_def)
  with that fsok.SetRole_Inr [OF assms(1), unfolded fs_opsD, OF this] assms(2) show ?thesis by auto
qed

lemma toggle_decide_two_admins:
  assumes "distinct (map Username us)" "admins (user_map us) = {a, b}" "a \<noteq> b" "n \<in> {a, b}"
    and "n \<noteq> []"
  shows "toggle_decide n us = ToggleTo RoleViewer"
proof -
  have "n \<in> admins (user_map us)" using assms(2,4) by simp
  then obtain u where u: "user_map us n = Some u" "Role u = RoleAdmin" by (auto simp: admins_def)
  then have "u \<in> set us" "Username u = n" using user_map_Username by blast+
  then have "length (filter (\<lambda>u. Role u = RoleAdmin) us) \<noteq> 1"
    unfolding length_filter_1_iff_admin [OF assms(1) \<open>u \<in> set us\<close> u(2)] assms(2) using assms(3)
    by (simp add: set_eq_iff, metis)
  then show ?thesis using u by (simp only: toggle_decide_eq [OF assms(1,5)] option.case if_True if_False simp_thms)
qed

section \<open>Properties\<close>


text \<open>A file with the given accounts.\<close>

definition demo_store :: "(string \<times> Role) list \<Rightarrow> FileStore" where
  "demo_store xs = \<lparr>fs_path = ''users.json'',
     fs_file = UsersDoc (map (\<lambda>(n, r). new_user n ''hash'' r 0) xs), fs_write = WriteOk\<rparr>"

lemma demo_store_view:
  "distinct (map fst xs) \<Longrightarrow> fs_ok (demo_store xs)"
  "fs_view (demo_store xs) = user_map (map (\<lambda>(n, r). new_user n ''hash'' r 0) xs)"
  by (simp_all add: demo_store_def fs_ok_def fs_inv_def fs_view_def new_user_def o_def
      case_prod_unfold)


text \<open>
  C22. Accounts stay well-typed: over any store that meets its contract, no sequence of account requests,
  whatever the forms hold, produces an account with another role than admin and viewer, or with a name
  that is empty or has spaces around it; so every stored role is one the guards know, and every
  stored name is one the login form can produce.
\<close>

theorem accounts_well_typed:
  assumes "reliable_cred_store S view ok" "account_run S s s'" "ok s" "well_typed (view s)"
  shows "well_typed (view s') \<and> (\<forall>n u. view s' n = Some u \<longrightarrow> Username u = n \<and> Role u \<in> {RoleAdmin, RoleViewer})"
proof -
  have r: "ok s'" "well_typed (view s')"
    using reliable_cred_store.account_run_well_typed [OF assms] by simp_all
  have "Username u = n" if "view s' n = Some u" for n u
    using cred_store.view_Username [OF reliable_cred_store.axioms(1) [OF assms(1)] r(1) that] .
  then show ?thesis using r(2) by (auto simp: well_typed_def role_Valid_def)
qed

theorem accounts_well_typed_witness:
  "well_typed (fs_view (snd (UsersCreate FileStore_ops
      \<lparr>clock = 0, bcrypt_generate = Some, bcrypt_compare = (=), initial_password = [], rand_bytes = (\<lambda>n. None)\<rparr>
      (\<lambda>k. if k = ''role'' then ''root'' else ''  eve  '') (demo_store [(''root'', RoleAdmin)]))))"
proof -
  have "TrimSpace ''root'' = ''root''" by code_simp
  then have "well_typed (fs_view (demo_store [(''root'', RoleAdmin)]))"
    by (auto simp: demo_store_view well_typed_def new_user_def role_Valid_def split: if_splits)
  then show ?thesis
    using accounts_well_typed [OF fsok.reliable_cred_store_axioms account_run.step [OF account_run.refl account_step.create]]
    by (simp add: demo_store_view)
qed

text \<open>
  The guard of \<open>UsersToggleRole\<close> does not hold across two requests: when exactly two accounts
  are administrators and their role toggles interleave (both handlers list the accounts before
  either calls \<open>SetRole\<close>), both demotions go through and no administrator is left.
\<close>

theorem toggle_race_removes_all_admins:
  assumes "fs_ok s" "admins (fs_view s) = {a, b}" "a \<noteq> b" "a \<noteq> []" "b \<noteq> []"
  shows "admins (fs_view (toggle_race a b s)) = {}"
proof -
  obtain us where us: "fs_file s = UsersDoc us" "fs_view s = user_map us" "distinct (map Username us)"
    using assms(1,2) by (auto simp: fs_view_def fs_ok_def fs_inv_def admins_def split: file_doc.splits)
  have dec: "toggle_decide a us = ToggleTo RoleViewer" "toggle_decide b us = ToggleTo RoleViewer"
    using toggle_decide_two_admins [OF us(3) _ assms(3)] assms(2,4,5) us(2) by simp_all
  have v: "role_Valid RoleViewer" by (simp add: role_Valid_def)
  obtain u where u: "fs_view s a = Some u" using assms(2) by (auto simp: admins_def)
  obtain s1 where s1: "fs_SetRole a RoleViewer s = (Inr (), s1)" "fs_ok s1"
    "fs_view s1 = (fs_view s)(a \<mapsto> u\<lparr>Role := RoleViewer\<rparr>)"
    by (rule fs_SetRole_ok [OF assms(1) u v])
  have "b \<in> admins (fs_view s)" using assms(2) by simp
  then obtain w where w: "fs_view s1 b = Some w" using s1(3) assms(3) by (auto simp: admins_def)
  obtain s2 where s2: "fs_SetRole b RoleViewer s1 = (Inr (), s2)"
    "fs_view s2 = (fs_view s1)(b \<mapsto> w\<lparr>Role := RoleViewer\<rparr>)"
    by (rule fs_SetRole_ok [OF s1(2) w v])
  have "toggle_race a b s = s2"
    using us(1) dec s1(1) s2(1) by (simp add: toggle_race_def fs_ListUsers_def fs_load_def)
  then show ?thesis using s1(3) s2(2) assms(2) by (auto simp: RoleViewer_def RoleAdmin_def)
qed

theorem toggle_race_removes_all_admins_witness:
  "admins (fs_view (toggle_race ''ann'' ''bob''
     (demo_store [(''ann'', RoleAdmin), (''bob'', RoleAdmin)]))) = {}"
  by (rule toggle_race_removes_all_admins)
    (auto simp: demo_store_view new_user_def admins_def split: if_splits)

end
