(* ===== verification/Sse.thy ===== *)
theory Sse
  imports Prelude
begin

text \<open>
  The event stream, \<open>dashboard/sse/*.go\<close>: the hub that fans events out to subscribers, the broker
  hook that feeds it, and the redis bridge that joins the hubs of a cluster.

  A channel is an identifier into the map of channels; a channel has a buffer and is open or
  closed. The model counts what Go turns into a panic (a send on a closed channel, a second
  \<open>close\<close>) in the field \<open>panicked\<close>.
\<close>

record Event =
  Type :: string
  Node :: string
  TS :: int
  Seq :: int
  Payload :: bytes

section \<open>The hub\<close>

record chan =
  buf :: "Event list"
  isopen :: bool
  consumed :: "Event list" \<comment> \<open>what the reader has taken out\<close>

record Hub =
  subs :: "nat list"
  chans :: "nat \<Rightarrow> chan"
  fresh :: nat \<comment> \<open>the next channel \<open>make\<close> returns\<close>
  bufSize :: nat
  drops :: int
  seq :: int
  closed :: bool
  panicked :: bool

definition NewHub :: "nat \<Rightarrow> Hub" where
  "NewHub n = \<lparr>subs = [], chans = (\<lambda>_. \<lparr>buf = [], isopen = False, consumed = []\<rparr>), fresh = 0,
     bufSize = n, drops = 0, seq = 0, closed = False, panicked = False\<rparr>"

definition Subscribe :: "Hub \<Rightarrow> nat \<times> Hub" where
  "Subscribe h =
     (let ch = fresh h in
      (ch, h\<lparr>chans := (chans h)(ch := \<lparr>buf = [], isopen = True, consumed = []\<rparr>), fresh := Suc ch,
             subs := subs h @ [ch]\<rparr>))"

definition close_chan :: "nat \<Rightarrow> Hub \<Rightarrow> Hub" where
  "close_chan ch h =
     (if isopen (chans h ch) then h\<lparr>chans := (chans h)(ch := (chans h ch)\<lparr>isopen := False\<rparr>)\<rparr>
      else h\<lparr>panicked := True\<rparr>)"

definition Unsubscribe :: "nat \<Rightarrow> Hub \<Rightarrow> Hub" where
  "Unsubscribe target h =
     (let h' = fold close_chan (filter (\<lambda>s. s = target) (subs h)) h
      in h'\<lparr>subs := filter (\<lambda>s. s \<noteq> target) (subs h)\<rparr>)"

text \<open>The body of the loop of \<open>Publish\<close>: a non-blocking send.\<close>

definition try_send :: "Event \<Rightarrow> nat \<Rightarrow> Hub \<Rightarrow> Hub" where
  "try_send e s h =
     (if \<not> isopen (chans h s) then h\<lparr>panicked := True\<rparr>
      else if length (buf (chans h s)) < bufSize h
        then h\<lparr>chans := (chans h)(s := (chans h s)\<lparr>buf := buf (chans h s) @ [e]\<rparr>)\<rparr>
      else h\<lparr>drops := drops h + 1\<rparr>)"

definition Publish :: "Event \<Rightarrow> Hub \<Rightarrow> Hub" where
  "Publish e h =
     (if closed h then h
      else let e = e\<lparr>Seq := seq h + 1\<rparr>; h = h\<lparr>seq := seq h + 1\<rparr> in fold (try_send e) (subs h) h)"

definition Close :: "Hub \<Rightarrow> Hub" where
  "Close h =
     (if closed h then h
      else let h = h\<lparr>closed := True\<rparr>; h' = fold close_chan (subs h) h in h'\<lparr>subs := []\<rparr>)"

text \<open>A subscriber takes the oldest event out of its channel.\<close>

definition receive :: "nat \<Rightarrow> Hub \<Rightarrow> Hub" where
  "receive ch h =
     (case buf (chans h ch) of
        [] \<Rightarrow> h
      | e # es \<Rightarrow>
          h\<lparr>chans := (chans h)(ch := (chans h ch)\<lparr>buf := es, consumed := consumed (chans h ch) @ [e]\<rparr>)\<rparr>)"

section \<open>Interleavings\<close>

text \<open>
  \<open>Publish\<close> reads \<open>closed\<close> and increments \<open>seq\<close> before it takes the read lock, and \<open>Close\<close> sets
  \<open>closed\<close> before it takes the write lock, so calls interleave there; publishers also interleave
  their sends, since they share the read lock. A publishing goroutine is in one of three places;
  \<open>Subscribe\<close>, \<open>Unsubscribe\<close> and the locked part of \<open>Close\<close> need the write lock, that is, nobody in
  \<open>Sending\<close>.
\<close>

datatype publisher = Checked Event | Stamped Event | Sending Event "nat list"

record system =
  hub :: Hub
  pubs :: "publisher list"
  closing :: nat \<comment> \<open>goroutines in \<open>Close\<close> between the compare-and-swap and the lock\<close>

definition read_locked :: "system \<Rightarrow> bool" where
  "read_locked \<sigma> \<longleftrightarrow> (\<exists>e todo. Sending e todo \<in> set (pubs \<sigma>))"

inductive hub_step :: "system \<Rightarrow> system \<Rightarrow> bool" where
  check: "\<not> closed (hub \<sigma>) \<Longrightarrow> hub_step \<sigma> (\<sigma>\<lparr>pubs := pubs \<sigma> @ [Checked e]\<rparr>)"
| stamp: "pubs \<sigma> = ps @ Checked e # qs \<Longrightarrow>
    hub_step \<sigma> (\<sigma>\<lparr>hub := (hub \<sigma>)\<lparr>seq := seq (hub \<sigma>) + 1\<rparr>,
      pubs := ps @ Stamped (e\<lparr>Seq := seq (hub \<sigma>) + 1\<rparr>) # qs\<rparr>)"
| rlock: "pubs \<sigma> = ps @ Stamped e # qs \<Longrightarrow>
    hub_step \<sigma> (\<sigma>\<lparr>pubs := ps @ Sending e (subs (hub \<sigma>)) # qs\<rparr>)"
| send: "pubs \<sigma> = ps @ Sending e (s # todo) # qs \<Longrightarrow>
    hub_step \<sigma> (\<sigma>\<lparr>hub := try_send e s (hub \<sigma>), pubs := ps @ Sending e todo # qs\<rparr>)"
| runlock: "pubs \<sigma> = ps @ Sending e [] # qs \<Longrightarrow> hub_step \<sigma> (\<sigma>\<lparr>pubs := ps @ qs\<rparr>)"
| recv: "hub_step \<sigma> (\<sigma>\<lparr>hub := receive ch (hub \<sigma>)\<rparr>)"
| subscribe: "\<not> read_locked \<sigma> \<Longrightarrow> hub_step \<sigma> (\<sigma>\<lparr>hub := snd (Subscribe (hub \<sigma>))\<rparr>)"
| unsubscribe: "\<not> read_locked \<sigma> \<Longrightarrow> hub_step \<sigma> (\<sigma>\<lparr>hub := Unsubscribe ch (hub \<sigma>)\<rparr>)"
| close_cas: "\<not> closed (hub \<sigma>) \<Longrightarrow>
    hub_step \<sigma> (\<sigma>\<lparr>hub := (hub \<sigma>)\<lparr>closed := True\<rparr>, closing := Suc (closing \<sigma>)\<rparr>)"
| close_lock: "\<not> read_locked \<sigma> \<Longrightarrow> closing \<sigma> = Suc k \<Longrightarrow>
    hub_step \<sigma> (\<sigma>\<lparr>hub := (fold close_chan (subs (hub \<sigma>)) (hub \<sigma>))\<lparr>subs := []\<rparr>, closing := k\<rparr>)"

inductive hub_reach :: "nat \<Rightarrow> system \<Rightarrow> bool" for n where
  init: "hub_reach n \<lparr>hub = NewHub n, pubs = [], closing = 0\<rparr>"
| step: "hub_reach n \<sigma> \<Longrightarrow> hub_step \<sigma> \<sigma>' \<Longrightarrow> hub_reach n \<sigma>'"

section \<open>What closing and sending change\<close>

text \<open>Everything a channel has ever been given, oldest first.\<close>

definition history :: "Hub \<Rightarrow> nat \<Rightarrow> Event list" where
  "history h ch = consumed (chans h ch) @ buf (chans h ch)"

lemma fold_close_chan:
  assumes "distinct cs" "\<forall>c \<in> set cs. isopen (chans h c)"
  shows "fold close_chan cs h = h\<lparr>chans := (\<lambda>c. if c \<in> set cs then (chans h c)\<lparr>isopen := False\<rparr> else chans h c)\<rparr>"
  using assms
proof (induction cs arbitrary: h)
  case (Cons c cs)
  have "close_chan c h = h\<lparr>chans := (chans h)(c := (chans h c)\<lparr>isopen := False\<rparr>)\<rparr>"
    using Cons.prems by (simp add: close_chan_def)
  moreover have "\<forall>d \<in> set cs. isopen (((chans h)(c := (chans h c)\<lparr>isopen := False\<rparr>)) d)"
    using Cons.prems by auto
  ultimately show ?case
    using Cons.IH [of "close_chan c h"] Cons.prems by (auto simp: fun_eq_iff)
qed simp

lemma Unsubscribe_eq:
  assumes "distinct (subs h)" "\<forall>c \<in> set (subs h). isopen (chans h c)"
  shows "Unsubscribe ch h = h\<lparr>subs := filter (\<lambda>s. s \<noteq> ch) (subs h),
    chans := (\<lambda>c. if c = ch \<and> ch \<in> set (subs h) then (chans h c)\<lparr>isopen := False\<rparr> else chans h c)\<rparr>"
  using assms
  by (subst Unsubscribe_def, subst fold_close_chan) (auto simp: Let_def fun_eq_iff)

lemma try_send_open:
  assumes "isopen (chans h s)"
  shows "subs (try_send e s h) = subs h" "seq (try_send e s h) = seq h" "closed (try_send e s h) = closed h"
    "bufSize (try_send e s h) = bufSize h" "fresh (try_send e s h) = fresh h"
    "panicked (try_send e s h) = panicked h"
    "isopen (chans (try_send e s h) c) = isopen (chans h c)"
    "history (try_send e s h) c = history h c @ (if c = s \<and> length (buf (chans h s)) < bufSize h then [e] else [])"
    "buf (chans (try_send e s h) c) = buf (chans h c) @ (if c = s \<and> length (buf (chans h s)) < bufSize h then [e] else [])"
  using assms by (auto simp: try_send_def history_def)

lemma receive_frame:
  "subs (receive c h) = subs h" "seq (receive c h) = seq h" "closed (receive c h) = closed h"
  "bufSize (receive c h) = bufSize h" "fresh (receive c h) = fresh h" "panicked (receive c h) = panicked h"
  "isopen (chans (receive c h) d) = isopen (chans h d)" "history (receive c h) d = history h d"
  "length (buf (chans (receive c h) d)) \<le> length (buf (chans h d))"
  by (auto simp: receive_def history_def split: list.splits)

section \<open>The invariant\<close>

fun stamp_of :: "publisher \<Rightarrow> int list" where
  "stamp_of (Checked e) = []"
| "stamp_of (Stamped e) = [Seq e]"
| "stamp_of (Sending e todo) = [Seq e]"

fun pub_ok :: "Hub \<Rightarrow> publisher \<Rightarrow> bool" where
  "pub_ok h (Checked e) = True"
| "pub_ok h (Stamped e) = (\<forall>c. Seq e \<notin> Seq ` set (history h c))"
| "pub_ok h (Sending e todo) \<longleftrightarrow>
     set todo \<subseteq> set (subs h) \<and> distinct todo \<and> (\<forall>c \<in> set todo. Seq e \<notin> Seq ` set (history h c))"

definition chans_ok :: "nat \<Rightarrow> Hub \<Rightarrow> bool" where
  "chans_ok n h \<longleftrightarrow> distinct (subs h) \<and> (\<forall>s \<in> set (subs h). isopen (chans h s) \<and> s < fresh h)
     \<and> bufSize h = n \<and> \<not> panicked h \<and> 0 \<le> seq h
     \<and> (\<forall>c. length (buf (chans h c)) \<le> n \<and> distinct (map Seq (history h c))
           \<and> (\<forall>e \<in> set (history h c). 0 < Seq e \<and> Seq e \<le> seq h))"

definition stamps :: "publisher list \<Rightarrow> int list" where
  "stamps ps = concat (map stamp_of ps)"

lemma stamps_simps [simp]:
  "stamps [] = []" "stamps (p # ps) = stamp_of p @ stamps ps" "stamps (ps @ qs) = stamps ps @ stamps qs"
  by (simp_all add: stamps_def)

definition sys_inv :: "nat \<Rightarrow> system \<Rightarrow> bool" where
  "sys_inv n \<sigma> \<longleftrightarrow> chans_ok n (hub \<sigma>) \<and> (\<forall>p \<in> set (pubs \<sigma>). pub_ok (hub \<sigma>) p)
     \<and> distinct (stamps (pubs \<sigma>)) \<and> (\<forall>k \<in> set (stamps (pubs \<sigma>)). 0 < k \<and> k \<le> seq (hub \<sigma>))"

text \<open>A change of the hub that keeps histories and subscribers keeps every publisher's condition.\<close>

lemma pub_ok_frame:
  assumes "\<And>c. history h' c = history h c" "subs h' = subs h"
  shows "pub_ok h' p = pub_ok h p"
  using assms by (cases p) simp_all

lemma not_read_locked_pub_ok:
  assumes "\<not> read_locked \<sigma>" "p \<in> set (pubs \<sigma>)" "pub_ok h p" "\<And>c. set (history h' c) \<subseteq> set (history h c)"
  shows "pub_ok h' p"
  using assms by (cases p) (auto simp: read_locked_def image_iff, blast)

lemma chans_ok_try_send:
  assumes "chans_ok n h" "isopen (chans h s)" "Seq e \<notin> Seq ` set (history h s)" "0 < Seq e" "Seq e \<le> seq h"
  shows "chans_ok n (try_send e s h)"
  using assms unfolding chans_ok_def
  by (auto simp: try_send_open [OF assms(2)])

lemma pub_ok_try_send_other:
  assumes "pub_ok h p" "Seq e \<notin> set (stamp_of p)" "isopen (chans h s)"
  shows "pub_ok (try_send e s h) p"
  using assms by (cases p) (auto simp: try_send_open [OF assms(3)])

lemma sys_inv_send:
  assumes inv: "sys_inv n \<sigma>" and ps: "pubs \<sigma> = ps @ Sending e (s # todo) # qs"
  shows "sys_inv n (\<sigma>\<lparr>hub := try_send e s (hub \<sigma>), pubs := ps @ Sending e todo # qs\<rparr>)"
proof -
  let ?h = "hub \<sigma>"
  have ok: "pub_ok ?h (Sending e (s # todo))" using inv ps by (simp add: sys_inv_def)
  then have s: "s \<in> set (subs ?h)" "s \<notin> set todo" "Seq e \<notin> Seq ` set (history ?h s)" by auto
  have op: "isopen (chans ?h s)" using inv s(1) by (auto simp: sys_inv_def chans_ok_def)
  have e: "0 < Seq e" "Seq e \<le> seq ?h" using inv ps by (auto simp: sys_inv_def)
  have "Seq e \<notin> set (stamp_of p)" if "p \<in> set ps \<union> set qs" for p
    using inv ps that by (auto simp: sys_inv_def stamps_def)
  then have "\<forall>p \<in> set ps \<union> set qs. pub_ok (try_send e s ?h) p"
    using inv ps pub_ok_try_send_other [OF _ _ op] by (auto simp: sys_inv_def)
  moreover have "pub_ok (try_send e s ?h) (Sending e todo)"
    using ok s(2) by (auto simp: try_send_open [OF op])
  moreover have "chans_ok n (try_send e s ?h)"
    using inv chans_ok_try_send [OF _ op s(3) e] by (simp add: sys_inv_def)
  ultimately show ?thesis using inv ps by (auto simp: sys_inv_def try_send_open [OF op])
qed

lemma sys_inv_stamp:
  assumes inv: "sys_inv n \<sigma>" and ps: "pubs \<sigma> = ps @ Checked e # qs"
  shows "sys_inv n (\<sigma>\<lparr>hub := (hub \<sigma>)\<lparr>seq := seq (hub \<sigma>) + 1\<rparr>,
      pubs := ps @ Stamped (e\<lparr>Seq := seq (hub \<sigma>) + 1\<rparr>) # qs\<rparr>)"
proof -
  let ?h = "hub \<sigma>" and ?h' = "(hub \<sigma>)\<lparr>seq := seq (hub \<sigma>) + 1\<rparr>"
  have hist: "history ?h' c = history ?h c" for c by (simp add: history_def)
  have bound: "\<forall>x \<in> set (history ?h c). Seq x \<le> seq ?h" for c
    using inv by (auto simp: sys_inv_def chans_ok_def)
  then have "\<forall>c. seq ?h + 1 \<notin> Seq ` set (history ?h c)" by force
  then have "pub_ok ?h' (Stamped (e\<lparr>Seq := seq ?h + 1\<rparr>))" by (simp add: hist)
  moreover have "\<forall>p \<in> set ps \<union> set qs. pub_ok ?h' p"
    using inv ps pub_ok_frame [of ?h' ?h, OF hist] by (auto simp: sys_inv_def)
  moreover have "\<forall>x \<in> set (history ?h c). Seq x \<le> seq ?h + 1" for c using bound [of c] by force
  then have "chans_ok n ?h'"
    using inv by (auto simp: sys_inv_def chans_ok_def hist)
  moreover have st: "\<forall>k \<in> set (stamps ps) \<union> set (stamps qs). 0 < k \<and> k \<le> seq ?h" "0 \<le> seq ?h"
    using inv ps by (auto simp: sys_inv_def chans_ok_def)
  have "seq ?h + 1 \<notin> set (stamps ps) \<union> set (stamps qs)"
  proof
    assume "seq ?h + 1 \<in> set (stamps ps) \<union> set (stamps qs)"
    with st(1) have "seq ?h + 1 \<le> seq ?h" by blast
    then show False by simp
  qed
  moreover have "\<forall>k \<in> set (stamps ps) \<union> set (stamps qs). 0 < k \<and> k \<le> seq ?h + 1"
    using st(1) by (meson zle_add1_eq_le less_imp_le)
  moreover have "distinct (stamps ps @ stamps qs)" using inv ps by (simp add: sys_inv_def)
  ultimately show ?thesis using st(2) by (auto simp: sys_inv_def)
qed

lemma sys_inv_exclusive:
  assumes inv: "sys_inv n \<sigma>" and "\<not> read_locked \<sigma>" "chans_ok n h'" "seq h' = seq (hub \<sigma>)"
    and "\<And>c. set (history h' c) \<subseteq> set (history (hub \<sigma>) c)" and "pubs \<sigma>' = pubs \<sigma>" "hub \<sigma>' = h'"
  shows "sys_inv n \<sigma>'"
  using assms not_read_locked_pub_ok [OF assms(2), where h = "hub \<sigma>" and h' = h']
  by (auto simp: sys_inv_def)

lemma chans_ok_Subscribe: "chans_ok n h \<Longrightarrow> chans_ok n (snd (Subscribe h))"
  by (auto simp: chans_ok_def Subscribe_def Let_def history_def less_SucI)

lemma history_Subscribe: "set (history (snd (Subscribe h)) c) \<subseteq> set (history h c)"
  by (auto simp: Subscribe_def Let_def history_def)

lemma chans_ok_Unsubscribe:
  assumes "chans_ok n h"
  shows "chans_ok n (Unsubscribe ch h) \<and> seq (Unsubscribe ch h) = seq h
    \<and> history (Unsubscribe ch h) = history h"
proof -
  have "distinct (subs h)" "\<forall>c \<in> set (subs h). isopen (chans h c)" using assms by (auto simp: chans_ok_def)
  then show ?thesis
    using assms by (auto simp: Unsubscribe_eq chans_ok_def history_def fun_eq_iff)
qed

lemma chans_ok_close:
  assumes "chans_ok n h"
  shows "chans_ok n ((fold close_chan (subs h) h)\<lparr>subs := []\<rparr>)
    \<and> seq ((fold close_chan (subs h) h)\<lparr>subs := []\<rparr>) = seq h
    \<and> history ((fold close_chan (subs h) h)\<lparr>subs := []\<rparr>) = history h"
proof -
  have "distinct (subs h)" "\<forall>c \<in> set (subs h). isopen (chans h c)" using assms by (auto simp: chans_ok_def)
  then show ?thesis
    using assms by (auto simp: fold_close_chan chans_ok_def history_def fun_eq_iff)
qed

lemma chans_ok_receive:
  assumes "chans_ok n h"
  shows "chans_ok n (receive ch h)"
proof -
  have "length (buf (chans (receive ch h) d)) \<le> n" for d
    using assms receive_frame(9) [of ch h d] le_trans unfolding chans_ok_def by blast
  then show ?thesis using assms by (simp add: chans_ok_def receive_frame)
qed

lemma sys_inv_step:
  assumes "hub_step \<sigma> \<sigma>'" "sys_inv n \<sigma>"
  shows "sys_inv n \<sigma>'"
  using assms(1)
proof cases
  case (check e)
  then show ?thesis using assms(2) by (simp add: sys_inv_def)
next
  case (stamp ps e qs)
  then show ?thesis using sys_inv_stamp [OF assms(2)] by simp
next
  case (rlock ps e qs)
  then show ?thesis using assms(2) by (auto simp: sys_inv_def chans_ok_def)
next
  case (send ps e s todo qs)
  then show ?thesis using sys_inv_send [OF assms(2)] by simp
next
  case (runlock ps e qs)
  then show ?thesis using assms(2) by (auto simp: sys_inv_def)
next
  case (recv ch)
  have "chans_ok n (receive ch (hub \<sigma>))"
    using assms(2) by (simp add: sys_inv_def chans_ok_receive)
  then show ?thesis
    using recv assms(2) pub_ok_frame [of "receive ch (hub \<sigma>)" "hub \<sigma>"]
    by (simp add: sys_inv_def receive_frame)
next
  case subscribe
  show ?thesis
    by (rule sys_inv_exclusive [OF assms(2) subscribe(2), of "snd (Subscribe (hub \<sigma>))"])
      (use assms(2) subscribe(1) history_Subscribe in
        \<open>auto simp: sys_inv_def chans_ok_Subscribe, simp add: Subscribe_def Let_def\<close>)
next
  case (unsubscribe ch)
  show ?thesis
    by (rule sys_inv_exclusive [OF assms(2) unsubscribe(2), of "Unsubscribe ch (hub \<sigma>)"])
      (use assms(2) unsubscribe(1) chans_ok_Unsubscribe in \<open>auto simp: sys_inv_def\<close>)
next
  case close_cas
  then show ?thesis
    using assms(2) pub_ok_frame [of "(hub \<sigma>)\<lparr>closed := True\<rparr>" "hub \<sigma>"]
    by (simp add: sys_inv_def chans_ok_def history_def)
next
  case (close_lock k)
  show ?thesis
    by (rule sys_inv_exclusive [OF assms(2) close_lock(2), of "(fold close_chan (subs (hub \<sigma>)) (hub \<sigma>))\<lparr>subs := []\<rparr>"])
      (use assms(2) close_lock(1) chans_ok_close [of n "hub \<sigma>"] in \<open>auto simp: sys_inv_def\<close>)
qed

lemma sys_inv_reach: "hub_reach n \<sigma> \<Longrightarrow> sys_inv n \<sigma>"
proof (induction rule: hub_reach.induct)
  case init
  then show ?case by (simp add: sys_inv_def chans_ok_def NewHub_def history_def)
qed (rule sys_inv_step)

section \<open>The bridge\<close>

definition defaultEventsChannel :: string where
  "defaultEventsChannel = ''comqtt:dashboard:events''"

record lru =
  lru_cap :: int
  lru_order :: "string list"
  lru_set :: "string set"

definition newLRU :: "int \<Rightarrow> lru" where
  "newLRU c = \<lparr>lru_cap = c, lru_order = [], lru_set = {}\<rparr>"

text \<open>\<open>None\<close> is the panic of \<open>l.order[0]\<close> on an empty list, which a capacity below one would give.\<close>

definition lru_add :: "string \<Rightarrow> lru \<Rightarrow> (bool \<times> lru) option" where
  "lru_add key l =
     (if key \<in> lru_set l then Some (False, l)
      else if int (length (lru_order l)) \<ge> lru_cap l then
        (case lru_order l of
           [] \<Rightarrow> None
         | old # order \<Rightarrow>
             Some (True, l\<lparr>lru_order := order @ [key], lru_set := insert key (lru_set l - {old})\<rparr>))
      else Some (True, l\<lparr>lru_order := lru_order l @ [key], lru_set := insert key (lru_set l)\<rparr>))"

record Bridge =
  br_Node :: string
  br_Channel :: string
  br_BufSize :: int
  br_dedup :: lru

definition NewBridge :: "string \<Rightarrow> Bridge" where
  "NewBridge node = \<lparr>br_Node = node, br_Channel = defaultEventsChannel, br_BufSize = 4096,
     br_dedup = newLRU 0\<rparr>"

definition Start :: "Bridge \<Rightarrow> Bridge" where
  "Start b =
     (let b = (if br_Channel b = [] then b\<lparr>br_Channel := defaultEventsChannel\<rparr> else b);
          b = (if br_BufSize b \<le> 0 then b\<lparr>br_BufSize := 4096\<rparr> else b)
      in b\<lparr>br_dedup := newLRU (br_BufSize b)\<rparr>)"

text \<open>
  One round of \<open>runPublisher\<close>: what it sends to redis for an event of the hub, and one round of
  \<open>runSubscriber\<close>: the event it hands to the hub for a message of the channel. The JSON codec is
  the parameter.
\<close>

definition publisher_round :: "(Event \<Rightarrow> bytes option) \<Rightarrow> Bridge \<Rightarrow> Event \<Rightarrow> bytes option" where
  "publisher_round marshal b ev = (if Node ev \<noteq> br_Node b then None else marshal ev)"

definition dedup_key :: "Event \<Rightarrow> string" where
  "dedup_key ev = Node ev @ '':'' @ FormatInt (Seq ev)"

definition subscriber_round ::
  "(bytes \<Rightarrow> Event option) \<Rightarrow> bytes \<Rightarrow> Bridge \<Rightarrow> (Event option \<times> Bridge) option" where
  "subscriber_round unmarshal msg b =
     (case unmarshal msg of
        None \<Rightarrow> Some (None, b)
      | Some ev \<Rightarrow>
          if Node ev = br_Node b then Some (None, b)
          else (case lru_add (dedup_key ev) (br_dedup b) of
                  None \<Rightarrow> None
                | Some (False, l) \<Rightarrow> Some (None, b\<lparr>br_dedup := l\<rparr>)
                | Some (True, l) \<Rightarrow> Some (Some ev, b\<lparr>br_dedup := l\<rparr>)))"

text \<open>The subscriber loop over a sequence of messages: the events it publishes.\<close>

fun runSubscriber :: "(bytes \<Rightarrow> Event option) \<Rightarrow> bytes list \<Rightarrow> Bridge \<Rightarrow> (Event list \<times> Bridge) option" where
  "runSubscriber unmarshal [] b = Some ([], b)"
| "runSubscriber unmarshal (m # ms) b =
     (case subscriber_round unmarshal m b of
        None \<Rightarrow> None
      | Some (out, b') \<Rightarrow>
          map_option (\<lambda>(evs, b''). (case out of None \<Rightarrow> evs | Some ev \<Rightarrow> ev # evs, b''))
            (runSubscriber unmarshal ms b'))"

section \<open>The broker hook\<close>

text \<open>
  What \<open>HubHook\<close> publishes for a callback of the broker; \<open>marshal\<close> is \<open>json.Marshal\<close> of the map
  literal, given as its entries, and \<open>ms\<close> the time.
\<close>

datatype json = JStr string | JNum int | JBool bool

definition hook_event :: "((string \<times> json) list \<Rightarrow> bytes) \<Rightarrow> string \<Rightarrow> int \<Rightarrow> string \<Rightarrow> (string \<times> json) list \<Rightarrow> Event" where
  "hook_event marshal node ms ty entries =
     \<lparr>Type = ty, Node = node, TS = ms, Seq = 0, Payload = marshal entries\<rparr>"

definition OnConnect where
  "OnConnect marshal node ms cid username remote h =
     Publish (hook_event marshal node ms ''client.connected''
       [(''client_id'', JStr cid), (''username'', JStr username), (''remote'', JStr remote)]) h"

definition OnDisconnect where
  "OnDisconnect marshal node ms cid username err expire h =
     (let reason = (case err of None \<Rightarrow> [] | Some msg \<Rightarrow> msg) in
      Publish (hook_event marshal node ms ''client.disconnected''
        [(''client_id'', JStr cid), (''username'', JStr username), (''reason'', JStr reason),
         (''expire'', JBool expire)]) h)"

definition OnPublished where
  "OnPublished marshal node ms cid topic qos payload h =
     Publish (hook_event marshal node ms ''message.published''
       [(''client_id'', JStr cid), (''topic'', JStr topic), (''qos'', JNum qos),
        (''payload_size'', JNum (int (length (payload :: bytes))))]) h"

definition OnSubscribed where
  "OnSubscribed marshal node ms cid filters h =
     fold (\<lambda>(flt, qos). Publish (hook_event marshal node ms ''subscription.added''
       [(''client_id'', JStr cid), (''topic'', JStr flt), (''qos'', JNum qos)])) filters h"

definition OnUnsubscribed where
  "OnUnsubscribed marshal node ms cid filters h =
     fold (\<lambda>flt. Publish (hook_event marshal node ms ''subscription.removed''
       [(''client_id'', JStr cid), (''topic'', JStr flt)])) filters h"

section \<open>Properties\<close>

lemma Publish_fold:
  assumes "distinct ss" "\<forall>s \<in> set ss. isopen (chans h s)"
  shows "fold (try_send e) ss h = h\<lparr>
      chans := (\<lambda>c. if c \<in> set ss \<and> length (buf (chans h c)) < bufSize h
                   then (chans h c)\<lparr>buf := buf (chans h c) @ [e]\<rparr> else chans h c),
      drops := drops h + int (length (filter (\<lambda>s. bufSize h \<le> length (buf (chans h s))) ss))\<rparr>"
  using assms
proof (induction ss arbitrary: h)
  case (Cons s ss)
  have op: "\<forall>r \<in> set ss. isopen (chans (try_send e s h) r)"
    using Cons.prems by (simp add: try_send_open)
  have IH: "fold (try_send e) ss (try_send e s h) = (try_send e s h)\<lparr>
      chans := (\<lambda>c. if c \<in> set ss \<and> length (buf (chans (try_send e s h) c)) < bufSize (try_send e s h)
          then (chans (try_send e s h) c)\<lparr>buf := buf (chans (try_send e s h) c) @ [e]\<rparr>
          else chans (try_send e s h) c),
      drops := drops (try_send e s h) + int (length
        (filter (\<lambda>s'. bufSize (try_send e s h) \<le> length (buf (chans (try_send e s h) s'))) ss))\<rparr>"
    using Cons.IH [OF _ op] Cons.prems by simp
  have same: "filter (\<lambda>s'. bufSize h \<le> length (buf (chans (try_send e s h) s'))) ss =
      filter (\<lambda>s'. bufSize h \<le> length (buf (chans h s'))) ss"
    using Cons.prems by (intro filter_cong) (auto simp: try_send_open)
  show ?case
  proof (cases "length (buf (chans h s)) < bufSize h")
    case True
    then have ts: "try_send e s h = h\<lparr>chans := (chans h)(s := (chans h s)\<lparr>buf := buf (chans h s) @ [e]\<rparr>)\<rparr>"
      using Cons.prems by (simp add: try_send_def)
    show ?thesis
      using IH same True Cons.prems(1) unfolding ts by (auto simp: ts fun_eq_iff cong: if_cong)
  next
    case False
    then have ts: "try_send e s h = h\<lparr>drops := drops h + 1\<rparr>"
      using Cons.prems by (simp add: try_send_def)
    show ?thesis
      using IH same False unfolding ts by (auto simp: ts fun_eq_iff cong: if_cong)
  qed
qed simp

text \<open>
  C12. Under every interleaving of publishers, subscribers, readers and \<open>Close\<close>, the hub never sends
  on a closed channel and never closes a channel twice (no panic), no buffer holds more events than
  its capacity, and no subscriber is ever given two events with the same sequence number.
\<close>

theorem hub_interleavings_safe:
  assumes "hub_reach n \<sigma>"
  shows "\<not> panicked (hub \<sigma>)
    \<and> (\<forall>ch. length (buf (chans (hub \<sigma>) ch)) \<le> n)
    \<and> (\<forall>ch. distinct (map Seq (consumed (chans (hub \<sigma>) ch) @ buf (chans (hub \<sigma>) ch))))"
  using sys_inv_reach [OF assms] by (auto simp: sys_inv_def chans_ok_def history_def)

theorem hub_interleavings_safe_witness:
  "\<not> panicked ((hub \<lparr>hub = NewHub 1, pubs = [], closing = 0\<rparr>)\<lparr>closed := True\<rparr>)"
  using hub_interleavings_safe [OF hub_reach.step [OF hub_reach.step [OF hub_reach.init
      hub_step.check [where e = "\<lparr>Type = [], Node = [], TS = 0, Seq = 0, Payload = []\<rparr>"]]
      hub_step.close_cas], of 1]
  by (simp add: NewHub_def)

text \<open>
  What one \<open>Publish\<close> does to an open hub: the event gets the next sequence number, every
  subscriber with room in its buffer gets it last, and the drop counter grows by exactly the number
  of subscribers whose buffer is full; nobody waits. A closed hub is left as it is.
\<close>

theorem Publish_effect:
  assumes "distinct (subs h)" "\<forall>s \<in> set (subs h). isopen (chans h s)"
  shows "Publish e h = (if closed h then h else h\<lparr>seq := seq h + 1,
      chans := (\<lambda>c. if c \<in> set (subs h) \<and> length (buf (chans h c)) < bufSize h
                   then (chans h c)\<lparr>buf := buf (chans h c) @ [e\<lparr>Seq := seq h + 1\<rparr>]\<rparr> else chans h c),
      drops := drops h + int (length (filter (\<lambda>s. bufSize h \<le> length (buf (chans h s))) (subs h)))\<rparr>)"
  using Publish_fold [of "subs h" "h\<lparr>seq := seq h + 1\<rparr>" "e\<lparr>Seq := seq h + 1\<rparr>"] assms
  by (simp add: Publish_def Let_def cong: if_cong)

theorem Publish_effect_witness:
  "buf (chans (Publish \<lparr>Type = ''t'', Node = ''n'', TS = 0, Seq = 0, Payload = []\<rparr> (snd (Subscribe (NewHub 1)))) 0) =
     [\<lparr>Type = ''t'', Node = ''n'', TS = 0, Seq = 1, Payload = []\<rparr>]"
  by (subst Publish_effect) (simp_all add: Subscribe_def NewHub_def)

subsection \<open>The duplicate filter\<close>

text \<open>The last \<open>n\<close> elements of a list.\<close>

definition last_n :: "nat \<Rightarrow> 'a list \<Rightarrow> 'a list" where
  "last_n n xs = drop (length xs - n) xs"

lemma last_n_snoc: "0 < n \<Longrightarrow> last_n n (xs @ [x]) = (if length xs < n then xs else tl (last_n n xs)) @ [x]"
  by (auto simp: last_n_def Suc_diff_le drop_Suc tl_drop)

text \<open>The filter remembers the last \<open>n\<close> accepted keys of \<open>acc\<close>.\<close>

definition lru_inv :: "nat \<Rightarrow> string list \<Rightarrow> lru \<Rightarrow> bool" where
  "lru_inv n acc l \<longleftrightarrow> lru_cap l = int n \<and> lru_order l = last_n n acc \<and> lru_set l = set (last_n n acc)
     \<and> distinct (last_n n acc)"

lemma lru_add_inv:
  assumes "lru_inv n acc l" "0 < n"
  shows "lru_add key l =
      (if key \<in> set (last_n n acc) then Some (False, l)
       else Some (True, l\<lparr>lru_order := last_n n (acc @ [key]), lru_set := set (last_n n (acc @ [key]))\<rparr>))
    \<and> (key \<notin> set (last_n n acc) \<longrightarrow>
        lru_inv n (acc @ [key]) (l\<lparr>lru_order := last_n n (acc @ [key]), lru_set := set (last_n n (acc @ [key]))\<rparr>))"
proof (cases "length acc < n")
  case True
  then have "last_n n acc = acc" by (simp add: last_n_def)
  with True assms show ?thesis
    by (auto simp: lru_add_def lru_inv_def last_n_snoc)
next
  case False
  then have len: "length (last_n n acc) = n" by (simp add: last_n_def)
  then obtain old order where o: "last_n n acc = old # order" using assms(2) by (cases "last_n n acc") auto
  have "last_n n (acc @ [key]) = order @ [key]" using False assms(2) o by (simp add: last_n_snoc)
  with o len assms show ?thesis
    by (auto simp: lru_add_def lru_inv_def)
qed

text \<open>The bridge after it has published the events \<open>out\<close>.\<close>

definition bridge_inv :: "string \<Rightarrow> nat \<Rightarrow> Event list \<Rightarrow> Bridge \<Rightarrow> bool" where
  "bridge_inv node n out b \<longleftrightarrow> br_Node b = node \<and> 0 < n \<and> lru_inv n (map dedup_key out) (br_dedup b)
     \<and> (\<forall>ev \<in> set out. Node ev \<noteq> node)
     \<and> (\<forall>i < length out. \<forall>j < i. dedup_key (out ! i) = dedup_key (out ! j) \<longrightarrow> i - j > n)"

lemma last_n_nth: "x \<in> set (last_n n xs) \<longleftrightarrow> (\<exists>j < length xs. length xs - j \<le> n \<and> xs ! j = x)"
proof
  assume "x \<in> set (last_n n xs)"
  then obtain k where "k < length (last_n n xs)" "last_n n xs ! k = x" by (auto simp: in_set_conv_nth)
  then show "\<exists>j < length xs. length xs - j \<le> n \<and> xs ! j = x"
    by (intro exI [of _ "length xs - n + k"]) (auto simp: last_n_def)
next
  assume "\<exists>j < length xs. length xs - j \<le> n \<and> xs ! j = x"
  then obtain j where j: "j < length xs" "length xs - j \<le> n" "xs ! j = x" by blast
  then have "last_n n xs ! (j - (length xs - n)) = x" "j - (length xs - n) < length (last_n n xs)"
    by (auto simp: last_n_def)
  then show "x \<in> set (last_n n xs)" by (metis nth_mem)
qed

lemma bridge_inv_publish:
  assumes "bridge_inv node n out b" "Node ev \<noteq> node" "dedup_key ev \<notin> set (last_n n (map dedup_key out))"
    and "lru_inv n (map dedup_key (out @ [ev])) l"
  shows "bridge_inv node n (out @ [ev]) (b\<lparr>br_dedup := l\<rparr>)"
proof -
  have "\<forall>j < length out. dedup_key ev = dedup_key (out ! j) \<longrightarrow> length out - j > n"
  proof (intro allI impI, rule ccontr)
    fix j assume "j < length out" "dedup_key ev = dedup_key (out ! j)" "\<not> length out - j > n"
    then have "dedup_key ev \<in> set (last_n n (map dedup_key out))" by (auto simp: last_n_nth)
    with assms(3) show False by simp
  qed
  with assms show ?thesis
    by (auto simp: bridge_inv_def nth_append less_Suc_eq)
qed

lemma subscriber_round_inv:
  assumes "bridge_inv node n out b"
  shows "\<exists>o' b'. subscriber_round unmarshal msg b = Some (o', b')
    \<and> bridge_inv node n (out @ (case o' of None \<Rightarrow> [] | Some ev \<Rightarrow> [ev])) b'"
proof (cases "unmarshal msg")
  case None
  then show ?thesis using assms by (simp add: subscriber_round_def)
next
  case (Some ev)
  show ?thesis
  proof (cases "Node ev = br_Node b \<or> dedup_key ev \<in> set (last_n n (map dedup_key out))")
    case True
    then show ?thesis
      using Some assms lru_add_inv [of n "map dedup_key out" "br_dedup b" "dedup_key ev"]
      by (auto simp: subscriber_round_def bridge_inv_def)
  next
    case False
    let ?l = "(br_dedup b)\<lparr>lru_order := last_n n (map dedup_key out @ [dedup_key ev]),
      lru_set := set (last_n n (map dedup_key out @ [dedup_key ev]))\<rparr>"
    have "lru_add (dedup_key ev) (br_dedup b) = Some (True, ?l)" "lru_inv n (map dedup_key (out @ [ev])) ?l"
      using False assms lru_add_inv [of n "map dedup_key out" "br_dedup b" "dedup_key ev"]
      by (auto simp: bridge_inv_def)
    moreover have "bridge_inv node n (out @ [ev]) (b\<lparr>br_dedup := ?l\<rparr>)"
      by (rule bridge_inv_publish [OF assms]) (use False assms calculation in \<open>auto simp: bridge_inv_def\<close>)
    ultimately show ?thesis using Some False by (simp add: subscriber_round_def)
  qed
qed

lemma runSubscriber_inv:
  assumes "bridge_inv node n out b"
  shows "\<exists>evs b'. runSubscriber unmarshal ms b = Some (evs, b') \<and> bridge_inv node n (out @ evs) b'"
  using assms
proof (induction ms arbitrary: b out)
  case (Cons m ms)
  obtain o' b' where r: "subscriber_round unmarshal m b = Some (o', b')"
    "bridge_inv node n (out @ (case o' of None \<Rightarrow> [] | Some ev \<Rightarrow> [ev])) b'"
    using subscriber_round_inv [OF Cons.prems] by blast
  obtain evs b'' where "runSubscriber unmarshal ms b' = Some (evs, b'')"
    "bridge_inv node n ((out @ (case o' of None \<Rightarrow> [] | Some ev \<Rightarrow> [ev])) @ evs) b''"
    using Cons.IH [OF r(2)] by blast
  with r(1) show ?case by (cases o') auto
qed auto

lemma bridge_inv_Start:
  "bridge_inv (br_Node b) (nat (br_BufSize (Start b))) [] (Start b)"
  by (auto simp: bridge_inv_def Start_def Let_def newLRU_def lru_inv_def last_n_def)

lemma FormatInt_no_colon: "CHR '':'' \<notin> set (FormatInt v)"
proof -
  have "CHR '':'' \<notin> set (nat_digits n)" for n
    using nat_digits_digits [of n] by (auto simp: list_all_iff is_digit_def dest!: bspec)
  then show ?thesis by (simp add: FormatInt_def)
qed

lemma append_colon_inject:
  "CHR '':'' \<notin> set t \<Longrightarrow> CHR '':'' \<notin> set t' \<Longrightarrow> s @ CHR '':'' # t = s' @ CHR '':'' # t' \<longleftrightarrow> s = s' \<and> t = t'"
proof
  assume n: "CHR '':'' \<notin> set t" "CHR '':'' \<notin> set t'" and e: "s @ CHR '':'' # t = s' @ CHR '':'' # t'"
  have "rev t @ CHR '':'' # rev s = rev t' @ CHR '':'' # rev s'"
    using arg_cong [OF e, of rev] by simp
  then have "takeWhile (\<lambda>c. c \<noteq> CHR '':'') (rev t @ CHR '':'' # rev s) =
      takeWhile (\<lambda>c. c \<noteq> CHR '':'') (rev t' @ CHR '':'' # rev s')" by simp
  moreover have "takeWhile (\<lambda>c. c \<noteq> CHR '':'') (rev u @ CHR '':'' # v) = rev u" if "CHR '':'' \<notin> set u" for u v
    using that by (induction u rule: rev_induct) auto
  ultimately have "rev t = rev t'" using n by simp
  with e show "s = s' \<and> t = t'" by simp
qed auto

lemma dedup_key_inject:
  assumes "is_int64 (Seq e)" "is_int64 (Seq e')"
  shows "dedup_key e = dedup_key e' \<longleftrightarrow> Node e = Node e' \<and> Seq e = Seq e'"
  using FormatInt_inject [OF assms] append_colon_inject [OF FormatInt_no_colon FormatInt_no_colon]
  by (auto simp: dedup_key_def)



text \<open>
  Events of a restarted node are lost: the duplicate filter knows an event only by its node and
  its sequence number, which starts again from one when the node restarts, so an event of the new
  run is discarded while the filter remembers the one of the old run with the same number, however
  different the two are.
\<close>

theorem bridge_drops_after_restart:
  assumes "unmarshal m = Some ev" "unmarshal m' = Some ev'" "Node ev \<noteq> br_Node b"
    and "Node ev' = Node ev" "Seq ev' = Seq ev"
  shows "map_option fst (runSubscriber unmarshal [m, m'] (Start b)) = Some [ev]"
proof -
  have "dedup_key ev' = dedup_key ev" using assms(4,5) by (simp add: dedup_key_def)
  moreover have "br_Node (Start b) = br_Node b" "0 < br_BufSize (Start b)"
    "br_dedup (Start b) = newLRU (br_BufSize (Start b))"
    by (auto simp: Start_def Let_def)
  ultimately show ?thesis
    using assms by (simp add: subscriber_round_def lru_add_def newLRU_def)
qed

theorem bridge_drops_after_restart_witness:
  "map_option fst (runSubscriber (\<lambda>m. Some \<lparr>Type = m, Node = ''b'', TS = 0, Seq = 1, Payload = []\<rparr>)
     [''client.connected'', ''client.disconnected''] (Start (NewBridge ''a''))) =
   Some [\<lparr>Type = ''client.connected'', Node = ''b'', TS = 0, Seq = 1, Payload = []\<rparr>]"
  by (rule bridge_drops_after_restart
      [where ev' = "\<lparr>Type = ''client.disconnected'', Node = ''b'', TS = 0, Seq = 1, Payload = []\<rparr>"])
    (simp_all add: NewBridge_def)

end
