(* ===== verification/Dashboard.thy ===== *)
theory Dashboard
  imports RedisStore FileStore Account Users Sse
begin

text \<open>
  The assembly of the dashboard, \<open>dashboard/dashboard.go\<close>: defaults and the session secret
  (\<open>applyDefaults\<close>), the credential store, and the table of routes with the wrapper around each
  handler (\<open>Routes\<close>). A handler is named by the function that builds it. Also \<open>decodeSecret\<close> and
  \<open>loadAddonConfig\<close> of the two binaries (\<open>cmd/*/config.go\<close>).
\<close>

section \<open>Base64 with padding\<close>

text \<open>\<open>base64.StdEncoding.DecodeString\<close>: newlines are skipped, the length is a multiple of four.\<close>

definition std_val :: "char \<Rightarrow> nat option" where
  "std_val c = (if c = CHR ''+'' then Some 62 else if c = CHR ''/'' then Some 63
     else if c = CHR ''-'' \<or> c = CHR ''_'' then None else b64_val c)"

definition std_unpad :: "string \<Rightarrow> string" where
  "std_unpad t = (if length t \<ge> 2 \<and> drop (length t - 2) t = ''=='' then take (length t - 2) t
     else if t \<noteq> [] \<and> last t = CHR ''='' then butlast t else t)"

definition StdDecodeString :: "string \<Rightarrow> bytes option" where
  "StdDecodeString s =
     (let t = filter (\<lambda>c. c \<noteq> CHR 0x0A \<and> c \<noteq> CHR 0x0D) s in
      if length t mod 4 \<noteq> 0 then None
      else case those (map std_val (std_unpad t)) of
        None \<Rightarrow> None
      | Some vs \<Rightarrow> map_option (map char_of) (b64_decode_vals vs))"

section \<open>The configuration section of the binaries\<close>

record addonConfig =
  ac_Enabled :: bool
  ac_SessionSecret :: string
  ac_PasswordExpiryDays :: int

definition defaultAddonConfig :: addonConfig where
  "defaultAddonConfig = \<lparr>ac_Enabled = True, ac_SessionSecret = [], ac_PasswordExpiryDays = 0\<rparr>"

datatype config_error = ErrReadConfig | ErrParseConfig

text \<open>
  \<open>file\<close> is what \<open>os.ReadFile\<close> gives, \<open>parse\<close> what the YAML decoder makes of it: \<open>None\<close> for an error,
  \<open>Some None\<close> when there is no \<open>dashboard\<close> section.
\<close>

definition loadAddonConfig ::
  "bytes option \<Rightarrow> (bytes \<Rightarrow> addonConfig option option) \<Rightarrow> string \<Rightarrow> (config_error, addonConfig) result" where
  "loadAddonConfig file parse path =
     (if path = [] then Inr defaultAddonConfig
      else case file of
        None \<Rightarrow> Inl ErrReadConfig
      | Some raw \<Rightarrow>
          (case parse raw of
             None \<Rightarrow> Inl ErrParseConfig
           | Some None \<Rightarrow> Inr defaultAddonConfig
           | Some (Some c) \<Rightarrow> Inr c))"

definition decodeSecret :: "addonConfig \<Rightarrow> bytes option" where
  "decodeSecret c =
     (if ac_SessionSecret c = [] then None
      else case StdDecodeString (ac_SessionSecret c) of
        Some b \<Rightarrow> if length b \<ge> 16 then Some b else Some (ac_SessionSecret c)
      | None \<Rightarrow> Some (ac_SessionSecret c))"

section \<open>Options\<close>

text \<open>
  \<open>op_Redis\<close> is the client, \<open>None\<close> for nil; \<open>op_Secret\<close> is \<open>None\<close> for nil; of the interfaces only
  whether they are nil matters here.
\<close>

record 's Options =
  op_Cluster :: bool
  op_ClusterAgent :: bool
  op_Node :: string
  op_Server :: bool
  op_CredStorePath :: string
  op_Secret :: "bytes option"
  op_SecretPath :: string
  op_PasswordExpiryDays :: int
  op_LockoutThreshold :: int
  op_LockoutWindow :: int
  op_LockoutDuration :: int
  op_SessionTTL :: int
  op_Redis :: "'s redis option"
  op_RegexBackend :: bool

text \<open>
  What starting up reads: the host name, the variable \<open>COMQTT_DASHBOARD_SESSION_SECRET\<close>, random
  bytes (for the secret made here and for the one \<open>EnsureSecret\<close> makes), and whether the directory
  and the file of the secret can be written. \<open>bs_file\<close> is the content of the secret file, \<open>bs_redis\<close>
  the state of redis. A failed write leaves the content \<open>be_torn\<close>.
\<close>

record boot_env =
  be_hostname :: "string option"
  be_env_secret :: string
  be_rand :: "bytes option"
  be_redis_rand :: "bytes option"
  be_mkdir_ok :: bool
  be_write_ok :: bool
  be_torn :: "bytes option"

record 's boot_state =
  bs_file :: "bytes option"
  bs_redis :: 's

datatype boot_error =
    ErrServerRequired
  | ErrSecretRandom
  | ErrSecretDir
  | ErrSecretWrite
  | ErrStore auth_error
  | ErrAddHook

definition hostname :: "boot_env \<Rightarrow> string" where
  "hostname e = (case be_hostname e of Some h \<Rightarrow> h | None \<Rightarrow> ''unknown'')"

text \<open>The assignments before the secret. Durations are nanoseconds.\<close>

definition settings_defaults :: "boot_env \<Rightarrow> 's Options \<Rightarrow> 's Options" where
  "settings_defaults e o1 =
     (let o2 = (if op_Node o1 = [] then o1\<lparr>op_Node := hostname e\<rparr> else o1);
          o3 = (if op_CredStorePath o2 = [] then o2\<lparr>op_CredStorePath := ''./data/dashboard-users.json''\<rparr> else o2);
          o4 = (if op_SecretPath o3 = [] then o3\<lparr>op_SecretPath := ''./data/dashboard-secret''\<rparr> else o3);
          o5 = (if op_PasswordExpiryDays o4 = 0 then o4\<lparr>op_PasswordExpiryDays := 90\<rparr> else o4);
          o6 = (if op_LockoutThreshold o5 = 0 then o5\<lparr>op_LockoutThreshold := 5\<rparr> else o5);
          o7 = (if op_LockoutWindow o6 = 0 then o6\<lparr>op_LockoutWindow := 5 * 60 * 1000000000\<rparr> else o6);
          o8 = (if op_LockoutDuration o7 = 0 then o7\<lparr>op_LockoutDuration := 10 * 60 * 1000000000\<rparr> else o7)
      in if op_SessionTTL o8 = 0 then o8\<lparr>op_SessionTTL := 12 * 3600 * 1000000000\<rparr> else o8)"

text \<open>The local sources of a secret: the environment variable, then the file, then a new one.\<close>

definition local_secret ::
  "boot_env \<Rightarrow> 's boot_state \<Rightarrow> (boot_error, bytes) result \<times> 's boot_state" where
  "local_secret e s =
     (let from_env = (if be_env_secret e = [] then None
            else case StdDecodeString (be_env_secret e) of
              Some b \<Rightarrow> if length b \<ge> 16 then Some b else None | None \<Rightarrow> None);
          from_file = (case bs_file s of Some b \<Rightarrow> if length b \<ge> 16 then Some b else None | None \<Rightarrow> None)
      in case from_env of
           Some b \<Rightarrow> (Inr b, s)
         | None \<Rightarrow>
             (case from_file of
                Some b \<Rightarrow> (Inr b, s)
              | None \<Rightarrow>
                  (case be_rand e of
                     None \<Rightarrow> (Inl ErrSecretRandom, s)
                   | Some secret \<Rightarrow>
                       if \<not> be_mkdir_ok e then (Inl ErrSecretDir, s)
                       else if \<not> be_write_ok e then (Inl ErrSecretWrite, s\<lparr>bs_file := be_torn e\<rparr>)
                       else (Inr secret, s\<lparr>bs_file := Some secret\<rparr>))))"

definition applyDefaults ::
  "boot_env \<Rightarrow> 's Options \<Rightarrow> 's boot_state \<Rightarrow> (boot_error, 's Options) result \<times> 's boot_state" where
  "applyDefaults e opts s =
     (let o1 = settings_defaults e opts in
      if op_Secret o1 \<noteq> None then (Inr o1, s)
      else let (shared, s1) =
             (case op_Redis o1 of
                None \<Rightarrow> (None, s)
              | Some R \<Rightarrow>
                  (case EnsureSecret (Some R) (be_redis_rand e) ''comqtt:dashboard:secret'' (bs_redis s) of
                     (Inr b, r') \<Rightarrow> (if length b \<ge> 16 then Some b else None, s\<lparr>bs_redis := r'\<rparr>)
                   | (Inl _, r') \<Rightarrow> (None, s\<lparr>bs_redis := r'\<rparr>)))
           in case shared of
                Some b \<Rightarrow> (Inr (o1\<lparr>op_Secret := Some b\<rparr>), s1)
              | None \<Rightarrow>
                  (case local_secret e s1 of
                     (Inl err, s2) \<Rightarrow> (Inl err, s2)
                   | (Inr b, s2) \<Rightarrow> (Inr (o1\<lparr>op_Secret := Some b\<rparr>), s2)))"

section \<open>Routes\<close>

datatype guard = Public | Wrap | WrapAdmin

record route =
  rt_Pattern :: string
  rt_Guard :: guard
  rt_Handler :: string

abbreviation rt :: "string \<Rightarrow> guard \<Rightarrow> string \<Rightarrow> route" where
  "rt p g h \<equiv> \<lparr>rt_Pattern = p, rt_Guard = g, rt_Handler = h\<rparr>"

definition base_routes :: "route list" where
  "base_routes =
    [rt ''GET /{$}'' Public ''rootRedirect'',
     rt ''GET /dashboard/login'' Public ''LoginGet'',
     rt ''POST /dashboard/login'' Public ''LoginPost'',
     rt ''POST /dashboard/logout'' Public ''LogoutPost'',
     rt ''GET /dashboard/static/'' Public ''staticHandler'',
     rt ''GET /dashboard/{$}'' Wrap ''OverviewGet'',
     rt ''GET /dashboard/fragments/overview-cards'' Wrap ''OverviewCards'',
     rt ''GET /dashboard/clients'' Wrap ''ClientsList'',
     rt ''GET /dashboard/clients/{id}'' Wrap ''ClientDetail'',
     rt ''POST /dashboard/clients/{id}/subscriptions/{topic}/delete'' WrapAdmin ''ClientUnsubscribe'',
     rt ''GET /dashboard/subscriptions'' Wrap ''SubscriptionsList'',
     rt ''GET /dashboard/topics'' Wrap ''TopicsTree'',
     rt ''GET /dashboard/retained'' Wrap ''RetainedList'',
     rt ''POST /dashboard/retained/{topic}/delete'' WrapAdmin ''RetainedClear'',
     rt ''GET /dashboard/sessions'' Wrap ''SessionsList'',
     rt ''POST /dashboard/sessions/{id}/delete'' WrapAdmin ''SessionsClear'',
     rt ''GET /dashboard/blacklist'' Wrap ''BlacklistGet'',
     rt ''POST /dashboard/blacklist'' WrapAdmin ''BlacklistAdd'',
     rt ''POST /dashboard/blacklist/{id}/delete'' WrapAdmin ''BlacklistRemove'',
     rt ''GET /dashboard/tools'' Wrap ''ToolsGet'',
     rt ''POST /dashboard/tools/publish'' WrapAdmin ''ToolsPublish'',
     rt ''GET /dashboard/settings'' Wrap ''Settings'',
     rt ''GET /dashboard/account'' Wrap ''AccountGet'',
     rt ''GET /dashboard/account/password'' Wrap ''ChangePasswordGet'',
     rt ''POST /dashboard/account/password'' Wrap ''ChangePasswordPost'',
     rt ''GET /dashboard/users'' WrapAdmin ''UsersList'',
     rt ''POST /dashboard/users'' WrapAdmin ''UsersCreate'',
     rt ''POST /dashboard/users/{username}/delete'' WrapAdmin ''UsersDelete'',
     rt ''POST /dashboard/users/{username}/role'' WrapAdmin ''UsersToggleRole'',
     rt ''GET /dashboard/mqtt-auth'' WrapAdmin ''MQTTAuthList'',
     rt ''POST /dashboard/mqtt-auth'' WrapAdmin ''MQTTAuthCreate'',
     rt ''POST /dashboard/mqtt-auth/{subject}/toggle'' WrapAdmin ''MQTTAuthToggle'',
     rt ''POST /dashboard/mqtt-auth/{subject}/delete'' WrapAdmin ''MQTTAuthDelete'',
     rt ''GET /dashboard/mqtt-acl'' WrapAdmin ''MQTTACLList'',
     rt ''POST /dashboard/mqtt-acl'' WrapAdmin ''MQTTACLCreate'',
     rt ''POST /dashboard/mqtt-acl/{id}/delete'' WrapAdmin ''MQTTACLDelete'',
     rt ''GET /dashboard/events'' Wrap ''Events'']"

definition regex_routes :: "route list" where
  "regex_routes =
    [rt ''GET /dashboard/mqtt-acl-regex'' WrapAdmin ''MQTTACLRegexList'',
     rt ''POST /dashboard/mqtt-acl-regex'' WrapAdmin ''MQTTACLRegexCreate'',
     rt ''POST /dashboard/mqtt-acl-regex/{id}'' WrapAdmin ''MQTTACLRegexUpdate'',
     rt ''POST /dashboard/mqtt-acl-regex/{id}/delete'' WrapAdmin ''MQTTACLRegexDelete'',
     rt ''POST /dashboard/mqtt-acl-regex/{id}/up'' WrapAdmin ''MQTTACLRegexReorder up'',
     rt ''POST /dashboard/mqtt-acl-regex/{id}/down'' WrapAdmin ''MQTTACLRegexReorder down'']"

definition route_table :: "'s Options \<Rightarrow> route list" where
  "route_table opts = base_routes
     @ (if op_Cluster opts \<and> op_ClusterAgent opts then [rt ''GET /dashboard/cluster'' Wrap ''ClusterPage''] else [])
     @ (if op_RegexBackend opts then regex_routes else [])"

text \<open>The store \<open>Routes\<close> ends up with.\<close>

datatype ('c, 's) chosen_store = GivenStore 'c | RedisChosen "'s RedisStore" | FileChosen FileStore

text \<open>
  \<open>given\<close> is \<open>opts.Store\<close>. \<open>doc\<close>, \<open>w\<close> and \<open>dir_ok\<close> are the account file and what happens to it; the string is
  the password that is printed, empty when nothing was seeded.
\<close>

definition open_store ::
  "auth_env \<Rightarrow> (User \<Rightarrow> bytes) \<Rightarrow> 'c option \<Rightarrow> bool \<Rightarrow> file_doc \<Rightarrow> write_outcome \<Rightarrow> 's Options \<Rightarrow> 's boot_state
     \<Rightarrow> (boot_error, ('c, 's) chosen_store \<times> string) result \<times> 's boot_state" where
  "open_store a enc given dir_ok doc w opts s =
     (case given of
        Some c \<Rightarrow> (Inr (GivenStore c, []), s)
      | None \<Rightarrow>
          (case op_Redis opts of
             Some R \<Rightarrow>
               let r = NewRedisStore R ''comqtt:dashboard'' in
               (case rs_Seed r enc a ''admin'' (bs_redis s) of
                  (Inl err, s') \<Rightarrow> (Inl (ErrStore err), s\<lparr>bs_redis := s'\<rparr>)
                | (Inr pw, s') \<Rightarrow> (Inr (RedisChosen r, pw), s\<lparr>bs_redis := s'\<rparr>))
           | None \<Rightarrow>
               (case NewFileStore dir_ok (op_CredStorePath opts) doc w of
                  Inl err \<Rightarrow> (Inl (ErrStore err), s)
                | Inr f \<Rightarrow>
                    (case fs_Seed a ''admin'' f of
                       (Inl err, f') \<Rightarrow> (Inl (ErrStore err), s)
                     | (Inr pw, f') \<Rightarrow> (Inr (FileChosen f', pw), s)))))"

record ('c, 's) dashboard =
  db_Options :: "'s Options"
  db_Store :: "('c, 's) chosen_store"
  db_Printed :: string
  db_Lockout :: Lockout
  db_Hub :: Hub
  db_Bridge :: "Bridge option"
  db_Routes :: "route list"

definition Routes ::
  "boot_env \<Rightarrow> auth_env \<Rightarrow> (User \<Rightarrow> bytes) \<Rightarrow> 'c option \<Rightarrow> bool \<Rightarrow> file_doc \<Rightarrow> write_outcome \<Rightarrow> bool
     \<Rightarrow> 's Options \<Rightarrow> 's boot_state \<Rightarrow> (boot_error, ('c, 's) dashboard) result \<times> 's boot_state" where
  "Routes e a enc given dir_ok doc w hook_ok opts s =
     (if \<not> op_Server opts then (Inl ErrServerRequired, s)
      else case applyDefaults e opts s of
        (Inl err, s1) \<Rightarrow> (Inl err, s1)
      | (Inr o1, s1) \<Rightarrow>
          (case open_store a enc given dir_ok doc w o1 s1 of
             (Inl err, s2) \<Rightarrow> (Inl err, s2)
           | (Inr (store, pw), s2) \<Rightarrow>
               if \<not> hook_ok then (Inl ErrAddHook, s2)
               else (Inr \<lparr>db_Options = o1, db_Store = store, db_Printed = pw,
                 db_Lockout = NewLockout \<lparr>Threshold = op_LockoutThreshold o1, Window = op_LockoutWindow o1,
                   Duration = op_LockoutDuration o1\<rparr>,
                 db_Hub = NewHub 1024,
                 db_Bridge = (case op_Redis o1 of None \<Rightarrow> None | Some _ \<Rightarrow> Some (Start (NewBridge (op_Node o1)))),
                 db_Routes = route_table o1\<rparr>, s2)))"

text \<open>
  The wrappers: \<open>Inl\<close> is the response of a wrapper that refuses, \<open>Inr\<close> the result of the handler. The
  context of a fresh request is empty.
\<close>

definition wrap ::
  "session_ctx \<Rightarrow> 's CredStore \<Rightarrow> int \<Rightarrow> int \<Rightarrow> 's \<Rightarrow> string \<Rightarrow> string option \<Rightarrow> (ctx \<Rightarrow> 'r) \<Rightarrow> unit response + 'r" where
  "wrap sc S days tm store path cookie h =
     (case RequireAuth sc S days tm store path cookie None of Refuse r \<Rightarrow> Inl r | Admit c \<Rightarrow> Inr (h c))"

definition wrapAdmin ::
  "session_ctx \<Rightarrow> 's CredStore \<Rightarrow> int \<Rightarrow> int \<Rightarrow> 's \<Rightarrow> string \<Rightarrow> string option \<Rightarrow> (ctx \<Rightarrow> 'r) \<Rightarrow> unit response + 'r" where
  "wrapAdmin sc S days tm store path cookie h =
     (case RequireAuth sc S days tm store path cookie None of
        Refuse r \<Rightarrow> Inl r
      | Admit c \<Rightarrow> (case RequireRole RoleAdmin c of Refuse r \<Rightarrow> Inl r | Admit c' \<Rightarrow> Inr (h c')))"

definition rootRedirect :: "unit response" where
  "rootRedirect = Redirect StatusFound ''/dashboard/''"

section \<open>Which requests a pattern matches\<close>

text \<open>
  The patterns of \<open>net/http\<close>: a method, a space and a path whose segments are literals, wildcards in
  braces (one non-empty segment), \<open>{$}\<close> (the end after a slash) or, after a final slash, anything. A
  request path is the list of its unescaped segments.
\<close>

definition pat_segs :: "string \<Rightarrow> string list" where
  "pat_segs p = tl (Split (CHR ''/'') (dropWhile (\<lambda>c. c \<noteq> CHR ''/'') p))"

definition pat_method :: "string \<Rightarrow> string" where
  "pat_method p = takeWhile (\<lambda>c. c \<noteq> CHR '' '') p"

definition is_wild :: "string \<Rightarrow> bool" where
  "is_wild seg \<longleftrightarrow> HasPrefix seg ''{'' \<and> seg \<noteq> ''{$}''"

fun match_segs :: "string list \<Rightarrow> string list \<Rightarrow> bool" where
  "match_segs [] [] = True"
| "match_segs (p # ps) (s # ss) =
     (if p = ''{$}'' then s = [] \<and> ss = []
      else if p = [] \<and> ps = [] then True
      else (if is_wild p then s \<noteq> [] else p = s) \<and> match_segs ps ss)"
| "match_segs _ _ = False"

definition path_of :: "string list \<Rightarrow> string" where
  "path_of segs = concat (map ((#) (CHR ''/'')) segs)"

text \<open>What makes a guarded pattern safe: its second segment is a literal that is not exempt.\<close>

definition guarded_pattern :: "string \<Rightarrow> bool" where
  "guarded_pattern p = (case pat_segs p of
     d # l # ls \<Rightarrow> d = ''dashboard'' \<and> (l = ''{$}'' \<or> l \<noteq> [] \<and> \<not> is_wild l \<and> CHR ''/'' \<notin> set l
       \<and> \<not> HasPrefix l ''login'' \<and> \<not> HasPrefix l ''logout'' \<and> l \<noteq> ''static'')
   | _ \<Rightarrow> False)"

lemma HasPrefix_seg:
  assumes "HasPrefix (l @ path_of ss) w" "CHR ''/'' \<notin> set w"
  shows "HasPrefix l w"
  using assms
proof (induction w arbitrary: l)
  case (Cons c w)
  then show ?case by (cases l; cases ss) (auto simp: path_of_def)
qed simp

lemma guarded_not_exempt:
  assumes "guarded_pattern p" "match_segs (pat_segs p) segs"
  shows "\<not> isExempt (path_of segs)"
proof -
  obtain l ls where p: "pat_segs p = ''dashboard'' # l # ls" using assms(1)
    by (auto simp: guarded_pattern_def split: list.splits)
  obtain s ss where segs: "segs = ''dashboard'' # s # ss" and s: "if l = ''{$}'' then s = [] \<and> ss = [] else s = l"
    using assms p
    by (cases segs; cases "tl segs") (auto simp: guarded_pattern_def is_wild_def split: if_splits)
  have "path_of segs = ''/dashboard/'' @ s @ path_of ss" by (simp add: segs path_of_def)
  moreover have "\<not> HasPrefix (s @ path_of ss) ''login''" "\<not> HasPrefix (s @ path_of ss) ''logout''"
    using HasPrefix_seg [of s ss "''login''"] HasPrefix_seg [of s ss "''logout''"] s assms(1) p
    by (auto simp: guarded_pattern_def split: if_splits)
  moreover have "\<not> HasPrefix (s @ path_of ss) ''static/''"
  proof
    assume h: "HasPrefix (s @ path_of ss) ''static/''"
    then have "HasPrefix (s @ path_of ss) ''static''" by (auto simp: HasPrefix_iff)
    then have "HasPrefix s ''static''" by (rule HasPrefix_seg) simp
    then obtain t where t: "s = ''static'' @ t" by (auto simp: HasPrefix_iff)
    with h have "HasPrefix (t @ path_of ss) ''/''" by simp
    with t s assms(1) p show False
      by (cases t) (auto simp: guarded_pattern_def split: if_splits)
  qed
  ultimately show ?thesis by (simp add: isExempt_def)
qed

lemma table_guarded:
  "list_all (\<lambda>r. rt_Guard r = Public \<or> guarded_pattern (rt_Pattern r))
     (base_routes @ rt ''GET /dashboard/cluster'' Wrap ''ClusterPage'' # regex_routes)"
  by code_simp

lemma table_posts:
  "list_all (\<lambda>r. pat_method (rt_Pattern r) = ''POST'' \<longrightarrow> rt_Guard r = WrapAdmin
       \<or> rt_Handler r \<in> {''LoginPost'', ''LogoutPost'', ''ChangePasswordPost''})
     (base_routes @ rt ''GET /dashboard/cluster'' Wrap ''ClusterPage'' # regex_routes)
   \<and> list_all (\<lambda>r. rt_Guard r = Public \<longrightarrow>
       rt_Handler r \<in> {''rootRedirect'', ''LoginGet'', ''LoginPost'', ''LogoutPost'', ''staticHandler''})
     (base_routes @ rt ''GET /dashboard/cluster'' Wrap ''ClusterPage'' # regex_routes)"
  by code_simp

lemma route_table_subset:
  "set (route_table opts) \<subseteq> set (base_routes @ rt ''GET /dashboard/cluster'' Wrap ''ClusterPage'' # regex_routes)"
  by (auto simp: route_table_def)

section \<open>Properties\<close>

lemma wrap_runs:
  assumes "\<not> isExempt path"
  shows "wrap sc S days tm store path cookie h = Inr x \<longleftrightarrow>
     (\<exists>v p u. cookie = Some v \<and> Verify (sc_hmac sc) (sc_unmarshal sc) (Unix tm) (sc_secret sc) v = Inr p
        \<and> GetUser S (spUsername p) store = Inr u \<and> policy_allows days tm path u \<and> x = h (Some u))"
proof -
  have "wrap sc S days tm store path cookie h = Inr x \<longleftrightarrow>
      (\<exists>c. RequireAuth sc S days tm store path cookie None = Admit c \<and> x = h c)"
    by (auto simp: wrap_def split: decision.splits)
  then show ?thesis using assms unfolding RequireAuth_Admit by auto
qed

lemma RequireRole_case:
  "(case RequireRole RoleAdmin c of Refuse r \<Rightarrow> Inl r | Admit c' \<Rightarrow> Inr (h c')) = Inr x \<longleftrightarrow>
     RequireRole RoleAdmin c = Admit c \<and> x = h c"
proof (cases "RequireRole RoleAdmin c")
  case (Admit c')
  moreover from this have "c' = c" by (simp only: RequireRole_Admin_Admit)
  ultimately show ?thesis by auto
qed simp

lemma wrapAdmin_runs:
  assumes "\<not> isExempt path"
  shows "wrapAdmin sc S days tm store path cookie h = Inr x \<longleftrightarrow>
     (\<exists>v p u. cookie = Some v \<and> Verify (sc_hmac sc) (sc_unmarshal sc) (Unix tm) (sc_secret sc) v = Inr p
        \<and> GetUser S (spUsername p) store = Inr u \<and> Role u = RoleAdmin \<and> policy_allows days tm path u
        \<and> x = h (Some u))"
proof -
  have "wrapAdmin sc S days tm store path cookie h = Inr x \<longleftrightarrow>
      (\<exists>c. RequireAuth sc S days tm store path cookie None = Admit c \<and> RequireRole RoleAdmin c = Admit c \<and> x = h c)"
    by (cases "RequireAuth sc S days tm store path cookie None") (simp_all add: wrapAdmin_def RequireRole_case)
  then show ?thesis using assms unfolding RequireAuth_Admit RequireRole_Admin_Admit by auto
qed

text \<open>
  C1. Nothing behind the wrappers runs unauthorized. For every configuration, every entry of the route
  table and every request path its pattern matches, whatever the wildcards hold: the handler of an
  admin-only entry runs exactly when the request carries a cookie that verifies, the account it
  names is in the store at that moment with the role admin, and the password policy lets it pass,
  and it runs as that account; the handler of an authenticated entry likewise without the role.
  The entries outside the wrappers are the five public ones, and the only POST entries that are not
  admin-only are login, logout and the change of one's own password.
\<close>

theorem routes_authorized:
  assumes "r \<in> set (route_table opts)" "match_segs (pat_segs (rt_Pattern r)) segs"
  shows "(rt_Guard r = WrapAdmin \<longrightarrow> (\<forall>x. wrapAdmin sc S days tm store (path_of segs) cookie h = Inr x \<longleftrightarrow>
       (\<exists>v p u. cookie = Some v \<and> Verify (sc_hmac sc) (sc_unmarshal sc) (Unix tm) (sc_secret sc) v = Inr p
          \<and> GetUser S (spUsername p) store = Inr u \<and> Role u = RoleAdmin
          \<and> policy_allows days tm (path_of segs) u \<and> x = h (Some u))))
    \<and> (rt_Guard r = Wrap \<longrightarrow> (\<forall>x. wrap sc S days tm store (path_of segs) cookie h = Inr x \<longleftrightarrow>
       (\<exists>v p u. cookie = Some v \<and> Verify (sc_hmac sc) (sc_unmarshal sc) (Unix tm) (sc_secret sc) v = Inr p
          \<and> GetUser S (spUsername p) store = Inr u \<and> policy_allows days tm (path_of segs) u \<and> x = h (Some u))))
    \<and> (rt_Guard r = Public \<longrightarrow>
         rt_Handler r \<in> {''rootRedirect'', ''LoginGet'', ''LoginPost'', ''LogoutPost'', ''staticHandler''})
    \<and> (pat_method (rt_Pattern r) = ''POST'' \<longrightarrow> rt_Guard r = WrapAdmin
         \<or> rt_Handler r \<in> {''LoginPost'', ''LogoutPost'', ''ChangePasswordPost''})"
proof -
  have r: "r \<in> set (base_routes @ rt ''GET /dashboard/cluster'' Wrap ''ClusterPage'' # regex_routes)"
    using assms(1) route_table_subset by blast
  have g: "rt_Guard r = Public \<or> \<not> isExempt (path_of segs)"
    using bspec [OF table_guarded [unfolded list_all_iff] r] guarded_not_exempt [OF _ assms(2)] by blast
  note posts = table_posts [unfolded list_all_iff, THEN conjunct1, THEN bspec, OF r]
    table_posts [unfolded list_all_iff, THEN conjunct2, THEN bspec, OF r]
  show ?thesis using g posts
    by (cases "rt_Guard r") (simp_all only: wrap_runs wrapAdmin_runs guard.distinct simp_thms)
qed

definition demo_options :: "unit Options" where
  "demo_options = \<lparr>op_Cluster = False, op_ClusterAgent = False, op_Node = [], op_Server = True,
     op_CredStorePath = [], op_Secret = None, op_SecretPath = [], op_PasswordExpiryDays = 0,
     op_LockoutThreshold = 0, op_LockoutWindow = 0, op_LockoutDuration = 0, op_SessionTTL = 0,
     op_Redis = None, op_RegexBackend = False\<rparr>"

definition demo_session :: session_ctx where
  "demo_session = \<lparr>sc_hmac = (\<lambda>k m. k @ m), sc_marshal = (\<lambda>p. Some (spUsername p)),
     sc_unmarshal = (\<lambda>b. Some \<lparr>spUsername = b, spRole = [], Exp = 0, Nonce = []\<rparr>), sc_secret = ''key''\<rparr>"

theorem routes_authorized_witness:
  "\<not> (\<exists>x. wrapAdmin demo_session FileStore_ops 90 0 (demo_store []) (path_of [''dashboard'', ''users'', ''bob'', ''delete''])
       None (\<lambda>c. c) = Inr x)"
proof -
  let ?r = "rt ''POST /dashboard/users/{username}/delete'' WrapAdmin ''UsersDelete''"
  have "?r \<in> set (route_table demo_options)" by (simp add: route_table_def base_routes_def)
  moreover have "match_segs (pat_segs (rt_Pattern ?r)) [''dashboard'', ''users'', ''bob'', ''delete'']"
    by (simp add: pat_segs_def is_wild_def)
  ultimately show ?thesis using routes_authorized [of ?r demo_options] by (metis (no_types, lifting) option.distinct(1) route.select_convs(2))
qed



text \<open>
  The settings after the defaults: an expiry of zero days, documented as "never", becomes ninety.
\<close>

lemma expiry_never_zero: "op_PasswordExpiryDays (settings_defaults e opts) =
    (if op_PasswordExpiryDays opts = 0 then 90 else op_PasswordExpiryDays opts)"
  by (simp add: settings_defaults_def Let_def)

end
