(* ===== verification/Html.thy ===== *)
theory Html
  imports Prelude
begin

text \<open>
  Text that the code writes as HTML or SVG itself: escaping (\<open>html.EscapeString\<close>), elements with
  their attributes, and two readings of such a text, as the characters a browser shows and as the
  sequence of its elements. \<open>Events\<close> and \<open>Topology\<close> rest on it.
\<close>

section \<open>Escaping\<close>

text \<open>\<open>html.EscapeString\<close> of the standard library: one pass, five characters.\<close>

definition escape_char :: "char \<Rightarrow> string" where
  "escape_char c =
     (if c = CHR ''&'' then ''&amp;''
      else if c = CHR 39 then ''&#39;''
      else if c = CHR ''<'' then ''&lt;''
      else if c = CHR ''>'' then ''&gt;''
      else if c = CHR 34 then ''&#34;''
      else [c])"

definition EscapeString :: "string \<Rightarrow> string" where
  "EscapeString s = concat (map escape_char s)"

abbreviation dq :: string where
  "dq \<equiv> [CHR 34]"

section \<open>The text a browser shows\<close>

text \<open>
  The text a browser shows for a fragment of HTML: what lies outside tags, with character references
  decoded; inside a tag a double quote starts an attribute value, in which \<open>>\<close> does not end the tag.
\<close>

datatype html_mode = InText | InRef string | InTag | InValue

definition char_ref :: "string \<Rightarrow> string" where
  "char_ref r =
     (if r = ''amp'' then ''&'' else if r = ''#39'' then [CHR 39] else if r = ''lt'' then ''<''
      else if r = ''gt'' then ''>'' else if r = ''#34'' then dq else ''&'' @ r @ '';'')"

fun html_text :: "html_mode \<Rightarrow> string \<Rightarrow> string" where
  "html_text m [] = []"
| "html_text InText (c # s) =
     (if c = CHR ''<'' then html_text InTag s
      else if c = CHR ''&'' then html_text (InRef []) s
      else c # html_text InText s)"
| "html_text (InRef r) (c # s) =
     (if c = CHR '';'' then char_ref r @ html_text InText s else html_text (InRef (r @ [c])) s)"
| "html_text InTag (c # s) =
     (if c = CHR ''>'' then html_text InText s
      else if c = CHR 34 then html_text InValue s
      else html_text InTag s)"
| "html_text InValue (c # s) = (if c = CHR 34 then html_text InTag s else html_text InValue s)"

lemma html_text_escape_char: "html_text InText (escape_char c @ s) = c # html_text InText s"
  by (simp add: escape_char_def char_ref_def)

lemma html_text_EscapeString [simp]: "html_text InText (EscapeString s @ t) = s @ html_text InText t"
  by (induction s) (simp_all add: EscapeString_def html_text_escape_char)

lemma html_value_skip: "CHR 34 \<notin> set s \<Longrightarrow> html_text InValue (s @ t) = html_text InValue t"
  by (induction s) auto

lemma EscapeString_no_markup:
  "c \<in> {CHR ''<'', CHR ''>'', CHR 34, CHR 39} \<Longrightarrow> c \<notin> set (EscapeString s)"
  by (auto simp: EscapeString_def escape_char_def split: if_splits)

lemma FormatInt_chars: "c \<in> set (FormatInt v) \<Longrightarrow> is_digit c \<or> c = CHR ''-''"
  using nat_digits_digits [of "nat \<bar>v\<bar>"]
  by (auto simp: FormatInt_def list_all_iff split: if_splits)

lemma html_value_EscapeString [simp]: "html_text InValue (EscapeString s @ t) = html_text InValue t"
  by (simp add: html_value_skip EscapeString_no_markup)

lemma html_value_FormatInt [simp]: "html_text InValue (FormatInt v @ t) = html_text InValue t"
  by (rule html_value_skip) (auto dest: FormatInt_chars simp: is_digit_def)

section \<open>Elements\<close>

text \<open>
  A start tag is its name and its attributes, in the code's order; an empty element ends with a slash.
\<close>

definition attrs :: "(string \<times> string) list \<Rightarrow> string" where
  "attrs as = concat (map (\<lambda>(n, v). '' '' @ n @ ''='' @ dq @ v @ dq) as)"

definition open_tag :: "string \<Rightarrow> (string \<times> string) list \<Rightarrow> string" where
  "open_tag n as = ''<'' @ n @ attrs as @ ''>''"

definition empty_tag :: "string \<Rightarrow> (string \<times> string) list \<Rightarrow> string" where
  "empty_tag n as = ''<'' @ n @ attrs as @ ''/>''"

definition close_tag :: "string \<Rightarrow> string" where
  "close_tag n = ''</'' @ n @ ''>''"

text \<open>
  The elements of a text, by name and in order, an end tag with its slash: the same four modes, the
  name of the current tag being collected up to the first space.
\<close>

datatype tag_mode = Outside | Naming string | Inside | Quoted

fun tag_names :: "tag_mode \<Rightarrow> string \<Rightarrow> string list" where
  "tag_names m [] = []"
| "tag_names Outside (c # s) = (if c = CHR ''<'' then tag_names (Naming []) s else tag_names Outside s)"
| "tag_names (Naming n) (c # s) =
     (if c = CHR ''>'' then n # tag_names Outside s
      else if c = CHR 32 then n # tag_names Inside s
      else tag_names (Naming (n @ [c])) s)"
| "tag_names Inside (c # s) =
     (if c = CHR ''>'' then tag_names Outside s
      else if c = CHR 34 then tag_names Quoted s
      else tag_names Inside s)"
| "tag_names Quoted (c # s) = (if c = CHR 34 then tag_names Inside s else tag_names Quoted s)"

text \<open>Names without the characters that end them, values without a double quote.\<close>

definition plain_name :: "string \<Rightarrow> bool" where
  "plain_name n \<longleftrightarrow> (\<forall>c \<in> set n. c \<noteq> CHR ''>'' \<and> c \<noteq> CHR 34 \<and> c \<noteq> CHR 32)"

definition plain_attrs :: "(string \<times> string) list \<Rightarrow> bool" where
  "plain_attrs as \<longleftrightarrow> (\<forall>(n, v) \<in> set as. plain_name n \<and> CHR 34 \<notin> set v)"

lemma plain_name_simps [simp]:
  "plain_name []" "plain_name (c # n) \<longleftrightarrow> c \<noteq> CHR ''>'' \<and> c \<noteq> CHR 34 \<and> c \<noteq> CHR 32 \<and> plain_name n"
  by (auto simp: plain_name_def)

lemma plain_attrs_simps [simp]:
  "plain_attrs []" "plain_attrs ((n, v) # as) \<longleftrightarrow> plain_name n \<and> CHR 34 \<notin> set v \<and> plain_attrs as"
  by (auto simp: plain_attrs_def)

lemma html_text_name: "plain_name n \<Longrightarrow> html_text InTag (n @ s) = html_text InTag s"
  by (induction n) simp_all

lemma html_text_attrs: "plain_attrs as \<Longrightarrow> html_text InTag (attrs as @ s) = html_text InTag s"
proof (induction as)
  case (Cons a as)
  obtain n v where a: "a = (n, v)" by (cases a)
  with Cons have "plain_name n" "CHR 34 \<notin> set v" "plain_attrs as" by simp_all
  then show ?case using Cons.IH by (simp add: a attrs_def html_text_name html_value_skip)
qed (simp add: attrs_def)

lemma html_text_tags [simp]:
  "plain_name n \<Longrightarrow> plain_attrs as \<Longrightarrow> html_text InText (open_tag n as @ s) = html_text InText s"
  "plain_name n \<Longrightarrow> plain_attrs as \<Longrightarrow> html_text InText (empty_tag n as @ s) = html_text InText s"
  "plain_name n \<Longrightarrow> html_text InText (close_tag n @ s) = html_text InText s"
  by (simp_all add: open_tag_def empty_tag_def close_tag_def html_text_name html_text_attrs)

lemma tag_names_quoted: "CHR 34 \<notin> set v \<Longrightarrow> tag_names Quoted (v @ dq @ s) = tag_names Inside s"
  by (induction v) auto

lemma tag_names_inside: "plain_name n \<Longrightarrow> tag_names Inside (n @ s) = tag_names Inside s"
  by (induction n) simp_all

lemma tag_names_attrs: "plain_attrs as \<Longrightarrow> tag_names Inside (attrs as @ s) = tag_names Inside s"
proof (induction as)
  case (Cons a as)
  obtain n v where a: "a = (n, v)" by (cases a)
  with Cons have "plain_name n" "CHR 34 \<notin> set v" "plain_attrs as" by simp_all
  then show ?case using Cons.IH tag_names_quoted [of v "attrs as @ s"] by (simp add: a attrs_def tag_names_inside)
qed (simp add: attrs_def)

lemma tag_names_naming: "plain_name n \<Longrightarrow> tag_names (Naming m) (n @ s) = tag_names (Naming (m @ n)) s"
  by (induction n arbitrary: m) simp_all

lemma tag_names_naming_attrs:
  assumes "plain_attrs as" "as \<noteq> []"
  shows "tag_names (Naming n) (attrs as @ s) = n # tag_names Inside s"
proof -
  obtain k v as' where as: "as = (k, v) # as'" using assms(2) by (cases as) auto
  have "tag_names (Naming n) (attrs as @ s) = n # tag_names Inside (attrs as @ s)" by (simp add: as attrs_def)
  then show ?thesis using tag_names_attrs [OF assms(1)] by simp
qed

text \<open>An element with attributes counts as one tag, whatever its values hold.\<close>

lemma tag_names_tags [simp]:
  "plain_name n \<Longrightarrow> plain_attrs as \<Longrightarrow> as \<noteq> [] \<Longrightarrow> tag_names Outside (open_tag n as @ s) = n # tag_names Outside s"
  "plain_name n \<Longrightarrow> plain_attrs as \<Longrightarrow> as \<noteq> [] \<Longrightarrow> tag_names Outside (empty_tag n as @ s) = n # tag_names Outside s"
  "plain_name n \<Longrightarrow> tag_names Outside (close_tag n @ s) = (CHR ''/'' # n) # tag_names Outside s"
  by (simp_all add: open_tag_def empty_tag_def close_tag_def tag_names_naming tag_names_naming_attrs)

lemma tag_names_text: "CHR ''<'' \<notin> set t \<Longrightarrow> tag_names Outside (t @ s) = tag_names Outside s"
  by (induction t) auto

lemma tag_names_EscapeString [simp]: "tag_names Outside (EscapeString t @ s) = tag_names Outside s"
  by (simp add: tag_names_text EscapeString_no_markup)

end
