(* ===== verification/Writer.thy ===== *)
theory Writer
  imports Http Html
begin

text \<open>
  The response writer of \<open>net/http\<close> that the handlers write to, and the JSON helpers of
  \<open>rest/http.go\<close>. The header a client gets is the one at the first \<open>WriteHeader\<close> (explicit, or made by
  the first \<open>Write\<close>): what is set later is lost, and a second \<open>WriteHeader\<close> does nothing.
\<close>

section \<open>The writer\<close>

record writer =
  wr_Header :: "string \<rightharpoonup> string"
  wr_Sent :: "(nat \<times> (string \<rightharpoonup> string)) option"
  wr_Body :: bytes

definition new_writer :: writer where
  "new_writer = \<lparr>wr_Header = Map.empty, wr_Sent = None, wr_Body = []\<rparr>"

definition SetHeader :: "string \<Rightarrow> string \<Rightarrow> writer \<Rightarrow> writer" where
  "SetHeader k v w = w\<lparr>wr_Header := (wr_Header w)(k \<mapsto> v)\<rparr>"

definition WriteHeader :: "nat \<Rightarrow> writer \<Rightarrow> writer" where
  "WriteHeader code w = (if wr_Sent w = None then w\<lparr>wr_Sent := Some (code, wr_Header w)\<rparr> else w)"

definition WriteBody :: "bytes \<Rightarrow> writer \<Rightarrow> writer" where
  "WriteBody b w = (let w1 = WriteHeader StatusOK w in w1\<lparr>wr_Body := wr_Body w1 @ b\<rparr>)"

abbreviation newline :: string where
  "newline \<equiv> [CHR 0x0A]"

abbreviation ContentType :: string where
  "ContentType \<equiv> ''Content-Type''"

text \<open>\<open>http.Error\<close>.\<close>

definition http_Error :: "string \<Rightarrow> nat \<Rightarrow> writer \<Rightarrow> writer" where
  "http_Error msg code w =
     WriteBody (msg @ newline) (WriteHeader code
       (SetHeader ''X-Content-Type-Options'' ''nosniff'' (SetHeader ContentType ''text/plain; charset=utf-8'' w)))"

text \<open>What the client gets when the handler has returned; a \<open>Content-Type\<close> that was not sent is guessed by the server.\<close>

definition reply_status :: "writer \<Rightarrow> nat" where
  "reply_status w = (case wr_Sent w of None \<Rightarrow> StatusOK | Some (code, _) \<Rightarrow> code)"

definition reply_type :: "writer \<Rightarrow> string option" where
  "reply_type w = (case wr_Sent w of None \<Rightarrow> wr_Header w ContentType | Some (_, h) \<Rightarrow> h ContentType)"

lemma reply_new [simp]: "wr_Sent new_writer = None" "wr_Body new_writer = []" "wr_Header new_writer = Map.empty"
  by (simp_all add: new_writer_def)

lemma SetHeader_simps [simp]:
  "wr_Sent (SetHeader k v w) = wr_Sent w" "wr_Body (SetHeader k v w) = wr_Body w"
  "wr_Header (SetHeader k v w) = (wr_Header w)(k \<mapsto> v)"
  by (simp_all add: SetHeader_def)

lemma WriteHeader_simps [simp]:
  "wr_Body (WriteHeader code w) = wr_Body w" "wr_Header (WriteHeader code w) = wr_Header w"
  "wr_Sent (WriteHeader code w) = (if wr_Sent w = None then Some (code, wr_Header w) else wr_Sent w)"
  by (simp_all add: WriteHeader_def)

lemma WriteBody_simps [simp]:
  "wr_Body (WriteBody b w) = wr_Body w @ b" "wr_Header (WriteBody b w) = wr_Header w"
  "wr_Sent (WriteBody b w) = (if wr_Sent w = None then Some (StatusOK, wr_Header w) else wr_Sent w)"
  by (simp_all add: WriteBody_def Let_def)

text \<open>The first status is final.\<close>

lemma status_kept:
  assumes "wr_Sent w = Some (c, h)"
  shows "reply_status (WriteBody b w) = c" "reply_status (WriteHeader c' w) = c" "reply_status (SetHeader k v w) = c"
    "reply_status (http_Error msg c' w) = c"
  using assms by (simp_all add: reply_status_def http_Error_def)

lemma http_Error_reply:
  assumes "wr_Sent w = None" "wr_Body w = []"
  shows "reply_status (http_Error msg code w) = code" "wr_Body (http_Error msg code w) = msg @ newline"
    "reply_type (http_Error msg code w) = Some ''text/plain; charset=utf-8''"
  using assms by (simp_all add: reply_status_def reply_type_def http_Error_def)

section \<open>JSON answers\<close>

text \<open>
  \<open>json.NewEncoder(w).Encode(data)\<close>: one write of the text and a newline, or an error and no write.
\<close>

definition Encode :: "('d \<Rightarrow> bytes option) \<Rightarrow> 'd \<Rightarrow> writer \<Rightarrow> bool \<times> writer" where
  "Encode marshal data w = (case marshal data of None \<Rightarrow> (False, w) | Some b \<Rightarrow> (True, WriteBody (b @ newline) w))"

definition Ok :: "('d \<Rightarrow> bytes option) \<Rightarrow> 'd \<Rightarrow> writer \<Rightarrow> writer" where
  "Ok marshal data w =
     (let w1 = WriteHeader StatusOK (SetHeader ContentType ''application/json'' w)
      in case Encode marshal data w1 of (ok, w2) \<Rightarrow> if ok then w2 else WriteHeader StatusInternalServerError w2)"

definition Error :: "(string \<Rightarrow> bytes option) \<Rightarrow> nat \<Rightarrow> string \<Rightarrow> writer \<Rightarrow> writer" where
  "Error marshal code err w =
     (let w1 = WriteHeader code (SetHeader ContentType ''application/json'' w)
      in case Encode marshal err w1 of (ok, w2) \<Rightarrow> if ok then w2 else WriteHeader StatusInternalServerError w2)"

text \<open>
  What the REST interface answers. On a fresh response \<open>Ok\<close> answers 200 and \<open>Error\<close> its code, both
  as JSON, with one line that is the encoding of the data. When the encoder fails, the status has
  been sent already: the 500 that both functions write then is dropped, and the client gets the
  status of the success with an empty body.
\<close>

theorem rest_replies:
  "reply_status (Ok marshal data new_writer) = StatusOK
   \<and> reply_status (Error marshal' code err new_writer) = code
   \<and> reply_type (Ok marshal data new_writer) = Some ''application/json''
   \<and> reply_type (Error marshal' code err new_writer) = Some ''application/json''
   \<and> wr_Body (Ok marshal data new_writer) = (case marshal data of None \<Rightarrow> [] | Some b \<Rightarrow> b @ newline)
   \<and> wr_Body (Error marshal' code err new_writer) = (case marshal' err of None \<Rightarrow> [] | Some b \<Rightarrow> b @ newline)"
  by (simp add: Ok_def Error_def Encode_def Let_def reply_status_def reply_type_def split: option.split)

end
