(* ===== verification/Templates.thy ===== *)
theory Templates
  imports Writer
begin

text \<open>
  The page renderer, \<open>dashboard/handlers/templates.go\<close>: how it finds the files of the embedded
  \<open>templates\<close> directory, which file it takes for a page name, what it parses into the page's tree, and
  what it writes. \<open>html/template\<close> is a parameter: a tree is made, texts are parsed into it, and a named
  block is executed. Strings in error texts are those of \<open>Error()\<close>.
\<close>

section \<open>The directives of a file\<close>

text \<open>
  The expression \<open>\{\{[-\s]*define[\s]+"([^"]+)"[-\s]*\}\}\<close>. Every repetition in it is followed by a
  character outside its class, so the longest run is the only one that can match.
\<close>

definition rx_space :: "char \<Rightarrow> bool" where
  "rx_space c \<longleftrightarrow> c \<in> {CHR 9, CHR 10, CHR 12, CHR 13, CHR 32}"

definition rx_dash :: "char \<Rightarrow> bool" where
  "rx_dash c \<longleftrightarrow> c = CHR ''-'' \<or> rx_space c"

definition rx_name :: "char \<Rightarrow> bool" where
  "rx_name c \<longleftrightarrow> c \<noteq> CHR 34"

definition lit :: "string \<Rightarrow> string \<Rightarrow> string option" where
  "lit p s = (if HasPrefix s p then Some (drop (length p) s) else None)"

text \<open>A match at the start of a text: the name and what follows the match.\<close>

definition match_define :: "string \<Rightarrow> (string \<times> string) option" where
  "match_define s =
     (case lit ''{{'' s of None \<Rightarrow> None | Some s1 \<Rightarrow>
     (case lit ''define'' (dropWhile rx_dash s1) of None \<Rightarrow> None | Some s2 \<Rightarrow>
     (if takeWhile rx_space s2 = [] then None else
      case lit dq (dropWhile rx_space s2) of None \<Rightarrow> None | Some s3 \<Rightarrow>
      (if takeWhile rx_name s3 = [] then None else
       case lit dq (dropWhile rx_name s3) of None \<Rightarrow> None | Some s4 \<Rightarrow>
       (case lit ''}}'' (dropWhile rx_dash s4) of None \<Rightarrow> None | Some rest \<Rightarrow>
          Some (takeWhile rx_name s3, rest))))))"

text \<open>What the expression describes: the texts it matches, each with its name.\<close>

definition directive :: "string \<Rightarrow> string \<Rightarrow> bool" where
  "directive d n \<longleftrightarrow> (\<exists>a b c. d = ''{{'' @ a @ ''define'' @ b @ dq @ n @ dq @ c @ ''}}''
     \<and> list_all rx_dash a \<and> list_all rx_space b \<and> b \<noteq> [] \<and> list_all rx_name n \<and> n \<noteq> [] \<and> list_all rx_dash c)"

lemma lit_Some [simp]: "lit p s = Some r \<longleftrightarrow> s = p @ r"
  by (induction s p rule: HasPrefix.induct) (auto simp: lit_def)

lemma lit_simps [simp]: "lit [] s = Some s" "lit (p # ps) (c # s) = (if c = p then lit ps s else None)"
  by (simp_all add: lit_def)

lemma directiveI:
  "list_all rx_dash a \<Longrightarrow> list_all rx_space b \<Longrightarrow> b \<noteq> [] \<Longrightarrow> list_all rx_name n \<Longrightarrow> n \<noteq> [] \<Longrightarrow> list_all rx_dash c
    \<Longrightarrow> directive (''{{'' @ a @ ''define'' @ b @ dq @ n @ dq @ c @ ''}}'') n"
  unfolding directive_def by blast

lemma list_all_takeWhile [simp]: "list_all P (takeWhile P t)"
  by (auto simp: list_all_iff dest: set_takeWhileD)

lemma run_split:
  assumes "list_all P a" "\<not> P x"
  shows "takeWhile P (a @ x # s) = a" "dropWhile P (a @ x # s) = x # s"
  using assms by (induction a) simp_all

lemma match_define_sound:
  assumes "match_define s = Some (n, rest)"
  shows "\<exists>d. s = d @ rest \<and> directive d n"
proof -
  obtain s1 s2 s3 s4 where m: "s = ''{{'' @ s1" "dropWhile rx_dash s1 = ''define'' @ s2" "takeWhile rx_space s2 \<noteq> []"
      "dropWhile rx_space s2 = dq @ s3" "takeWhile rx_name s3 \<noteq> []" "n = takeWhile rx_name s3"
      "dropWhile rx_name s3 = dq @ s4" "dropWhile rx_dash s4 = ''}}'' @ rest"
    using assms by (auto simp: match_define_def split: option.splits if_splits)
  have "s = ''{{'' @ takeWhile rx_dash s1 @ ''define'' @ takeWhile rx_space s2 @ dq @ n @ dq @ takeWhile rx_dash s4 @ ''}}'' @ rest"
    using m takeWhile_dropWhile_id [of rx_dash s1] takeWhile_dropWhile_id [of rx_space s2]
      takeWhile_dropWhile_id [of rx_name s3] takeWhile_dropWhile_id [of rx_dash s4] by (metis append.assoc)
  moreover have "directive (''{{'' @ takeWhile rx_dash s1 @ ''define'' @ takeWhile rx_space s2 @ dq @ n @ dq @ takeWhile rx_dash s4 @ ''}}'') n"
    using m(3,5) unfolding m(6) by (intro directiveI) simp_all
  ultimately show ?thesis by (metis append.assoc)
qed

lemma match_define_complete:
  assumes "directive d n"
  shows "match_define (d @ rest) = Some (n, rest)"
proof -
  obtain a b c where d: "d = ''{{'' @ a @ ''define'' @ b @ dq @ n @ dq @ c @ ''}}''"
    and p: "list_all rx_dash a" "list_all rx_space b" "b \<noteq> []" "list_all rx_name n" "n \<noteq> []" "list_all rx_dash c"
    using assms by (auto simp: directive_def)
  have x: "\<not> rx_dash (CHR ''d'')" "\<not> rx_space (CHR 34)" "\<not> rx_name (CHR 34)" "\<not> rx_dash (CHR ''}'')"
    by (simp_all add: rx_dash_def rx_space_def rx_name_def)
  show ?thesis
    unfolding match_define_def d using p
    by (simp add: run_split [OF p(1) x(1)] run_split [OF p(2) x(2)] run_split [OF p(4) x(3)] run_split [OF p(6) x(4)] del: lit_Some)
qed

lemma match_define_iff: "match_define s = Some (n, rest) \<longleftrightarrow> (\<exists>d. s = d @ rest \<and> directive d n)"
  using match_define_sound match_define_complete by blast

lemma directive_nonempty: "directive d n \<Longrightarrow> d \<noteq> []"
  by (auto simp: directive_def)

lemma match_define_shorter: "match_define s = Some (n, rest) \<Longrightarrow> length rest < length s"
  by (auto simp: match_define_iff dest: directive_nonempty)

text \<open>\<open>FindAllSubmatch\<close>: the leftmost match, then the leftmost one after it, and so on.\<close>

function extractDefines :: "bytes \<Rightarrow> string list" where
  "extractDefines s =
     (case match_define s of
        Some (n, rest) \<Rightarrow> n # extractDefines rest
      | None \<Rightarrow> (case s of [] \<Rightarrow> [] | c # t \<Rightarrow> extractDefines t))"
  by pat_completeness auto
termination
  by (relation "measure length") (auto dest: match_define_shorter)

declare extractDefines.simps [simp del]

text \<open>The same without an algorithm: where a match starts, and a match that no other one starts before.\<close>

definition match_at :: "string \<Rightarrow> string \<Rightarrow> bool" where
  "match_at s pre \<longleftrightarrow> (\<exists>d n post. s = pre @ d @ post \<and> directive d n)"

definition leftmost :: "string \<Rightarrow> string \<Rightarrow> string \<Rightarrow> string \<Rightarrow> string \<Rightarrow> bool" where
  "leftmost s pre d n post \<longleftrightarrow> s = pre @ d @ post \<and> directive d n \<and> (\<forall>pre'. match_at s pre' \<longrightarrow> length pre \<le> length pre')"

inductive finds :: "string \<Rightarrow> string list \<Rightarrow> bool" where
  no_match: "(\<And>pre d n post. \<not> leftmost s pre d n post) \<Longrightarrow> finds s []"
| next_match: "leftmost s pre d n post \<Longrightarrow> finds post ns \<Longrightarrow> finds s (n # ns)"

lemma match_at_here: "match_at s [] \<longleftrightarrow> match_define s \<noteq> None"
proof -
  have "match_define s \<noteq> None \<longleftrightarrow> (\<exists>n rest. match_define s = Some (n, rest))" by auto
  then show ?thesis unfolding match_define_iff by (auto simp: match_at_def)
qed

lemma match_at_later: "match_define (c # t) = None \<Longrightarrow> match_at (c # t) q \<longleftrightarrow> (\<exists>q'. q = c # q' \<and> match_at t q')"
  using match_at_here [of "c # t"] by (cases q) (auto simp: match_at_def)

lemma leftmost_later:
  assumes "match_define (c # t) = None"
  shows "leftmost (c # t) pre d n post \<longleftrightarrow> (\<exists>pre'. pre = c # pre' \<and> leftmost t pre' d n post)"
proof -
  have "pre = [] \<Longrightarrow> \<not> leftmost (c # t) pre d n post"
    using match_at_here [of "c # t"] assms by (auto simp: leftmost_def match_at_def)
  then show ?thesis by (cases pre) (auto simp: leftmost_def match_at_later [OF assms])
qed

lemma extractDefines_Some: "match_define s = Some (n, rest) \<Longrightarrow> extractDefines s = n # extractDefines rest"
  by (simp add: extractDefines.simps [of s])

lemma extractDefines_None: "match_define (c # t) = None \<Longrightarrow> extractDefines (c # t) = extractDefines t"
  by (simp add: extractDefines.simps [of "c # t"])

lemma extractDefines_Nil [simp]: "extractDefines [] = []"
  using match_at_here [of "[]"] by (auto simp: extractDefines.simps [of "[]"] match_at_def split: option.splits dest: directive_nonempty)

lemma finds_extractDefines: "finds s (extractDefines s)"
proof (induction s rule: length_induct)
  case (1 s)
  show ?case
  proof (cases "match_define s")
    case (Some nr)
    obtain n rest where nr: "nr = (n, rest)" by (cases nr)
    obtain d where "s = d @ rest" "directive d n" using Some nr by (auto simp: match_define_iff)
    then have "leftmost s [] d n rest" by (simp add: leftmost_def)
    moreover have "finds rest (extractDefines rest)" using 1 match_define_shorter Some nr by blast
    ultimately show ?thesis using extractDefines_Some Some nr by (simp add: next_match)
  next
    case None
    show ?thesis
    proof (cases s)
      case Nil
      then show ?thesis using directive_nonempty by (simp add: leftmost_def no_match)
    next
      case (Cons c t)
      have later: "leftmost s pre d n post \<longleftrightarrow> (\<exists>pre'. pre = c # pre' \<and> leftmost t pre' d n post)" for pre d n post
        using leftmost_later None unfolding Cons by blast
      have "finds t (extractDefines t)" using 1 Cons by simp
      then have "finds s (extractDefines t)"
      proof cases
        case no_match
        then show ?thesis using later by (auto intro: finds.no_match)
      next
        case (next_match pre d n post ns)
        then show ?thesis using later finds.next_match [of s "c # pre" d n post ns] by simp
      qed
      then show ?thesis using None extractDefines_None unfolding Cons by simp
    qed
  qed
qed

lemma extractDefines_leftmost: "leftmost s pre d n post \<Longrightarrow> extractDefines s = n # extractDefines post"
proof (induction pre arbitrary: s)
  case Nil
  then have "match_define s = Some (n, post)" by (auto simp: leftmost_def match_define_iff)
  then show ?case by (rule extractDefines_Some)
next
  case (Cons c pre)
  then obtain t where s: "s = c # t" by (auto simp: leftmost_def)
  have "\<not> match_at s []" using Cons.prems by (auto simp: leftmost_def)
  then have none: "match_define (c # t) = None" using match_at_here [of s] unfolding s by blast
  then show ?case
    using Cons.IH Cons.prems leftmost_later [OF none] extractDefines_None [OF none] unfolding s by simp
qed

lemma finds_unique: "finds s ns \<Longrightarrow> extractDefines s = ns"
proof (induction s ns rule: finds.induct)
  case (no_match s)
  with finds_extractDefines [of s] show ?case by (auto elim: finds.cases)
qed (simp add: extractDefines_leftmost)

text \<open>
  C36. The names found in a file are those of its leftmost, non-overlapping matches of the expression,
  in order: the scan equals the description of the matches, which has exactly one answer for every
  text.
\<close>

theorem extractDefines_finds: "extractDefines s = ns \<longleftrightarrow> finds s ns"
  using finds_extractDefines finds_unique by blast

end
