(* ===== verification/Rendering.thy ===== *)
theory Rendering
  imports Templates
begin

text \<open>
  The renderer of \<open>dashboard/handlers/templates.go\<close>: loading the \<open>templates\<close> directory once, choosing the
  file that owns a page name, building and keeping the page's tree, and writing the page. Each page
  has a tree of its own, made of the shared files and of that one file.
\<close>

section \<open>The directory\<close>

text \<open>
  The part of a file system that \<open>fs.WalkDir\<close> sees: a file with the outcome of \<open>ReadFile\<close>, a directory
  with the error of \<open>ReadDir\<close>, if any, and its entries in the order \<open>ReadDir\<close> gives them, by name.
\<close>

datatype entry = File "(string, bytes) result" | Dir "string option" "(string \<times> entry) list"

record load_state =
  ld_files :: "string \<rightharpoonup> bytes"
  ld_defineToTpl :: "string \<rightharpoonup> string"
  ld_partials :: "bytes list"

fun pathBase_loop :: "string \<Rightarrow> string \<Rightarrow> string option" where
  "pathBase_loop [] acc = None"
| "pathBase_loop (c # r) acc = (if c = CHR ''/'' then Some acc else pathBase_loop r (c # acc))"

text \<open>The loop from the end of the path: \<open>r\<close> is the reversed rest, \<open>acc\<close> what follows.\<close>

definition pathBase :: "string \<Rightarrow> string" where
  "pathBase p = (case pathBase_loop (rev p) [] of None \<Rightarrow> p | Some b \<Rightarrow> b)"

definition is_shared :: "string \<Rightarrow> bool" where
  "is_shared path = ((pathBase path \<noteq> [] \<and> hd (pathBase path) = CHR ''_'') \<or> Contains path ''/fragments/'')"

text \<open>The callback on a file that was read.\<close>

definition visit :: "string \<Rightarrow> bytes \<Rightarrow> load_state \<Rightarrow> load_state" where
  "visit path b ld =
     (let ld1 = ld\<lparr>ld_files := (ld_files ld)(path \<mapsto> b)\<rparr> in
      if is_shared path then ld1\<lparr>ld_partials := ld_partials ld1 @ [b]\<rparr>
      else ld1\<lparr>ld_defineToTpl := foldl (\<lambda>m name. m(name \<mapsto> path)) (ld_defineToTpl ld1) (extractDefines b)\<rparr>)"

text \<open>
  \<open>fs.WalkDir\<close> with that callback, which returns every error it is given: the error that ended the walk,
  and what was collected until then.
\<close>

fun walkDir :: "string \<Rightarrow> entry \<Rightarrow> load_state \<Rightarrow> string option \<times> load_state"
  and walkDirs :: "string \<Rightarrow> (string \<times> entry) list \<Rightarrow> load_state \<Rightarrow> string option \<times> load_state" where
  "walkDir path (File (Inl e)) ld = (Some e, ld)"
| "walkDir path (File (Inr b)) ld = (None, visit path b ld)"
| "walkDir path (Dir (Some e) es) ld = (Some e, ld)"
| "walkDir path (Dir None es) ld = walkDirs path es ld"
| "walkDirs path [] ld = (None, ld)"
| "walkDirs path ((n, e) # es) ld =
     (case walkDir (path @ ''/'' @ n) e ld of
        (Some err, ld1) \<Rightarrow> (Some err, ld1)
      | (None, ld1) \<Rightarrow> walkDirs path es ld1)"

section \<open>The renderer\<close>

text \<open>\<open>html/template\<close>: a new tree, \<open>Parse\<close> into a tree, and \<open>ExecuteTemplate\<close> into a buffer.\<close>

record ('t, 'd) engine =
  en_New :: 't
  en_Parse :: "'t \<Rightarrow> bytes \<Rightarrow> (string, 't) result"
  en_Execute :: "'t \<Rightarrow> string \<Rightarrow> 'd \<Rightarrow> (string, bytes) result"

record 't Renderer =
  rd_parsed :: "string \<rightharpoonup> 't"
  rd_loadErr :: "string option"
  rd_files :: "string \<rightharpoonup> bytes"
  rd_defineToTpl :: "string \<rightharpoonup> string"
  rd_partials :: "bytes list"
  rd_loadedOnce :: bool

definition NewRenderer :: "'t Renderer" where
  "NewRenderer = \<lparr>rd_parsed = Map.empty, rd_loadErr = None, rd_files = Map.empty, rd_defineToTpl = Map.empty,
     rd_partials = [], rd_loadedOnce = False\<rparr>"

definition empty_load :: load_state where
  "empty_load = \<lparr>ld_files = Map.empty, ld_defineToTpl = Map.empty, ld_partials = []\<rparr>"

text \<open>\<open>fs.WalkDir(r.tplFS, "templates", ..)\<close>: \<open>root\<close> is what \<open>Stat\<close> gives for \<open>templates\<close>.\<close>

definition walk_templates :: "(string, entry) result \<Rightarrow> string option \<times> load_state" where
  "walk_templates root = (case root of Inl e \<Rightarrow> (Some e, empty_load) | Inr d \<Rightarrow> walkDir ''templates'' d empty_load)"

definition loadOnce :: "(string, entry) result \<Rightarrow> 't Renderer \<Rightarrow> 't Renderer" where
  "loadOnce root r =
     (if rd_loadedOnce r then r
      else case walk_templates root of (err, ld) \<Rightarrow>
        r\<lparr>rd_files := ld_files ld, rd_defineToTpl := ld_defineToTpl ld, rd_partials := sort (ld_partials ld),
          rd_loadErr := err, rd_loadedOnce := True\<rparr>)"

fun parse_all :: "('t, 'd) engine \<Rightarrow> 't \<Rightarrow> bytes list \<Rightarrow> (string, 't) result" where
  "parse_all E t [] = Inr t"
| "parse_all E t (b # bs) = (case en_Parse E t b of Inl e \<Rightarrow> Inl e | Inr t' \<Rightarrow> parse_all E t' bs)"

definition errFoundNoTemplate :: "string \<Rightarrow> string" where
  "errFoundNoTemplate name = ''no template defines block: '' @ name"

definition lookup :: "('t, 'd) engine \<Rightarrow> string \<Rightarrow> 't Renderer \<Rightarrow> (string, 't) result \<times> 't Renderer" where
  "lookup E name r =
     (case rd_parsed r name of
        Some tpl \<Rightarrow> (Inr tpl, r)
      | None \<Rightarrow>
          (case rd_defineToTpl r name of
             None \<Rightarrow> (Inl (errFoundNoTemplate name), r)
           | Some path \<Rightarrow>
               (case parse_all E (en_New E) (rd_partials r) of
                  Inl e \<Rightarrow> (Inl e, r)
                | Inr tpl \<Rightarrow>
                    (case en_Parse E tpl (case rd_files r path of Some b \<Rightarrow> b | None \<Rightarrow> []) of
                       Inl e \<Rightarrow> (Inl e, r)
                     | Inr tpl' \<Rightarrow> (Inr tpl', r\<lparr>rd_parsed := (rd_parsed r)(name \<mapsto> tpl')\<rparr>)))))"

definition RenderPage ::
  "('t, 'd) engine \<Rightarrow> (string, entry) result \<Rightarrow> string \<Rightarrow> 'd \<Rightarrow> 't Renderer \<Rightarrow> writer \<Rightarrow> 't Renderer \<times> writer" where
  "RenderPage E root name data r0 w =
     (let r = loadOnce root r0 in
      case rd_loadErr r of
        Some e \<Rightarrow> (r, http_Error e StatusInternalServerError w)
      | None \<Rightarrow>
          (case lookup E name r of
             (Inl e, r1) \<Rightarrow> (r1, http_Error e StatusInternalServerError w)
           | (Inr tpl, r1) \<Rightarrow>
               let w1 = SetHeader ContentType ''text/html; charset=utf-8'' w in
               (case en_Execute E tpl name data of
                  Inl e \<Rightarrow> (r1, WriteBody (''<!-- template error: '' @ e @ '' -->'') w1)
                | Inr b \<Rightarrow> (r1, WriteBody b w1))))"

section \<open>What the walk collects\<close>

text \<open>The files of a directory without errors, in the order of the walk.\<close>

fun tree_files :: "string \<Rightarrow> entry \<Rightarrow> (string \<times> bytes) list"
  and trees_files :: "string \<Rightarrow> (string \<times> entry) list \<Rightarrow> (string \<times> bytes) list" where
  "tree_files path (File (Inl e)) = []"
| "tree_files path (File (Inr b)) = [(path, b)]"
| "tree_files path (Dir err es) = trees_files path es"
| "trees_files path [] = []"
| "trees_files path ((n, e) # es) = tree_files (path @ ''/'' @ n) e @ trees_files path es"

lemma walk_visits:
  "walkDir path e ld = (None, ld') \<Longrightarrow> ld' = fold (\<lambda>(p, b). visit p b) (tree_files path e) ld"
  "walkDirs path es ld = (None, ld') \<Longrightarrow> ld' = fold (\<lambda>(p, b). visit p b) (trees_files path es) ld"
proof (induction path e ld and path es ld arbitrary: ld' and ld' rule: walkDir_walkDirs.induct)
  case (6 path n e es ld)
  obtain r ld1 where w: "walkDir (path @ ''/'' @ n) e ld = (r, ld1)" by fastforce
  with 6(3) have "r = None" by (auto split: option.splits)
  with w 6 show ?case by simp
qed auto

lemma foldl_upd: "foldl (\<lambda>m name. m(name \<mapsto> path)) m ns = (\<lambda>x. if x \<in> set ns then Some path else m x)"
  by (induction ns arbitrary: m) auto

lemma visit_simps [simp]:
  "ld_files (visit p b ld) = (ld_files ld)(p \<mapsto> b)"
  "ld_partials (visit p b ld) = (if is_shared p then ld_partials ld @ [b] else ld_partials ld)"
  "ld_defineToTpl (visit p b ld) x =
     (if \<not> is_shared p \<and> x \<in> set (extractDefines b) then Some p else ld_defineToTpl ld x)"
  by (simp_all add: visit_def Let_def foldl_upd)

abbreviation visits :: "(string \<times> bytes) list \<Rightarrow> load_state \<Rightarrow> load_state" where
  "visits \<equiv> fold (\<lambda>(p, b). visit p b)"

lemma visits_partials: "ld_partials (visits fs ld) = ld_partials ld @ map snd (filter (\<lambda>(p, b). is_shared p) fs)"
  by (induction fs arbitrary: ld) auto

lemma visits_files: "p \<notin> fst ` set fs \<Longrightarrow> ld_files (visits fs ld) p = ld_files ld p"
  by (induction fs arbitrary: ld) auto

lemma visits_files_mem:
  assumes "(p, b) \<in> set fs" "distinct (map fst fs)"
  shows "ld_files (visits fs ld) p = Some b"
  using assms
proof (induction fs arbitrary: ld)
  case (Cons f fs)
  show ?case
  proof (cases "f = (p, b)")
    case True
    with Cons.prems(2) show ?thesis by (auto simp: visits_files)
  qed (use Cons in \<open>auto simp: case_prod_beta\<close>)
qed simp

text \<open>The files that own a name are the page files that define it; the last of them wins.\<close>

definition owners :: "string \<Rightarrow> (string \<times> bytes) list \<Rightarrow> string list" where
  "owners name fs = map fst (filter (\<lambda>(p, b). \<not> is_shared p \<and> name \<in> set (extractDefines b)) fs)"

lemma visits_owner:
  "ld_defineToTpl (visits fs ld) name = (if owners name fs = [] then ld_defineToTpl ld name else Some (last (owners name fs)))"
  by (induction fs arbitrary: ld) (auto simp: owners_def split: if_splits)

lemma walk_templates_None:
  assumes "walk_templates (Inr d) = (None, ld)"
  shows "ld = visits (tree_files ''templates'' d) empty_load"
  using assms walk_visits(1) by (simp add: walk_templates_def)

lemma owners_single:
  assumes "(p, b) \<in> set fs" "\<not> is_shared p" "name \<in> set (extractDefines b)"
    and "\<And>q c. (q, c) \<in> set fs \<Longrightarrow> \<not> is_shared q \<Longrightarrow> name \<in> set (extractDefines c) \<Longrightarrow> q = p"
  shows "owners name fs \<noteq> [] \<and> last (owners name fs) = p"
proof -
  have mem: "q \<in> set (owners name fs) \<longleftrightarrow> (\<exists>c. (q, c) \<in> set fs \<and> \<not> is_shared q \<and> name \<in> set (extractDefines c))" for q
    by (force simp: owners_def)
  then have "p \<in> set (owners name fs)" using assms(1-3) by blast
  then have "owners name fs \<noteq> []" by force
  then show ?thesis using last_in_set mem assms(4) by blast
qed

section \<open>A renderer in use\<close>

text \<open>
  The pages rendered before. Loading runs once and \<open>lookup\<close> under the mutex, and an execution changes
  nothing of the renderer, so requests that overlap are steps in some order.
\<close>

definition renders ::
  "('t, 'd) engine \<Rightarrow> (string, entry) result \<Rightarrow> (string \<times> 'd) list \<Rightarrow> 't Renderer \<Rightarrow> 't Renderer" where
  "renders E root reqs r = fold (\<lambda>(name, data) r. fst (RenderPage E root name data r new_writer)) reqs r"

text \<open>
  Everything but the kept trees is as the first load left it, and a kept tree is the one that a
  renderer without any would build.
\<close>

definition loaded_inv :: "('t, 'd) engine \<Rightarrow> (string, entry) result \<Rightarrow> 't Renderer \<Rightarrow> bool" where
  "loaded_inv E root r \<longleftrightarrow> (let L = loadOnce root NewRenderer in
     rd_loadedOnce r \<and> rd_loadErr r = rd_loadErr L \<and> rd_files r = rd_files L \<and> rd_defineToTpl r = rd_defineToTpl L
     \<and> rd_partials r = rd_partials L \<and> (\<forall>n t. rd_parsed r n = Some t \<longrightarrow> fst (lookup E n L) = Inr t))"

definition rd_inv :: "('t, 'd) engine \<Rightarrow> (string, entry) result \<Rightarrow> 't Renderer \<Rightarrow> bool" where
  "rd_inv E root r \<longleftrightarrow> r = NewRenderer \<or> loaded_inv E root r"

lemma loadOnce_loaded [simp]: "rd_loadedOnce (loadOnce root r)"
  by (simp add: loadOnce_def split: prod.split)

lemma loadOnce_fields:
  assumes "walk_templates root = (err, ld)"
  shows "rd_parsed (loadOnce root NewRenderer) = Map.empty" "rd_loadErr (loadOnce root NewRenderer) = err"
    "rd_files (loadOnce root NewRenderer) = ld_files ld" "rd_defineToTpl (loadOnce root NewRenderer) = ld_defineToTpl ld"
    "rd_partials (loadOnce root NewRenderer) = sort (ld_partials ld)"
  using assms by (simp_all add: loadOnce_def NewRenderer_def)

lemma loadOnce_parsed [simp]: "rd_parsed (loadOnce root NewRenderer) = Map.empty"
  using loadOnce_fields(1) by (cases "walk_templates root") blast

lemma loaded_inv_loadOnce:
  assumes "rd_inv E root r"
  shows "loaded_inv E root (loadOnce root r)"
proof -
  have "loaded_inv E root (loadOnce root NewRenderer)" by (simp add: loaded_inv_def Let_def)
  moreover have "loaded_inv E root r \<Longrightarrow> loadOnce root r = r" by (simp add: loaded_inv_def Let_def loadOnce_def)
  ultimately show ?thesis using assms by (auto simp: rd_inv_def)
qed

lemma lookup_inv:
  fixes r :: "'t Renderer"
  assumes "loaded_inv E root r"
  shows "fst (lookup E name r) = fst (lookup E name (loadOnce root NewRenderer))"
    and "loaded_inv E root (snd (lookup E name r))"
proof -
  let ?L = "loadOnce root NewRenderer :: 't Renderer"
  have f: "rd_defineToTpl r = rd_defineToTpl ?L" "rd_partials r = rd_partials ?L" "rd_files r = rd_files ?L"
    and k: "\<And>n t. rd_parsed r n = Some t \<Longrightarrow> fst (lookup E n ?L) = Inr t"
    using assms by (simp_all add: loaded_inv_def Let_def)
  show same: "fst (lookup E name r) = fst (lookup E name ?L)"
  proof (cases "rd_parsed r name")
    case (Some t)
    with k [OF Some] show ?thesis by (simp add: lookup_def [of _ _ r])
  qed (simp add: lookup_def f split: option.split sum.split)
  have "snd (lookup E name r) = r \<or> (\<exists>t. fst (lookup E name r) = Inr t
      \<and> snd (lookup E name r) = r\<lparr>rd_parsed := (rd_parsed r)(name \<mapsto> t)\<rparr>)"
    by (simp add: lookup_def split: option.split sum.split)
  then consider "snd (lookup E name r) = r"
    | t where "fst (lookup E name r) = Inr t" "snd (lookup E name r) = r\<lparr>rd_parsed := (rd_parsed r)(name \<mapsto> t)\<rparr>"
    by blast
  then show "loaded_inv E root (snd (lookup E name r))"
  proof cases
    case (2 t)
    then show ?thesis using assms same by (auto simp: loaded_inv_def Let_def)
  qed (use assms in simp)
qed

lemma RenderPage_loaded:
  "snd (RenderPage E root name data r w) =
     (case rd_loadErr (loadOnce root r) of
        Some e \<Rightarrow> http_Error e StatusInternalServerError w
      | None \<Rightarrow>
          (case fst (lookup E name (loadOnce root r)) of
             Inl e \<Rightarrow> http_Error e StatusInternalServerError w
           | Inr tpl \<Rightarrow>
               WriteBody (case en_Execute E tpl name data of Inl e \<Rightarrow> ''<!-- template error: '' @ e @ '' -->'' | Inr b \<Rightarrow> b)
                 (SetHeader ContentType ''text/html; charset=utf-8'' w)))"
  "fst (RenderPage E root name data r w) =
     (if rd_loadErr (loadOnce root r) = None then snd (lookup E name (loadOnce root r)) else loadOnce root r)"
  by (simp_all add: RenderPage_def Let_def split: option.split prod.split sum.split)

lemma RenderPage_inv:
  fixes r :: "'t Renderer"
  assumes "rd_inv E root r"
  shows "rd_inv E root (fst (RenderPage E root name data r w))"
    and "snd (RenderPage E root name data r w) = snd (RenderPage E root name data NewRenderer w)"
proof -
  note l = loaded_inv_loadOnce [OF assms]
  show "rd_inv E root (fst (RenderPage E root name data r w))"
    using l lookup_inv(2) [OF l] by (simp add: RenderPage_loaded rd_inv_def)
  have e: "rd_loadErr (loadOnce root r) = rd_loadErr (loadOnce root NewRenderer :: 't Renderer)"
    using l by (simp add: loaded_inv_def Let_def)
  show "snd (RenderPage E root name data r w) = snd (RenderPage E root name data NewRenderer w)"
    unfolding RenderPage_loaded e lookup_inv(1) [OF l] ..
qed

lemma rd_inv_renders: "rd_inv E root (renders E root reqs NewRenderer)"
proof -
  have "rd_inv E root r \<Longrightarrow> rd_inv E root (renders E root reqs r)" for r
    by (induction reqs arbitrary: r) (auto simp: renders_def RenderPage_inv(1))
  then show ?thesis by (simp add: rd_inv_def)
qed

lemma render_fresh:
  "snd (RenderPage E root name data (renders E root reqs NewRenderer) w) = snd (RenderPage E root name data NewRenderer w)"
  by (rule RenderPage_inv(2) [OF rd_inv_renders])

text \<open>
  A page does not depend on the pages rendered before it. Whatever was asked of the renderer, and
  whether it succeeded or not, the answer to a request is the one a new renderer would give: the
  trees that are kept change nothing, and no page's blocks reach another page.
\<close>

theorem render_history_free:
  "snd (RenderPage E root name data (renders E root reqs NewRenderer) w) = snd (RenderPage E root name data NewRenderer w)"
  by (rule render_fresh)

section \<open>Which file a page comes from\<close>

text \<open>What the shared texts define, the later text in the order of their bytes first.\<close>

definition shared_blocks :: "(bytes \<Rightarrow> string \<rightharpoonup> 'b) \<Rightarrow> (string \<times> bytes) list \<Rightarrow> string \<rightharpoonup> 'b" where
  "shared_blocks blocks fs = foldl (\<lambda>m c. m ++ blocks c) Map.empty (sort (map snd (filter (\<lambda>(p, c). is_shared p) fs)))"

lemma parse_all_blocks:
  assumes "\<And>t c t'. en_Parse E t c = Inr t' \<Longrightarrow> block t' = block t ++ blocks c"
    and "\<And>t c. c \<in> set cs \<Longrightarrow> \<exists>t'. en_Parse E t c = Inr t'"
  shows "\<exists>t'. parse_all E t cs = Inr t' \<and> block t' = foldl (\<lambda>m c. m ++ blocks c) (block t) cs"
  using assms(2)
proof (induction cs arbitrary: t)
  case (Cons c cs)
  obtain t1 where t1: "en_Parse E t c = Inr t1" using Cons.prems [of c t] by auto
  then show ?case using Cons.IH [of t1] Cons.prems by (auto simp: assms(1) [OF t1])
qed simp

text \<open>
  C17. Every page is rendered with its own blocks. Suppose the files of the directory can be read and
  parsed, and one page file defines the name that is asked for. Then what is executed is a tree in
  which every block defined by that file, \<open>content\<close> included, is that file's, and every other block is
  one of the shared files': the \<open>content\<close> of another page cannot appear, although all pages define a
  block of that name. (Of \<open>Parse\<close> it is assumed that a definition replaces an earlier one; \<open>blocks\<close> are
  the definitions with a body.)
\<close>

theorem render_own_page:
  fixes E :: "('t, 'd) engine"
  assumes "walk_templates (Inr dir) = (None, ld)" "distinct (map fst (tree_files ''templates'' dir))"
    and "(path, text) \<in> set (tree_files ''templates'' dir)" "\<not> is_shared path" "name \<in> set (extractDefines text)"
    and "\<And>q c. (q, c) \<in> set (tree_files ''templates'' dir) \<Longrightarrow> \<not> is_shared q \<Longrightarrow> name \<in> set (extractDefines c) \<Longrightarrow> q = path"
    and "\<And>t c t'. en_Parse E t c = Inr t' \<Longrightarrow> block t' = block t ++ blocks c" "block (en_New E) = Map.empty"
    and "\<And>t q c. (q, c) \<in> set (tree_files ''templates'' dir) \<Longrightarrow> \<exists>t'. en_Parse E t c = Inr t'"
  shows "\<exists>tpl. block tpl = shared_blocks blocks (tree_files ''templates'' dir) ++ blocks text
    \<and> snd (RenderPage E (Inr dir) name data (renders E (Inr dir) reqs NewRenderer) w) =
        WriteBody (case en_Execute E tpl name data of Inl e \<Rightarrow> ''<!-- template error: '' @ e @ '' -->'' | Inr b \<Rightarrow> b)
          (SetHeader ContentType ''text/html; charset=utf-8'' w)"
proof -
  let ?fs = "tree_files ''templates'' dir" let ?L = "loadOnce (Inr dir) NewRenderer :: 't Renderer"
  have ld: "ld = visits ?fs empty_load" by (rule walk_templates_None [OF assms(1)])
  note L = loadOnce_fields [OF assms(1)]
  have owner: "rd_defineToTpl ?L name = Some path"
    using owners_single [OF assms(3-6)] by (simp add: L ld visits_owner)
  have src: "rd_files ?L path = Some text" by (simp add: L ld visits_files_mem [OF assms(3,2)])
  have shared: "rd_partials ?L = sort (map snd (filter (\<lambda>(p, c). is_shared p) ?fs))"
    by (simp add: L ld visits_partials empty_load_def)
  have "\<exists>t'. en_Parse E t c = Inr t'" if "c \<in> set (rd_partials ?L)" for t c
    using that assms(9) by (auto simp: shared)
  then obtain t0 where t0: "parse_all E (en_New E) (rd_partials ?L) = Inr t0"
      "block t0 = foldl (\<lambda>m c. m ++ blocks c) (block (en_New E)) (rd_partials ?L)"
    using parse_all_blocks [where E = E and cs = "rd_partials ?L" and t = "en_New E" and block = block and blocks = blocks, OF assms(7)] by blast
  obtain t where t: "en_Parse E t0 text = Inr t" using assms(9) [OF assms(3)] by blast
  have "fst (lookup E name ?L) = Inr t" using t0(1) t by (simp add: lookup_def owner src)
  moreover have "block t = shared_blocks blocks ?fs ++ blocks text"
    using assms(7) [OF t] t0(2) by (simp add: shared_blocks_def shared assms(8))
  ultimately show ?thesis
    unfolding render_fresh unfolding RenderPage_loaded by (intro exI [of _ t]) (simp add: L)
qed

text \<open>
  C18. A name that only shared files define is never a page. \<open>loadOnce\<close> records no owner for the blocks of
  a partial or of a file below \<open>fragments/\<close>, so a request to render one by its name is answered with
  status 500, whatever the template library does and whatever was rendered before.
\<close>

theorem shared_block_unrendered:
  fixes E :: "('t, 'd) engine"
  assumes "walk_templates (Inr dir) = (None, ld)"
    and "\<And>path text. (path, text) \<in> set (tree_files ''templates'' dir) \<Longrightarrow> name \<in> set (extractDefines text) \<Longrightarrow> is_shared path"
  shows "snd (RenderPage E (Inr dir) name data (renders E (Inr dir) reqs NewRenderer) w)
    = http_Error (''no template defines block: '' @ name) StatusInternalServerError w"
proof -
  have "owners name (tree_files ''templates'' dir) = []" using assms(2) by (auto simp: owners_def filter_empty_conv)
  then have "rd_defineToTpl (loadOnce (Inr dir) NewRenderer :: 't Renderer) name = None"
    by (simp add: loadOnce_fields [OF assms(1)] walk_templates_None [OF assms(1)] visits_owner empty_load_def)
  then have none: "fst (lookup E name (loadOnce (Inr dir) NewRenderer)) = Inl (errFoundNoTemplate name)" by (simp add: lookup_def)
  then show ?thesis
    unfolding render_fresh unfolding RenderPage_loaded none by (simp add: loadOnce_fields [OF assms(1)] errFoundNoTemplate_def)
qed

section \<open>The templates of the repository\<close>

text \<open>
  The directory \<open>src/dashboard/templates\<close>: every file, with its \<open>define\<close> directives in order and nothing
  else of its text.
\<close>

definition define_line :: "string \<Rightarrow> string" where
  "define_line n = ''{{define '' @ dq @ n @ dq @ ''}}'' @ newline"

definition template_text :: "string list \<Rightarrow> bytes" where
  "template_text ns = concat (map define_line ns)"

definition template_file :: "string \<Rightarrow> string list \<Rightarrow> string \<times> entry" where
  "template_file f ns = (f, File (Inr (template_text ns)))"

definition template_tree :: entry where
  "template_tree = Dir None
    [template_file ''.keep'' [],
     template_file ''_flash.html'' [''flash''],
     template_file ''_layout.html'' [''layout''],
     template_file ''_nav.html'' [''nav''],
     (''account'', Dir None
       [template_file ''password.html'' [''account/password''],
        template_file ''personal.html'' [''account_personal'', ''content'']]),
     template_file ''blacklist.html'' [''blacklist'', ''content''],
     (''clients'', Dir None
       [template_file ''detail.html'' [''client_detail'', ''content''],
        template_file ''list.html'' [''clients_list'', ''content'']]),
     template_file ''cluster.html'' [''cluster'', ''content''],
     (''fragments'', Dir None [template_file ''overview_cards.html'' [''overview_cards'']]),
     template_file ''login.html'' [''login''],
     template_file ''mqtt_acl.html'' [''mqtt_acl'', ''content''],
     template_file ''mqtt_acl_regex.html'' [''mqtt_acl_regex'', ''content''],
     template_file ''mqtt_auth.html'' [''mqtt_auth'', ''content''],
     template_file ''overview.html'' [''overview'', ''content''],
     template_file ''retained.html'' [''retained'', ''content''],
     template_file ''sessions.html'' [''sessions'', ''content''],
     template_file ''settings.html'' [''settings'', ''content''],
     template_file ''subscriptions.html'' [''subscriptions'', ''content''],
     template_file ''tools.html'' [''tools'', ''content''],
     template_file ''topics.html'' [''topics'', ''content'', ''topic_node''],
     template_file ''users.html'' [''users'', ''content'']]"

text \<open>The handlers that render, with the name each of them gives.\<close>

definition handler_pages :: "(string \<times> string) list" where
  "handler_pages =
    [(''LoginGet'', ''login''), (''LoginPost'', ''login''), (''ChangePasswordGet'', ''account/password''),
     (''ChangePasswordPost'', ''account/password''), (''AccountGet'', ''account_personal''), (''BlacklistGet'', ''blacklist''),
     (''ClientDetail'', ''client_detail''), (''ClientsList'', ''clients_list''), (''ClusterPage'', ''cluster''),
     (''MQTTACLList'', ''mqtt_acl''), (''MQTTACLRegexList'', ''mqtt_acl_regex''), (''MQTTAuthList'', ''mqtt_auth''),
     (''OverviewGet'', ''overview''), (''OverviewCards'', ''overview_cards''), (''RetainedList'', ''retained''),
     (''SessionsList'', ''sessions''), (''Settings'', ''settings''), (''SubscriptionsList'', ''subscriptions''),
     (''ToolsGet'', ''tools''), (''ToolsPublish'', ''tools''), (''TopicsTree'', ''topics''), (''UsersList'', ''users'')]"

lemma match_newline: "match_define (CHR 0x0A # s) = None"
  by (simp add: match_define_def lit_def)

lemma extract_template_text:
  "list_all (\<lambda>n. n \<noteq> [] \<and> list_all rx_name n) ns \<Longrightarrow> extractDefines (template_text ns) = ns"
proof (induction ns)
  case (Cons n ns)
  then have "directive (''{{'' @ [] @ ''define'' @ [CHR 32] @ dq @ n @ dq @ [] @ ''}}'') n"
    by (intro directiveI) (simp_all add: rx_space_def)
  from match_define_complete [OF this, of "newline @ template_text ns"]
  have "match_define (template_text (n # ns)) = Some (n, newline @ template_text ns)"
    by (simp add: template_text_def define_line_def)
  then show ?case using Cons extractDefines_None [OF match_newline] by (simp add: extractDefines_Some)
qed (simp add: template_text_def)

text \<open>The same files as a list of paths and names.\<close>

definition template_list :: "(string \<times> string list) list" where
  "template_list =
    [(''templates/.keep'', []), (''templates/_flash.html'', [''flash'']), (''templates/_layout.html'', [''layout'']),
     (''templates/_nav.html'', [''nav'']), (''templates/account/password.html'', [''account/password'']),
     (''templates/account/personal.html'', [''account_personal'', ''content'']),
     (''templates/blacklist.html'', [''blacklist'', ''content'']),
     (''templates/clients/detail.html'', [''client_detail'', ''content'']),
     (''templates/clients/list.html'', [''clients_list'', ''content'']),
     (''templates/cluster.html'', [''cluster'', ''content'']),
     (''templates/fragments/overview_cards.html'', [''overview_cards'']), (''templates/login.html'', [''login'']),
     (''templates/mqtt_acl.html'', [''mqtt_acl'', ''content'']),
     (''templates/mqtt_acl_regex.html'', [''mqtt_acl_regex'', ''content'']),
     (''templates/mqtt_auth.html'', [''mqtt_auth'', ''content'']), (''templates/overview.html'', [''overview'', ''content'']),
     (''templates/retained.html'', [''retained'', ''content'']), (''templates/sessions.html'', [''sessions'', ''content'']),
     (''templates/settings.html'', [''settings'', ''content'']),
     (''templates/subscriptions.html'', [''subscriptions'', ''content'']), (''templates/tools.html'', [''tools'', ''content'']),
     (''templates/topics.html'', [''topics'', ''content'', ''topic_node'']), (''templates/users.html'', [''users'', ''content''])]"

lemma template_tree_files: "tree_files ''templates'' template_tree = map (\<lambda>(p, ns). (p, template_text ns)) template_list"
  by (simp add: template_tree_def template_file_def template_list_def)

lemma template_list_names: "list_all (\<lambda>(p, ns). list_all (\<lambda>n. n \<noteq> [] \<and> list_all rx_name n) ns) template_list"
  by code_simp

lemma template_tree_mem:
  "(p, c) \<in> set (tree_files ''templates'' template_tree) \<longleftrightarrow> (\<exists>ns. (p, ns) \<in> set template_list \<and> c = template_text ns)"
  by (auto simp: template_tree_files)

lemma template_names: "(p, ns) \<in> set template_list \<Longrightarrow> extractDefines (template_text ns) = ns"
  by (rule extract_template_text) (use template_list_names in \<open>auto simp: list_all_iff\<close>)

lemma template_tree_loads: "fst (walk_templates (Inr template_tree)) = None"
  by (simp add: template_tree_def template_file_def walk_templates_def)

lemma template_tree_walk: "walk_templates (Inr template_tree) = (None, snd (walk_templates (Inr template_tree)))"
  using template_tree_loads by (metis prod.collapse)

lemma template_checks:
  "list_all (\<lambda>(p, ns). ''overview_cards'' \<in> set ns \<longrightarrow> is_shared p) template_list"
  "list_all (\<lambda>(p, ns). \<not> is_shared p \<longrightarrow> ''settings'' \<in> set ns \<longrightarrow> p = ''templates/settings.html'') template_list"
  "distinct (map fst template_list)" "\<not> is_shared ''templates/settings.html''"
  "(''templates/settings.html'', [''settings'', ''content'']) \<in> set template_list"
  by code_simp+

lemma overview_cards_shared:
  "(p, c) \<in> set (tree_files ''templates'' template_tree) \<Longrightarrow> ''overview_cards'' \<in> set (extractDefines c) \<Longrightarrow> is_shared p"
  using template_checks(1) template_names unfolding template_tree_mem list_all_iff by fastforce

lemma settings_owner:
  "(p, c) \<in> set (tree_files ''templates'' template_tree) \<Longrightarrow> \<not> is_shared p \<Longrightarrow> ''settings'' \<in> set (extractDefines c)
    \<Longrightarrow> p = ''templates/settings.html''"
  using template_checks(2) template_names unfolding template_tree_mem list_all_iff by fastforce

lemma settings_mem: "(''templates/settings.html'', [''settings'', ''content'']) \<in> set template_list"
  by (rule template_checks(5))

lemma settings_page:
  "distinct (map fst (tree_files ''templates'' template_tree))"
  "(''templates/settings.html'', template_text [''settings'', ''content'']) \<in> set (tree_files ''templates'' template_tree)"
  "\<not> is_shared ''templates/settings.html''" "''settings'' \<in> set (extractDefines (template_text [''settings'', ''content'']))"
proof -
  have "map fst (map (\<lambda>(p, ns). (p, template_text ns)) template_list) = map fst template_list" by auto
  then show "distinct (map fst (tree_files ''templates'' template_tree))"
    using template_checks(3) by (simp only: template_tree_files)
  show "(''templates/settings.html'', template_text [''settings'', ''content'']) \<in> set (tree_files ''templates'' template_tree)"
    unfolding template_tree_mem using settings_mem by blast
  show "''settings'' \<in> set (extractDefines (template_text [''settings'', ''content'']))"
    unfolding template_names [OF settings_mem] by simp
qed (rule template_checks(4))

text \<open>The names that have an owner.\<close>

definition owned_names :: "(string \<times> bytes) list \<Rightarrow> string list" where
  "owned_names fs = concat (map (\<lambda>(p, c). if is_shared p then [] else extractDefines c) fs)"

lemma owned_names_iff:
  assumes "walk_templates (Inr dir) = (None, ld)"
  shows "ld_defineToTpl ld n = None \<longleftrightarrow> n \<notin> set (owned_names (tree_files ''templates'' dir))"
proof -
  have "owners n fs = [] \<longleftrightarrow> n \<notin> set (owned_names fs)" for fs
    by (induction fs) (auto simp: owners_def owned_names_def)
  then show ?thesis using walk_templates_None [OF assms] by (simp add: visits_owner empty_load_def)
qed

lemma template_tree_owned:
  "owned_names (tree_files ''templates'' template_tree) = concat (map (\<lambda>(p, ns). if is_shared p then [] else ns) template_list)"
  unfolding owned_names_def template_tree_files map_map
  by (intro arg_cong [where f = concat] map_cong refl) (auto simp: template_names)

text \<open>
  Over the repository's own templates, every handler that renders a page names a block that has an
  owner, with one exception: the block of \<open>OverviewCards\<close>, which the overview page polls every two
  seconds, is defined only below \<open>fragments/\<close>.
\<close>

theorem handler_pages_owned:
  "filter (\<lambda>(h, page). ld_defineToTpl (snd (walk_templates (Inr template_tree))) page = None) handler_pages
   = [(''OverviewCards'', ''overview_cards'')]"
  unfolding owned_names_iff [OF template_tree_walk] template_tree_owned by code_simp

text \<open>A template library that keeps, for every block, the text that defined it last, and prints it.\<close>

definition demo_blocks :: "bytes \<Rightarrow> string \<rightharpoonup> bytes" where
  "demo_blocks c n = (if n \<in> set (extractDefines c) then Some c else None)"

definition demo_engine :: "(string \<rightharpoonup> bytes, unit) engine" where
  "demo_engine = \<lparr>en_New = Map.empty, en_Parse = (\<lambda>t c. Inr (t ++ demo_blocks c)),
     en_Execute = (\<lambda>t n d. case t n of None \<Rightarrow> Inl ''no block'' | Some c \<Rightarrow> Inr c)\<rparr>"

lemma demo_engine_ok:
  "en_Parse demo_engine t c = Inr t' \<Longrightarrow> (\<lambda>t. t) t' = (\<lambda>t. t) t ++ demo_blocks c" "en_New demo_engine = Map.empty"
  "\<exists>t'. en_Parse demo_engine t c = Inr t'"
  by (simp_all add: demo_engine_def)

theorem shared_block_unrendered_witness:
  "snd (RenderPage demo_engine (Inr template_tree) ''overview_cards'' ()
      (renders demo_engine (Inr template_tree) [(''overview'', ())] NewRenderer) new_writer)
    = http_Error ''no template defines block: overview_cards'' StatusInternalServerError new_writer"
  using shared_block_unrendered [OF template_tree_walk overview_cards_shared] by simp

lemma ex_point: "\<exists>t. t = s \<and> R t \<Longrightarrow> s c = x \<Longrightarrow> \<exists>t. t c = x \<and> R t"
  by auto

theorem render_own_page_witness:
  "\<exists>tpl. tpl ''content'' = Some (template_text [''settings'', ''content''])
    \<and> snd (RenderPage demo_engine (Inr template_tree) ''settings'' () (renders demo_engine (Inr template_tree) [(''users'', ())] NewRenderer) new_writer)
      = WriteBody (case en_Execute demo_engine tpl ''settings'' () of Inl e \<Rightarrow> ''<!-- template error: '' @ e @ '' -->'' | Inr b \<Rightarrow> b)
          (SetHeader ContentType ''text/html; charset=utf-8'' new_writer)"
proof -
  have c: "(shared_blocks demo_blocks fs ++ demo_blocks (template_text [''settings'', ''content''])) ''content''
      = Some (template_text [''settings'', ''content''])" for fs
    unfolding map_add_def demo_blocks_def template_names [OF settings_mem] by simp
  note p = render_own_page [where E = demo_engine and block = "\<lambda>t. t" and blocks = demo_blocks and data = "()" and w = new_writer
        and reqs = "[(''users'', ())]", OF template_tree_walk settings_page settings_owner demo_engine_ok]
  define R where "R tpl \<longleftrightarrow>
      snd (RenderPage demo_engine (Inr template_tree) ''settings'' () (renders demo_engine (Inr template_tree) [(''users'', ())] NewRenderer) new_writer)
      = WriteBody (case en_Execute demo_engine tpl ''settings'' () of Inl e \<Rightarrow> ''<!-- template error: '' @ e @ '' -->'' | Inr b \<Rightarrow> b)
          (SetHeader ContentType ''text/html; charset=utf-8'' new_writer)" for tpl
  have "\<exists>tpl. tpl = shared_blocks demo_blocks (tree_files ''templates'' template_tree)
      ++ demo_blocks (template_text [''settings'', ''content'']) \<and> R tpl"
    unfolding R_def by (rule p)
  from ex_point [of _ R, OF this c] show ?thesis unfolding R_def .
qed

end
