(* ===== verification/Settings.thy ===== *)
theory Settings
  imports Rendering Middleware
begin

text \<open>
  The settings page, \<open>dashboard/handlers/settings.go\<close>: the broker's options as YAML, coloured by a
  library. The YAML encoder, the colouring library and the template library are parameters; the page
  keeps what the library's start gave, which runs once for all requests. The CSRF token of the page
  data, which no handler checks, is left out.
\<close>

section \<open>The libraries\<close>

text \<open>Styles, lexers and formatter: a style or lexer that is not found is replaced by the library's fallback.\<close>

record ('s, 'l, 'k) chroma =
  ch_Style :: "'s option"
  ch_FallbackStyle :: 's
  ch_WriteCSS :: "'s \<Rightarrow> (string, string) result"
  ch_Lexer :: "'l option"
  ch_FallbackLexer :: 'l
  ch_Tokenise :: "'l \<Rightarrow> bytes \<Rightarrow> (string, 'k) result"
  ch_Format :: "'s \<Rightarrow> 'k \<Rightarrow> (string, string) result"

definition orElse :: "'a option \<Rightarrow> 'a \<Rightarrow> 'a" where
  "orElse x d = (case x of Some a \<Rightarrow> a | None \<Rightarrow> d)"

section \<open>The handler\<close>

record chroma_state =
  cs_Once :: bool
  cs_StyleCSS :: string
  cs_InitErr :: "string option"

definition chroma_start :: chroma_state where
  "chroma_start = \<lparr>cs_Once = False, cs_StyleCSS = [], cs_InitErr = None\<rparr>"

definition initChroma :: "('s, 'l, 'k) chroma \<Rightarrow> chroma_state \<Rightarrow> chroma_state" where
  "initChroma ch st =
     (let style = orElse (ch_Style ch) (ch_FallbackStyle ch)
      in case ch_WriteCSS ch style of
           Inl e \<Rightarrow> st\<lparr>cs_InitErr := Some e\<rparr>
         | Inr css \<Rightarrow> st\<lparr>cs_StyleCSS := css\<rparr>)"

definition chromaOnce :: "('s, 'l, 'k) chroma \<Rightarrow> chroma_state \<Rightarrow> chroma_state" where
  "chromaOnce ch st = (if cs_Once st then st else (initChroma ch st)\<lparr>cs_Once := True\<rparr>)"

text \<open>\<open>sd_Source\<close> and \<open>sd_Server\<close> are \<open>None\<close> for nil; the second is the value of \<open>Server.Options\<close>.\<close>

record 'v SettingsDeps =
  sd_Source :: "'v option"
  sd_Server :: "'v option"
  sd_Nil :: 'v
  sd_Cluster :: bool
  sd_RegexEnabled :: bool

record settingsPageData =
  st_Title :: string
  st_User :: User
  st_Cluster :: bool
  st_RegexEnabled :: bool
  st_Flash :: string
  st_HighlightedYAML :: string
  st_HighlightCSS :: string

definition settings_value :: "'v SettingsDeps \<Rightarrow> 'v" where
  "settings_value d =
     (case sd_Source d of Some v \<Rightarrow> v | None \<Rightarrow> (case sd_Server d of Some v \<Rightarrow> v | None \<Rightarrow> sd_Nil d))"

text \<open>The page data, or the text of the error that is answered with status 500.\<close>

definition settings_data ::
  "('s, 'l, 'k) chroma \<Rightarrow> ('v \<Rightarrow> (string, bytes) result) \<Rightarrow> 'v SettingsDeps \<Rightarrow> User \<Rightarrow> chroma_state
     \<Rightarrow> (string, settingsPageData) result" where
  "settings_data ch yaml d u st =
     (case cs_InitErr st of
        Some e \<Rightarrow> Inl (''settings: '' @ e)
      | None \<Rightarrow>
          (case yaml (settings_value d) of
             Inl e \<Rightarrow> Inl (''yaml: '' @ e)
           | Inr yamlBytes \<Rightarrow>
               (case ch_Tokenise ch (orElse (ch_Lexer ch) (ch_FallbackLexer ch)) yamlBytes of
                  Inl e \<Rightarrow> Inl (''tokenise: '' @ e)
                | Inr iter \<Rightarrow>
                    (case ch_Format ch (orElse (ch_Style ch) (ch_FallbackStyle ch)) iter of
                       Inl e \<Rightarrow> Inl (''format: '' @ e)
                     | Inr highlighted \<Rightarrow>
                         Inr \<lparr>st_Title = ''Settings'', st_User = u, st_Cluster = sd_Cluster d,
                           st_RegexEnabled = sd_RegexEnabled d, st_Flash = [], st_HighlightedYAML = highlighted,
                           st_HighlightCSS = cs_StyleCSS st\<rparr>))))"

definition SettingsGet ::
  "('s, 'l, 'k) chroma \<Rightarrow> ('v \<Rightarrow> (string, bytes) result) \<Rightarrow> ('t, settingsPageData) engine \<Rightarrow> (string, entry) result
     \<Rightarrow> 'v SettingsDeps \<Rightarrow> User \<Rightarrow> chroma_state \<times> 't Renderer \<Rightarrow> writer \<Rightarrow> (chroma_state \<times> 't Renderer) \<times> writer" where
  "SettingsGet ch yaml E root d u s w =
     (case s of (st0, r) \<Rightarrow>
       let st = chromaOnce ch st0 in
       case settings_data ch yaml d u st of
         Inl e \<Rightarrow> ((st, r), http_Error e StatusInternalServerError w)
       | Inr page \<Rightarrow> (case RenderPage E root ''settings'' page r w of (r', w') \<Rightarrow> ((st, r'), w')))"

section \<open>Properties\<close>

text \<open>The requests before, with the value the options had at each of them.\<close>

definition settings_run ::
  "('s, 'l, 'k) chroma \<Rightarrow> ('v \<Rightarrow> (string, bytes) result) \<Rightarrow> ('t, settingsPageData) engine \<Rightarrow> (string, entry) result
     \<Rightarrow> ('v SettingsDeps \<times> User) list \<Rightarrow> chroma_state \<times> 't Renderer \<Rightarrow> chroma_state \<times> 't Renderer" where
  "settings_run ch yaml E root reqs s = fold (\<lambda>(d, u) s. fst (SettingsGet ch yaml E root d u s new_writer)) reqs s"

definition settings_inv ::
  "('s, 'l, 'k) chroma \<Rightarrow> ('t, settingsPageData) engine \<Rightarrow> (string, entry) result \<Rightarrow> chroma_state \<times> 't Renderer \<Rightarrow> bool" where
  "settings_inv ch E root s \<longleftrightarrow> chromaOnce ch (fst s) = chromaOnce ch chroma_start \<and> rd_inv E root (snd s)"

lemma chromaOnce_twice [simp]: "chromaOnce ch (chromaOnce ch st) = chromaOnce ch st"
  by (simp add: chromaOnce_def)

lemma settings_inv_step:
  assumes "settings_inv ch E root s"
  shows "settings_inv ch E root (fst (SettingsGet ch yaml E root d u s w))"
proof -
  have "rd_inv E root (fst (RenderPage E root ''settings'' page (snd s) w))" for page
    using assms RenderPage_inv(1) by (auto simp: settings_inv_def)
  then show ?thesis
    using assms by (auto simp: SettingsGet_def Let_def settings_inv_def split: prod.split sum.split)
      (metis fst_conv)
qed

lemma settings_inv_run: "settings_inv ch E root (settings_run ch yaml E root reqs (chroma_start, NewRenderer))"
proof -
  have "settings_inv ch E root s \<Longrightarrow> settings_inv ch E root (settings_run ch yaml E root reqs s)" for s
  proof (induction reqs arbitrary: s)
    case (Cons q reqs)
    obtain d u where "q = (d, u)" by (cases q)
    with Cons settings_inv_step [OF Cons.prems, of yaml d u new_writer] show ?case by (simp add: settings_run_def)
  qed (simp add: settings_run_def)
  then show ?thesis by (simp add: settings_inv_def rd_inv_def)
qed

text \<open>
  C38. What the settings page answers, at any time. After whatever requests, the answer is decided by the
  options as they are now: the first of the four steps that fails (the start of the library, YAML,
  tokens, format) is answered with status 500 and its name, and otherwise the page shows the
  formatted text of the current value. A failed start of the library is remembered, so the page then
  fails for ever; nothing else is kept from one request to the next.
\<close>

theorem settings_answer:
  "snd (SettingsGet ch yaml E root d u (settings_run ch yaml E root reqs (chroma_start, NewRenderer)) w) =
     (let style = orElse (ch_Style ch) (ch_FallbackStyle ch);
          lexer = orElse (ch_Lexer ch) (ch_FallbackLexer ch);
          refuse = (\<lambda>text. http_Error text StatusInternalServerError w)
      in case ch_WriteCSS ch style of Inl e \<Rightarrow> refuse (''settings: '' @ e)
       | Inr css \<Rightarrow> (case yaml (settings_value d) of Inl e \<Rightarrow> refuse (''yaml: '' @ e)
       | Inr text \<Rightarrow> (case ch_Tokenise ch lexer text of Inl e \<Rightarrow> refuse (''tokenise: '' @ e)
       | Inr tokens \<Rightarrow> (case ch_Format ch style tokens of Inl e \<Rightarrow> refuse (''format: '' @ e)
       | Inr html \<Rightarrow> snd (RenderPage E root ''settings''
           \<lparr>st_Title = ''Settings'', st_User = u, st_Cluster = sd_Cluster d, st_RegexEnabled = sd_RegexEnabled d,
             st_Flash = [], st_HighlightedYAML = html, st_HighlightCSS = css\<rparr> NewRenderer w)))))"
proof -
  obtain st r where s: "settings_run ch yaml E root reqs (chroma_start, NewRenderer) = (st, r)" by fastforce
  have i: "chromaOnce ch st = chromaOnce ch chroma_start" "rd_inv E root r"
    using settings_inv_run [of ch E root yaml reqs] by (simp_all add: settings_inv_def s)
  have "snd (SettingsGet ch yaml E root d u (st, r) w) =
     (case settings_data ch yaml d u (chromaOnce ch chroma_start) of
        Inl e \<Rightarrow> http_Error e StatusInternalServerError w
      | Inr page \<Rightarrow> snd (RenderPage E root ''settings'' page NewRenderer w))"
    using RenderPage_inv(2) [OF i(2)] by (simp add: SettingsGet_def i(1) split: sum.split prod.split) (metis snd_conv)
  then show ?thesis
    unfolding s settings_data_def
    by (cases "ch_WriteCSS ch (orElse (ch_Style ch) (ch_FallbackStyle ch))")
       (simp_all add: chromaOnce_def initChroma_def chroma_start_def Let_def split: sum.split)
qed

end
