(* ===== verification/Pages.thy ===== *)
theory Pages
  imports Dashboard Settings
begin

text \<open>
  What \<open>dashboard.Routes\<close> hands to the handlers, and the navigation that the pages show from it
  (\<open>templates/_nav.html\<close>): the links of a page against the routes of the same dashboard.
\<close>

section \<open>What the handlers are given\<close>

text \<open>
  The account handlers get the store, the lockout, the secret and the session lifetime; every other
  page handler whether the dashboard is in a cluster and whether there is a regex layer. The account
  page sets \<open>Cluster\<close> to false itself and has no \<open>RegexEnabled\<close>, which the template reads as false.
\<close>

definition accountDeps :: "'s Options \<Rightarrow> AccountDeps \<Rightarrow> AccountDeps" where
  "accountDeps opts d = d\<lparr>ad_session := (ad_session d)\<lparr>sc_secret := orElse (op_Secret opts) []\<rparr>,
     SessionTTL := op_SessionTTL opts\<rparr>"

definition settingsDeps :: "'s Options \<Rightarrow> 'v \<Rightarrow> 'v \<Rightarrow> 'v SettingsDeps" where
  "settingsDeps opts serverOptions nil =
     \<lparr>sd_Source = None, sd_Server = (if op_Server opts then Some serverOptions else None), sd_Nil = nil,
      sd_Cluster = op_Cluster opts, sd_RegexEnabled = op_RegexBackend opts\<rparr>"

definition page_flags :: "'s Options \<Rightarrow> string \<Rightarrow> bool \<times> bool" where
  "page_flags opts h =
     (if h = ''AccountGet'' then (False, False)
      else if h = ''ClusterPage'' then (True, op_RegexBackend opts)
      else if h = ''MQTTACLRegexList'' then (op_Cluster opts, True)
      else (op_Cluster opts, op_RegexBackend opts))"

text \<open>The links of \<open>_nav.html\<close>, by the two flags and the role of the user.\<close>

definition nav_broker :: "string list" where
  "nav_broker = [''/dashboard/'', ''/dashboard/clients'', ''/dashboard/subscriptions'', ''/dashboard/topics'',
     ''/dashboard/retained'', ''/dashboard/sessions'']"

definition nav_tools :: "string list" where
  "nav_tools = [''/dashboard/blacklist'', ''/dashboard/tools'']"

definition nav_admin :: "string list" where
  "nav_admin = [''/dashboard/users'', ''/dashboard/mqtt-auth'', ''/dashboard/mqtt-acl'']"

definition nav_self :: "string list" where
  "nav_self = [''/dashboard/settings'', ''/dashboard/account'']"

definition nav_links :: "bool \<times> bool \<Rightarrow> string \<Rightarrow> string list" where
  "nav_links flags role =
     (case flags of (cluster, regexEnabled) \<Rightarrow>
       nav_broker @ (if cluster then [''/dashboard/cluster''] else []) @ nav_tools
       @ (if role = RoleAdmin then nav_admin @ (if regexEnabled then [''/dashboard/mqtt-acl-regex''] else []) else [])
       @ nav_self)"

text \<open>The pattern a link is served by.\<close>

definition link_pattern :: "string \<Rightarrow> string" where
  "link_pattern l = ''GET '' @ (if l = ''/dashboard/'' then ''/dashboard/{$}'' else l)"

section \<open>No dead links\<close>

text \<open>A link of a page is served, and to this user.\<close>

definition link_served :: "route list \<Rightarrow> string \<Rightarrow> string \<Rightarrow> bool" where
  "link_served rs role l = list_ex (\<lambda>r. rt_Pattern r = link_pattern l
     \<and> (rt_Guard r = Wrap \<or> rt_Guard r = WrapAdmin \<and> role = RoleAdmin)) rs"

lemma link_served_append [simp]: "link_served (rs @ rs') role l \<longleftrightarrow> link_served rs role l \<or> link_served rs' role l"
  by (simp add: link_served_def)

lemma base_links:
  "list_all (link_served base_routes role) (nav_broker @ nav_tools @ nav_self)"
  by (simp add: link_served_def link_pattern_def base_routes_def nav_broker_def nav_tools_def nav_self_def)

lemma admin_links: "list_all (link_served base_routes RoleAdmin) nav_admin"
  by (simp add: link_served_def link_pattern_def base_routes_def nav_admin_def)

lemma optional_links:
  "link_served [rt ''GET /dashboard/cluster'' Wrap ''ClusterPage''] role ''/dashboard/cluster''"
  "link_served regex_routes RoleAdmin ''/dashboard/mqtt-acl-regex''"
  by (simp_all add: link_served_def link_pattern_def regex_routes_def)

text \<open>Which handlers are registered decides the flags.\<close>

lemma no_optional_handler:
  "r \<in> set base_routes \<Longrightarrow> rt_Handler r \<noteq> ''ClusterPage''" "r \<in> set base_routes \<Longrightarrow> rt_Handler r \<noteq> ''MQTTACLRegexList''"
  "r \<in> set regex_routes \<Longrightarrow> rt_Handler r \<noteq> ''ClusterPage''"
proof -
  have "list_all (\<lambda>r. rt_Handler r \<noteq> ''ClusterPage'') base_routes" "list_all (\<lambda>r. rt_Handler r \<noteq> ''MQTTACLRegexList'') base_routes"
    "list_all (\<lambda>r. rt_Handler r \<noteq> ''ClusterPage'') regex_routes"
    by (simp_all add: base_routes_def regex_routes_def)
  then show "r \<in> set base_routes \<Longrightarrow> rt_Handler r \<noteq> ''ClusterPage''"
    "r \<in> set base_routes \<Longrightarrow> rt_Handler r \<noteq> ''MQTTACLRegexList''"
    "r \<in> set regex_routes \<Longrightarrow> rt_Handler r \<noteq> ''ClusterPage''"
    by (simp_all add: list_all_iff)
qed

lemma page_flags_served:
  assumes "r \<in> set (route_table opts)" "page_flags opts (rt_Handler r) = (cluster, regex)"
  shows "cluster \<Longrightarrow> op_Cluster opts" "regex \<Longrightarrow> op_RegexBackend opts"
  using assms no_optional_handler by (auto simp: page_flags_def route_table_def split: if_splits)

text \<open>
  C8. The navigation has no dead and no forbidden link. On every page of a dashboard that has its
  cluster agent whenever it is in a cluster, each link that is shown to a user is a route of that
  dashboard, and one whose guard lets this user's role pass: the links of the cluster page and of the
  regex page are shown only when those pages are registered, and those of the administration only to
  administrators.
\<close>

theorem nav_links_served:
  assumes "op_Cluster opts \<longrightarrow> op_ClusterAgent opts" "r \<in> set (route_table opts)"
    and "link \<in> set (nav_links (page_flags opts (rt_Handler r)) role)"
  shows "link_served (route_table opts) role link"
proof -
  obtain cluster regex where f: "page_flags opts (rt_Handler r) = (cluster, regex)" by fastforce
  have served: "cluster \<Longrightarrow> op_Cluster opts \<and> op_ClusterAgent opts" "regex \<Longrightarrow> op_RegexBackend opts"
    using page_flags_served [OF assms(2) f] assms(1) by blast+
  consider (base) "link \<in> set (nav_broker @ nav_tools @ nav_self)" | (admin) "role = RoleAdmin" "link \<in> set nav_admin"
    | (cluster) cluster "link = ''/dashboard/cluster''" | (regex) regex "role = RoleAdmin" "link = ''/dashboard/mqtt-acl-regex''"
    using assms(3) unfolding f nav_links_def prod.case set_append by (auto split: if_splits)
  then show ?thesis
  proof cases
    case base
    then show ?thesis using base_links [of role] unfolding list_all_iff route_table_def link_served_append by blast
  next
    case admin
    then show ?thesis using admin_links unfolding list_all_iff route_table_def link_served_append by blast
  next
    case cluster
    then show ?thesis unfolding route_table_def link_served_append using served(1) optional_links(1) by simp
  next
    case regex
    then show ?thesis unfolding route_table_def link_served_append using served(2) optional_links(2) by simp
  qed
qed

text \<open>The link of the cluster page, on the overview page of a viewer in a cluster.\<close>

theorem nav_links_served_witness:
  "link_served (route_table (demo_options\<lparr>op_Cluster := True, op_ClusterAgent := True\<rparr>)) RoleViewer ''/dashboard/cluster''"
proof -
  let ?o = "demo_options\<lparr>op_Cluster := True, op_ClusterAgent := True\<rparr>" let ?r = "rt ''GET /dashboard/{$}'' Wrap ''OverviewGet''"
  have r: "?r \<in> set (route_table ?o)" unfolding route_table_def base_routes_def by simp
  have "''/dashboard/cluster'' \<in> set (nav_links (page_flags ?o (rt_Handler ?r)) RoleViewer)"
    unfolding page_flags_def by (simp add: nav_links_def)
  with r show ?thesis by (intro nav_links_served [of ?o ?r]) simp_all
qed

end
