(* ===== verification/BridgeRun.thy ===== *)
theory BridgeRun
  imports Sse
begin

text \<open>
  The life of the bridge of \<open>dashboard/sse/bridge_redis.go\<close>: the two goroutines that \<open>Start\<close> spawns, beside
  everything else that uses the hub, and \<open>Stop\<close>, which cancels their context and waits for them.
\<close>

section \<open>Calls of the hub\<close>

text \<open>Here a call of the hub is one step; it is a run of the steps of \<open>hub_step\<close>.\<close>

datatype hub_op = OpPublish Event | OpSubscribe | OpUnsubscribe nat | OpReceive nat | OpClose

fun hub_do :: "hub_op \<Rightarrow> Hub \<Rightarrow> Hub" where
  "hub_do (OpPublish e) h = Publish e h"
| "hub_do OpSubscribe h = snd (Subscribe h)"
| "hub_do (OpUnsubscribe c) h = Unsubscribe c h"
| "hub_do (OpReceive c) h = receive c h"
| "hub_do OpClose h = Close h"

definition alone :: "Hub \<Rightarrow> system" where
  "alone h = \<lparr>hub = h, pubs = [], closing = 0\<rparr>"

lemma sends_steps:
  "hub_step\<^sup>*\<^sup>* \<lparr>hub = h, pubs = [Sending e todo], closing = k\<rparr> \<lparr>hub = fold (try_send e) todo h, pubs = [], closing = k\<rparr>"
proof (induction todo arbitrary: h)
  case Nil
  show ?case using hub_step.runlock [of "\<lparr>hub = h, pubs = [Sending e []], closing = k\<rparr>" "[]" e "[]"] by auto
next
  case (Cons s todo)
  have "hub_step \<lparr>hub = h, pubs = [Sending e (s # todo)], closing = k\<rparr> \<lparr>hub = try_send e s h, pubs = [Sending e todo], closing = k\<rparr>"
    using hub_step.send [of "\<lparr>hub = h, pubs = [Sending e (s # todo)], closing = k\<rparr>" "[]" e s todo "[]"] by simp
  with Cons.IH [of "try_send e s h"] show ?case by simp
qed

lemma hub_do_steps: "hub_step\<^sup>*\<^sup>* (alone h) (alone (hub_do op h))"
proof (cases op)
  case (OpPublish e)
  show ?thesis
  proof (cases "closed h")
    case True
    then show ?thesis using OpPublish by (simp add: Publish_def)
  next
    case False
    let ?h = "h\<lparr>seq := seq h + 1\<rparr>" let ?e = "e\<lparr>Seq := seq h + 1\<rparr>"
    have "hub_step (alone h) \<lparr>hub = h, pubs = [Checked e], closing = 0\<rparr>"
      using hub_step.check [of "alone h" e] False by (simp add: alone_def)
    moreover have "hub_step \<lparr>hub = h, pubs = [Checked e], closing = 0\<rparr> \<lparr>hub = ?h, pubs = [Stamped ?e], closing = 0\<rparr>"
      using hub_step.stamp [of "\<lparr>hub = h, pubs = [Checked e], closing = 0\<rparr>" "[]" e "[]"] by simp
    moreover have "hub_step \<lparr>hub = ?h, pubs = [Stamped ?e], closing = 0\<rparr> \<lparr>hub = ?h, pubs = [Sending ?e (subs h)], closing = 0\<rparr>"
      using hub_step.rlock [of "\<lparr>hub = ?h, pubs = [Stamped ?e], closing = 0\<rparr>" "[]" ?e "[]"] by simp
    ultimately have "hub_step\<^sup>*\<^sup>* (alone h) \<lparr>hub = fold (try_send ?e) (subs h) ?h, pubs = [], closing = 0\<rparr>"
      using sends_steps [of ?h ?e "subs h" 0] by (meson converse_rtranclp_into_rtranclp)
    then show ?thesis using OpPublish False by (simp add: Publish_def Let_def alone_def)
  qed
next
  case OpSubscribe
  then show ?thesis using hub_step.subscribe [of "alone h"] by (auto simp: alone_def read_locked_def)
next
  case (OpUnsubscribe c)
  then show ?thesis using hub_step.unsubscribe [of "alone h" c] by (auto simp: alone_def read_locked_def)
next
  case (OpReceive c)
  then show ?thesis using hub_step.recv [of "alone h" c] by (auto simp: alone_def)
next
  case OpClose
  show ?thesis
  proof (cases "closed h")
    case True
    then show ?thesis using OpClose by (simp add: Close_def)
  next
    case False
    let ?h = "h\<lparr>closed := True\<rparr>"
    have "hub_step (alone h) \<lparr>hub = ?h, pubs = [], closing = 1\<rparr>"
      using hub_step.close_cas [of "alone h"] False by (simp add: alone_def)
    moreover have "hub_step \<lparr>hub = ?h, pubs = [], closing = 1\<rparr> (alone ((fold close_chan (subs h) ?h)\<lparr>subs := []\<rparr>))"
      using hub_step.close_lock [of "\<lparr>hub = ?h, pubs = [], closing = 1\<rparr>" 0] by (simp add: alone_def read_locked_def)
    ultimately show ?thesis using OpClose False by (simp add: Close_def Let_def)
  qed
qed

lemma chans_ok_hub_do: "chans_ok n h \<Longrightarrow> chans_ok n (hub_do op h)"
proof -
  assume h: "chans_ok n h"
  have "sys_inv n \<sigma>'" if "hub_step\<^sup>*\<^sup>* \<sigma> \<sigma>'" "sys_inv n \<sigma>" for \<sigma> \<sigma>'
    using that by (induction rule: rtranclp_induct) (auto intro: sys_inv_step)
  from this [OF hub_do_steps] have "sys_inv n (alone h) \<Longrightarrow> sys_inv n (alone (hub_do op h))" by blast
  with h show ?thesis by (simp add: sys_inv_def alone_def)
qed

lemma fold_frame [simp]:
  "fresh (fold (try_send e) ss h) = fresh h" "subs (fold (try_send e) ss h) = subs h" "fresh (fold close_chan ss h) = fresh h"
  by (induction ss arbitrary: h) (simp_all add: try_send_def close_chan_def)

lemma hub_do_fresh: "fresh h \<le> fresh (hub_do op h)"
  by (cases op) (simp_all add: Publish_def Subscribe_def Unsubscribe_def receive_def Close_def Let_def split: list.split)

lemma hub_do_subs: "c \<in> set (subs (hub_do op h)) \<Longrightarrow> c \<in> set (subs h) \<or> c = fresh h"
  by (cases op) (auto simp: Publish_def Subscribe_def Unsubscribe_def receive_def Close_def Let_def split: list.splits if_splits)

section \<open>The goroutines\<close>

datatype place = Starting | Looping | Leaving | Exited

text \<open>
  \<open>bg_stopF\<close>: \<open>b.stopF\<close> is not nil; \<open>bg_wg\<close>: the wait group; \<open>bg_sent\<close>: what went to redis; \<open>bg_stopped\<close>: a
  call of \<open>Stop\<close> has returned. \<open>bg_sub\<close> is \<open>Looping\<close> or \<open>Exited\<close>: what it opens and closes is the library's.
\<close>

record bridge_run =
  bg_bridge :: Bridge
  bg_stopF :: bool
  bg_ctxDone :: bool
  bg_wg :: int
  bg_pub :: place
  bg_ch :: nat
  bg_sub :: place
  bg_sent :: "bytes list"
  bg_stopped :: bool
  bg_panicked :: bool

definition bridge_started :: "Bridge \<Rightarrow> bridge_run" where
  "bridge_started b = \<lparr>bg_bridge = Start b, bg_stopF = True, bg_ctxDone = False, bg_wg = 2, bg_pub = Starting, bg_ch = 0,
     bg_sub = Looping, bg_sent = [], bg_stopped = False, bg_panicked = False\<rparr>"

definition pub_begin :: "bridge_run \<Rightarrow> Hub \<Rightarrow> bridge_run \<times> Hub" where
  "pub_begin r h = (r\<lparr>bg_pub := Looping, bg_ch := fst (Subscribe h)\<rparr>, hub_do OpSubscribe h)"

text \<open>An event was taken; the error of \<open>Client.Publish\<close> is dropped.\<close>

definition pub_event :: "(Event \<Rightarrow> bytes option) \<Rightarrow> bool \<Rightarrow> Event \<Rightarrow> bridge_run \<Rightarrow> Hub \<Rightarrow> bridge_run \<times> Hub" where
  "pub_event marshal sent ev r h =
     (case publisher_round marshal (bg_bridge r) ev of
        None \<Rightarrow> r
      | Some body \<Rightarrow> if sent then r\<lparr>bg_sent := bg_sent r @ [body]\<rparr> else r, hub_do (OpReceive (bg_ch r)) h)"

text \<open>The two deferred calls, the last one first: the channel is given back, then the wait group is told.\<close>

definition pub_leave :: "bridge_run \<Rightarrow> Hub \<Rightarrow> bridge_run \<times> Hub" where
  "pub_leave r h = (r\<lparr>bg_pub := Leaving\<rparr>, hub_do (OpUnsubscribe (bg_ch r)) h)"

definition pub_done :: "bridge_run \<Rightarrow> bridge_run" where
  "pub_done r = r\<lparr>bg_pub := Exited, bg_wg := bg_wg r - 1\<rparr>"

definition sub_message :: "(bytes \<Rightarrow> Event option) \<Rightarrow> bytes \<Rightarrow> bridge_run \<Rightarrow> Hub \<Rightarrow> bridge_run \<times> Hub" where
  "sub_message unmarshal m r h =
     (case subscriber_round unmarshal m (bg_bridge r) of
        None \<Rightarrow> (r\<lparr>bg_panicked := True\<rparr>, h)
      | Some (None, b) \<Rightarrow> (r\<lparr>bg_bridge := b\<rparr>, h)
      | Some (Some ev, b) \<Rightarrow> (r\<lparr>bg_bridge := b\<rparr>, hub_do (OpPublish ev) h))"

definition sub_leave :: "bridge_run \<Rightarrow> bridge_run" where
  "sub_leave r = r\<lparr>bg_sub := Exited, bg_wg := bg_wg r - 1\<rparr>"

text \<open>\<open>Stop\<close> up to the wait, and its return.\<close>

definition Stop :: "bridge_run \<Rightarrow> bridge_run" where
  "Stop r = (if bg_stopF r then r\<lparr>bg_ctxDone := True, bg_stopF := False\<rparr> else r)"

definition Stop_returns :: "bridge_run \<Rightarrow> bridge_run option" where
  "Stop_returns r = (if bg_wg r = 0 then Some (r\<lparr>bg_stopped := True\<rparr>) else None)"

text \<open>
  A step of one of the goroutines, a call of \<open>Stop\<close>, its return, or a call of the hub by somebody else.
  Nobody else has the publisher's channel. The library may close the channel of messages at any time.
\<close>

definition foreign :: "bridge_run \<Rightarrow> hub_op \<Rightarrow> bool" where
  "foreign r op \<longleftrightarrow> (bg_pub r = Looping \<longrightarrow> op \<noteq> OpUnsubscribe (bg_ch r) \<and> op \<noteq> OpReceive (bg_ch r))"

inductive bridge_step ::
  "(Event \<Rightarrow> bytes option) \<Rightarrow> (bytes \<Rightarrow> Event option) \<Rightarrow> bridge_run \<times> Hub \<Rightarrow> bridge_run \<times> Hub \<Rightarrow> bool"
  for marshal unmarshal where
  starts: "bg_pub r = Starting \<Longrightarrow> bridge_step marshal unmarshal (r, h) (pub_begin r h)"
| event: "bg_pub r = Looping \<Longrightarrow> buf (chans h (bg_ch r)) = ev # evs \<Longrightarrow>
    bridge_step marshal unmarshal (r, h) (pub_event marshal sent ev r h)"
| leave: "bg_pub r = Looping \<Longrightarrow> bg_ctxDone r \<or> buf (chans h (bg_ch r)) = [] \<and> \<not> isopen (chans h (bg_ch r)) \<Longrightarrow>
    bridge_step marshal unmarshal (r, h) (pub_leave r h)"
| finish: "bg_pub r = Leaving \<Longrightarrow> bridge_step marshal unmarshal (r, h) (pub_done r, h)"
| message: "bg_sub r = Looping \<Longrightarrow> bridge_step marshal unmarshal (r, h) (sub_message unmarshal m r h)"
| unlisten: "bg_sub r = Looping \<Longrightarrow> bg_ctxDone r \<or> msgsClosed \<Longrightarrow> bridge_step marshal unmarshal (r, h) (sub_leave r, h)"
| stop: "bridge_step marshal unmarshal (r, h) (Stop r, h)"
| returned: "\<not> bg_stopF r \<Longrightarrow> Stop_returns r = Some r' \<Longrightarrow> bridge_step marshal unmarshal (r, h) (r', h)"
| other: "foreign r op \<Longrightarrow> bridge_step marshal unmarshal (r, h) (r, hub_do op h)"

section \<open>The invariant\<close>

definition live :: "place \<Rightarrow> int" where
  "live p = (if p = Exited then 0 else 1)"

definition run_inv :: "nat \<Rightarrow> bridge_run \<times> Hub \<Rightarrow> bool" where
  "run_inv n s \<longleftrightarrow> (case s of (r, h) \<Rightarrow> chans_ok n h \<and> \<not> bg_panicked r
     \<and> bg_wg r = live (bg_pub r) + live (bg_sub r) \<and> bg_sub r \<in> {Looping, Exited}
     \<and> (bg_pub r \<noteq> Starting \<longrightarrow> bg_ch r < fresh h)
     \<and> (bg_pub r \<in> {Leaving, Exited} \<longrightarrow> bg_ch r \<notin> set (subs h))
     \<and> bg_ctxDone r = (\<not> bg_stopF r) \<and> (bg_stopped r \<longrightarrow> bg_wg r = 0)
     \<and> (\<exists>node k out. bridge_inv node k out (bg_bridge r)))"

lemma live_simps [simp]: "live Exited = 0" "live Starting = 1" "live Looping = 1" "live Leaving = 1" "0 \<le> live p"
  by (simp_all add: live_def)

lemma run_inv_start: "chans_ok n h \<Longrightarrow> run_inv n (bridge_started b, h)"
  using bridge_inv_Start by (auto simp: run_inv_def bridge_started_def)

lemma run_inv_hub: "run_inv n (r, h) \<Longrightarrow> run_inv n (r, hub_do op h)"
  using hub_do_fresh [of h op] hub_do_subs [of _ op h]
  by (fastforce simp: run_inv_def chans_ok_hub_do)

lemma Unsubscribe_gone: "c \<notin> set (subs (Unsubscribe c h))"
  by (simp add: Unsubscribe_def Let_def)

lemma run_inv_step:
  assumes "bridge_step marshal unmarshal s s'" "run_inv n s"
  shows "run_inv n s'"
  using assms
proof cases
  case (starts r h)
  have "fst (Subscribe h) < fresh (hub_do OpSubscribe h)" by (simp add: Subscribe_def Let_def)
  with starts assms(2) show ?thesis
    using chans_ok_hub_do [of n h OpSubscribe] by (auto simp: run_inv_def pub_begin_def live_def split: if_splits)
next
  case (event r h ev evs sent)
  have "run_inv n (r, hub_do (OpReceive (bg_ch r)) h)" using run_inv_hub assms(2) event(1) by blast
  then show ?thesis unfolding event(2) by (auto simp: pub_event_def run_inv_def split: option.split)
next
  case (leave r h)
  have "run_inv n (r, hub_do (OpUnsubscribe (bg_ch r)) h)" using run_inv_hub assms(2) leave(1) by blast
  then show ?thesis unfolding leave(2) using leave(3)
    by (auto simp: pub_leave_def run_inv_def Unsubscribe_gone live_def split: if_splits)
next
  case (finish r h)
  then show ?thesis using assms(2) by (auto simp: run_inv_def pub_done_def live_def split: if_splits)
next
  case (message r h m)
  obtain node k out where b: "bridge_inv node k out (bg_bridge r)" using assms(2) message(1) by (auto simp: run_inv_def)
  obtain o' b' where s: "subscriber_round unmarshal m (bg_bridge r) = Some (o', b')"
      "bridge_inv node k (out @ (case o' of None \<Rightarrow> [] | Some ev \<Rightarrow> [ev])) b'"
    using subscriber_round_inv [OF b] by blast
  have "run_inv n (r\<lparr>bg_bridge := b'\<rparr>, h)" using assms(2) message(1) s(2) by (auto simp: run_inv_def)
  then show ?thesis unfolding message(2) sub_message_def using s(1) run_inv_hub [of n _ h "OpPublish _"] by (auto split: option.split)
next
  case (unlisten r h msgsClosed)
  then show ?thesis using assms(2) by (auto simp: run_inv_def sub_leave_def live_def split: if_splits)
next
  case (stop r h)
  then show ?thesis using assms(2) by (auto simp: run_inv_def Stop_def)
next
  case (returned r r' h)
  have "r' = r\<lparr>bg_stopped := True\<rparr>" "bg_wg r = 0" using returned(4) by (auto simp: Stop_returns_def split: if_splits)
  then show ?thesis using assms(2) returned(1) unfolding returned(2) by (simp add: run_inv_def)
next
  case (other r op h)
  then show ?thesis using assms(2) run_inv_hub by blast
qed

lemma run_inv_run: "(bridge_step marshal unmarshal)\<^sup>*\<^sup>* s s' \<Longrightarrow> run_inv n s \<Longrightarrow> run_inv n s'"
  by (induction rule: rtranclp_induct) (auto intro: run_inv_step)

section \<open>Stopping\<close>

lemma stopped_exited:
  assumes "run_inv n (r, h)" "bg_stopped r"
  shows "bg_pub r = Exited \<and> bg_sub r = Exited \<and> bg_ch r \<notin> set (subs h) \<and> bg_ch r < fresh h"
  using assms by (auto simp: run_inv_def live_def split: if_splits)

lemma stopped_step:
  assumes "bridge_step marshal unmarshal s s'" "run_inv n s" "bg_stopped (fst s)"
  shows "bg_stopped (fst s') \<and> bg_sent (fst s') = bg_sent (fst s) \<and> bg_bridge (fst s') = bg_bridge (fst s)
    \<and> bg_ch (fst s') = bg_ch (fst s)"
proof -
  obtain r h where s: "s = (r, h)" by fastforce
  have "bg_pub r = Exited" "bg_sub r = Exited" using stopped_exited [of n r h] assms(2,3) s by auto
  from assms(1) this show ?thesis unfolding s using assms(3) s
    by cases (auto simp: Stop_def Stop_returns_def split: if_splits)
qed

lemma stopped_run:
  assumes "(bridge_step marshal unmarshal)\<^sup>*\<^sup>* s s'" "run_inv n s" "bg_stopped (fst s)"
  shows "bg_stopped (fst s') \<and> bg_sent (fst s') = bg_sent (fst s) \<and> bg_bridge (fst s') = bg_bridge (fst s)
    \<and> bg_ch (fst s') = bg_ch (fst s)"
  using assms
proof (induction rule: rtranclp_induct)
  case (step s1 s2)
  have "run_inv n s1" using run_inv_run [OF step.hyps(1) step.prems(1)] .
  with stopped_step [OF step.hyps(2)] step.IH step.prems show ?case by simp
qed simp

text \<open>Under a cancelled context each goroutine is at most three steps from its end.\<close>

lemma pub_drain:
  assumes "run_inv n (r, h)" "bg_ctxDone r"
  obtains k r' h' where "k \<le> 3" "(bridge_step marshal unmarshal ^^ k) (r, h) (r', h')" "bg_pub r' = Exited" "bg_ctxDone r'" "run_inv n (r', h')"
proof -
  let ?R = "bridge_step marshal unmarshal"
  define ends where "ends k q g \<longleftrightarrow> (\<exists>q' g'. (?R ^^ k) (q, g) (q', g') \<and> bg_pub q' = Exited \<and> bg_ctxDone q')" for k q g
  have more: "ends (Suc k) q g" if "?R (q, g) (q1, g1)" "ends k q1 g1" for k q g q1 g1
    using that relpowp_Suc_I2 [of ?R] unfolding ends_def by metis
  have zero: "ends 0 q g" if "bg_pub q = Exited" "bg_ctxDone q" for q g using that by (auto simp: ends_def)
  have one: "ends 1 q g" if "bg_pub q = Leaving" "bg_ctxDone q" for q g
    using more [OF bridge_step.finish [OF that(1)] zero] that(2) by (simp add: pub_done_def)
  have two: "ends 2 q g" if "bg_pub q = Looping" "bg_ctxDone q" for q g
    using more [of q g "fst (pub_leave q g)" "snd (pub_leave q g)" 1] bridge_step.leave [OF that(1)] one that(2)
    by (simp add: pub_leave_def numeral_2_eq_2)
  have three: "ends 3 q g" if "bg_pub q = Starting" "bg_ctxDone q" for q g
    using more [of q g "fst (pub_begin q g)" "snd (pub_begin q g)" 2] bridge_step.starts [OF that(1)] two that(2)
    by (simp add: pub_begin_def numeral_3_eq_3 numeral_2_eq_2)
  have "ends (case bg_pub r of Exited \<Rightarrow> 0 | Leaving \<Rightarrow> 1 | Looping \<Rightarrow> 2 | Starting \<Rightarrow> 3) r h"
    using zero one two three assms(2) by (simp split: place.split)
  moreover have "(case bg_pub r of Exited \<Rightarrow> 0 | Leaving \<Rightarrow> 1 | Looping \<Rightarrow> 2 | Starting \<Rightarrow> 3) \<le> (3 :: nat)"
    by (simp split: place.split)
  ultimately have "\<exists>k \<le> 3. ends k r h" by blast
  then obtain k r' h' where e: "k \<le> 3" "(?R ^^ k) (r, h) (r', h')" "bg_pub r' = Exited" "bg_ctxDone r'" by (auto simp: ends_def)
  from run_inv_run [OF relpowp_imp_rtranclp [OF e(2)] assms(1)] e that show thesis by blast
qed

lemma sub_drain:
  assumes "run_inv n (r, h)" "bg_ctxDone r" "bg_pub r = Exited"
  obtains k r' where "k \<le> 1" "(bridge_step marshal unmarshal ^^ k) (r, h) (r', h)" "bg_pub r' = Exited" "bg_sub r' = Exited"
    "bg_ctxDone r'" "run_inv n (r', h)"
proof (cases "bg_sub r = Exited")
  case True
  then show thesis using that [of 0 r] assms by simp
next
  case False
  then have "bg_sub r = Looping" using assms(1) by (cases "bg_sub r") (auto simp: run_inv_def)
  then have l: "bridge_step marshal unmarshal (r, h) (sub_leave r, h)" using assms(2) by (intro bridge_step.unlisten) auto
  show thesis
    by (rule that [of 1 "sub_leave r"]) (use l assms run_inv_step [OF l assms(1)] in \<open>simp_all add: sub_leave_def eq_OO\<close>)
qed

lemma Stop_drain:
  assumes "run_inv n (r, h)"
  shows "\<exists>k \<le> 6. \<exists>r' h'. (bridge_step marshal unmarshal ^^ k) (r, h) (r', h') \<and> bg_stopped r'"
proof -
  have s: "bridge_step marshal unmarshal (r, h) (Stop r, h)" by (rule bridge_step.stop)
  have "bg_ctxDone r = (\<not> bg_stopF r)" using assms by (simp add: run_inv_def)
  then have "bg_ctxDone (Stop r)" by (simp add: Stop_def)
  note i = run_inv_step [OF s assms] this
  obtain k1 r1 h1 where d1: "k1 \<le> 3" "(bridge_step marshal unmarshal ^^ k1) (Stop r, h) (r1, h1)" "bg_pub r1 = Exited"
      "bg_ctxDone r1" "run_inv n (r1, h1)"
    by (rule pub_drain [OF i])
  obtain k2 r2 where d2: "k2 \<le> 1" "(bridge_step marshal unmarshal ^^ k2) (r1, h1) (r2, h1)" "bg_pub r2 = Exited"
      "bg_sub r2 = Exited" "bg_ctxDone r2" "run_inv n (r2, h1)"
    by (rule sub_drain [OF d1(5,4,3)])
  have l: "bridge_step marshal unmarshal (r2, h1) (r2\<lparr>bg_stopped := True\<rparr>, h1)"
    using d2 by (intro bridge_step.returned) (auto simp: run_inv_def Stop_returns_def)
  note run = relpowp_Suc_I [OF relpowp_trans [OF relpowp_Suc_I2 [OF s d1(2)] d2(2)] l]
  then have "\<exists>r' h'. (bridge_step marshal unmarshal ^^ Suc (Suc k1 + k2)) (r, h) (r', h') \<and> bg_stopped r'"
    by (intro exI [of _ "r2\<lparr>bg_stopped := True\<rparr>"] exI [of _ h1] conjI) (assumption, simp)
  moreover have "Suc (Suc k1 + k2) \<le> 6" using d1(1) d2(1) by simp
  ultimately show ?thesis by blast
qed

text \<open>
  C14. The bridge can be stopped. In every interleaving of its two goroutines with everything else that
  uses the hub, from the start of the bridge on: nothing panics, and a call of \<open>Stop\<close> is never stuck
  (from every state it returns within six steps of the bridge). Once \<open>Stop\<close> has returned, both goroutines
  have ended, the subscription of the bridge is gone from the hub for ever, and whatever happens later,
  nothing more is sent to redis and no message is handled.
\<close>

theorem bridge_stops:
  assumes "hub_reach n (alone h0)"
    and "(bridge_step marshal unmarshal)\<^sup>*\<^sup>* (bridge_started b, h0) (r, h)"
  shows "\<not> bg_panicked r \<and> \<not> panicked h
    \<and> (\<exists>k \<le> 6. \<exists>r' h'. (bridge_step marshal unmarshal ^^ k) (r, h) (r', h') \<and> bg_stopped r')
    \<and> (bg_stopped r \<longrightarrow> bg_pub r = Exited \<and> bg_sub r = Exited
        \<and> (\<forall>r' h'. (bridge_step marshal unmarshal)\<^sup>*\<^sup>* (r, h) (r', h') \<longrightarrow>
             bg_ch r \<notin> set (subs h') \<and> bg_sent r' = bg_sent r \<and> bg_bridge r' = bg_bridge r))"
proof -
  have "chans_ok n h0" using sys_inv_reach [OF assms(1)] by (simp add: sys_inv_def alone_def)
  from run_inv_run [OF assms(2) run_inv_start [OF this]] have i: "run_inv n (r, h)" .
  have later: "bg_ch r \<notin> set (subs h') \<and> bg_sent r' = bg_sent r \<and> bg_bridge r' = bg_bridge r"
    if "bg_stopped r" "(bridge_step marshal unmarshal)\<^sup>*\<^sup>* (r, h) (r', h')" for r' h'
    using stopped_run [OF that(2) i] stopped_exited [OF run_inv_run [OF that(2) i]] that(1) by auto
  have "\<not> bg_panicked r \<and> \<not> panicked h" using i by (auto simp: run_inv_def chans_ok_def)
  with Stop_drain [OF i] stopped_exited [OF i] later show ?thesis by blast
qed

theorem bridge_stops_witness:
  "\<exists>k \<le> 6. \<exists>r' h'. (bridge_step (\<lambda>_. None) (\<lambda>_. None) ^^ k) (pub_begin (bridge_started (NewBridge ''a'')) (NewHub 4)) (r', h')
     \<and> bg_stopped r'"
proof -
  let ?s = "pub_begin (bridge_started (NewBridge ''a'')) (NewHub 4)"
  have "bridge_step (\<lambda>_. None) (\<lambda>_. None) (bridge_started (NewBridge ''a''), NewHub 4) ?s"
    by (rule bridge_step.starts) (simp add: bridge_started_def)
  then have "(bridge_step (\<lambda>_. None) (\<lambda>_. None))\<^sup>*\<^sup>* (bridge_started (NewBridge ''a''), NewHub 4) (fst ?s, snd ?s)" by simp
  moreover have "hub_reach 4 (alone (NewHub 4))" unfolding alone_def by (rule hub_reach.init)
  ultimately show ?thesis using bridge_stops [of 4 "NewHub 4" "\<lambda>_. None" "\<lambda>_. None" "NewBridge ''a''" "fst ?s" "snd ?s"] by simp
qed

end
