(* ===== verification/Pagination.thy ===== *)
theory Pagination
  imports Http
begin

text \<open>
  \<open>rest/pagination.go\<close>: how every list of the REST interface and of the dashboard is cut into
  pages. The products and sums are Go \<open>int\<close>s and wrap; a slice expression out of range panics,
  which is \<open>None\<close> here.
\<close>

definition DefaultPageSize :: int where
  "DefaultPageSize = 25"

definition MaxPageSize :: int where
  "MaxPageSize = 500"

record PageParams =
  Page :: int
  Size :: int

definition ParsePage :: "form_values \<Rightarrow> PageParams" where
  "ParsePage q =
     (let page = fst (Atoi (q ''page''));
          page = (if page < 1 then 1 else page);
          size = fst (Atoi (q ''size''));
          size = (if size < 1 then DefaultPageSize else size);
          size = (if size > MaxPageSize then MaxPageSize else size)
      in \<lparr>Page = page, Size = size\<rparr>)"

text \<open>\<open>items[start:end]\<close> with \<open>end <= len(items)\<close>.\<close>

definition slice :: "'a list \<Rightarrow> int \<Rightarrow> int \<Rightarrow> 'a list option" where
  "slice items start stop =
     (if start < 0 \<or> stop < start \<or> stop > int (length items) then None
      else Some (take (nat (stop - start)) (drop (nat start) items)))"

definition ApplyPagination :: "'a list \<Rightarrow> PageParams \<Rightarrow> 'a list option" where
  "ApplyPagination items p =
     (let start = wrap64 (wrap64 (Page p - 1) * Size p);
          stop = wrap64 (start + Size p)
      in if start \<ge> int (length items) then Some []
         else let stop = (if stop > int (length items) then int (length items) else stop)
              in slice items start stop)"

record 'a page_result =
  pr_Page :: int
  pr_Size :: int
  pr_Total :: int
  pr_Items :: "'a list"

text \<open>The value every list handler builds around its page.\<close>

definition page_of :: "'a list \<Rightarrow> PageParams \<Rightarrow> 'a page_result option" where
  "page_of items p =
     map_option (\<lambda>xs. \<lparr>pr_Page = Page p, pr_Size = Size p, pr_Total = int (length items), pr_Items = xs\<rparr>)
       (ApplyPagination items p)"

lemma ParsePage_bounds: "1 \<le> Page (ParsePage q) \<and> 1 \<le> Size (ParsePage q) \<and> Size (ParsePage q) \<le> 500"
  by (auto simp: ParsePage_def Let_def DefaultPageSize_def MaxPageSize_def)

lemma slice_clipped:
  assumes "0 \<le> start" "1 \<le> sz"
  shows "(if start \<ge> int (length items) then Some []
      else slice items start (min (start + sz) (int (length items))))
    = Some (take (nat sz) (drop (nat start) items))"
proof (cases "start + sz \<le> int (length items)")
  case True
  then show ?thesis using assms by (simp add: slice_def)
next
  case False
  then show ?thesis using assms by (auto simp: slice_def min_def nat_le_iff)
qed

lemma ApplyPagination_eq:
  assumes "1 \<le> Page p" "1 \<le> Size p" "Page p * Size p < 2 ^ 63"
  shows "ApplyPagination items p =
    Some (take (nat (Size p)) (drop (nat ((Page p - 1) * Size p)) items))"
proof -
  let ?st = "(Page p - 1) * Size p"
  have st: "0 \<le> ?st" using assms by simp
  have st': "?st + Size p = Page p * Size p" by (simp add: algebra_simps)
  have "Page p * 1 \<le> Page p * Size p" by (rule mult_left_mono) (use assms in simp_all)
  then have "is_int64 (Page p - 1)" unfolding is_int64_def using assms by linarith
  moreover have "is_int64 ?st" "is_int64 (?st + Size p)"
    unfolding is_int64_def using st st' assms by linarith+
  ultimately have w: "wrap64 (wrap64 (Page p - 1) * Size p) = ?st" "wrap64 (?st + Size p) = ?st + Size p"
    by simp_all
  have "ApplyPagination items p =
    (if ?st \<ge> int (length items) then Some [] else
       slice items ?st (min (?st + Size p) (int (length items))))"
    by (simp add: ApplyPagination_def Let_def w min_def)
  also have "\<dots> = Some (take (nat (Size p)) (drop (nat ?st) items))"
    by (rule slice_clipped [OF st assms(2)])
  finally show ?thesis .
qed

lemma concat_pages:
  assumes "0 < n"
  shows "concat (map (\<lambda>i. take n (drop (i * n) xs)) [0..<k]) = take (k * n) xs"
proof (induction k)
  case (Suc k)
  have "take (k * n) xs @ take n (drop (k * n) xs) = take (k * n + n) xs"
    by (simp add: take_add)
  with Suc show ?case by (simp add: algebra_simps)
qed simp

lemma pages_cover:
  assumes "1 \<le> sz" "sz \<le> 500" "int k * sz < 2 ^ 63" "int (length items) \<le> int k * sz"
  shows "\<exists>ps. map (\<lambda>i. ApplyPagination items \<lparr>Page = int i, Size = sz\<rparr>) [1..<Suc k] = map Some ps
    \<and> concat ps = items \<and> (\<forall>p \<in> set ps. int (length p) \<le> sz)"
proof -
  let ?pg = "\<lambda>i. take (nat sz) (drop (i * nat sz) items)"
  have pg: "ApplyPagination items \<lparr>Page = int (Suc i), Size = sz\<rparr> = Some (?pg i)" if "i < k" for i
  proof -
    have "int (Suc i) * sz \<le> int k * sz" by (rule mult_right_mono) (use that assms in simp_all)
    then have "int (Suc i) * sz < 2 ^ 63" using assms(3) by linarith
    moreover have "nat (int i * sz) = i * nat sz" using assms by (simp add: nat_mult_distrib)
    ultimately show ?thesis
      using assms ApplyPagination_eq [of "\<lparr>Page = int (Suc i), Size = sz\<rparr>" items] by simp
  qed
  have "map (\<lambda>i. ApplyPagination items \<lparr>Page = int i, Size = sz\<rparr>) [1..<Suc k] =
      map Some (map ?pg [0..<k])"
    by (rule nth_equalityI) (use pg in \<open>simp_all del: upt_Suc\<close>)
  moreover have "concat (map ?pg [0..<k]) = items"
  proof -
    have "int (k * nat sz) = int k * sz" using assms(1) by simp
    then have "length items \<le> k * nat sz" using assms(4) by linarith
    then show ?thesis using concat_pages [of "nat sz" items k] assms(1) by simp
  qed
  moreover have "\<forall>p \<in> set (map ?pg [0..<k]). int (length p) \<le> sz" using assms(1) by auto
  ultimately show ?thesis by blast
qed

section \<open>Properties\<close>

text \<open>
  Walking the pages loses nothing and repeats nothing: for a page size the query parser can
  return and as long as \<open>k * size\<close> fits an \<open>int\<close>, the first \<open>k\<close> pages of a list of at most
  \<open>k * size\<close> items are all served (no slice is out of range) and put together are the list.
\<close>

theorem pages_partition:
  assumes "1 \<le> sz" "sz \<le> 500" "int k * sz < 2 ^ 63" "int (length items) \<le> int k * sz"
  shows "\<exists>ps. map (\<lambda>i. ApplyPagination items \<lparr>Page = int i, Size = sz\<rparr>) [1..<Suc k] = map Some ps
    \<and> concat ps = items \<and> (\<forall>p \<in> set ps. int (length p) \<le> sz)"
  using assms by (rule pages_cover)

theorem pages_partition_witness:
  "\<exists>ps. map (\<lambda>i. ApplyPagination ''abcde'' \<lparr>Page = int i, Size = 2\<rparr>) [1..<Suc 3] = map Some ps
    \<and> concat ps = ''abcde'' \<and> (\<forall>p \<in> set ps. int (length p) \<le> 2)"
  by (rule pages_partition) simp_all

text \<open>
  The page number is not bounded from above, and \<open>(page - 1) * size\<close> wraps: some query makes
  the slice expression panic on every list, and some far-away page is answered with the first page
  of the list instead of an empty one.
\<close>

theorem page_overflow:
  "(\<exists>q. \<forall>items :: 'a list. ApplyPagination items (ParsePage q) = None)
   \<and> (\<exists>q. Page (ParsePage q) > 1 \<and>
        (\<forall>items :: 'a list. ApplyPagination items (ParsePage q) = ApplyPagination items \<lparr>Page = 1, Size = 4\<rparr>))"
proof (intro conjI exI allI)
  let ?q = "\<lambda>k. if k = ''page'' then ''9223372036854775807'' else ''2''"
  have "ParsePage ?q = \<lparr>Page = 9223372036854775807, Size = 2\<rparr>" by code_simp
  then show "ApplyPagination items (ParsePage ?q) = None" for items :: "'a list"
    by (simp add: ApplyPagination_def slice_def Let_def wrap64_def)
  let ?r = "\<lambda>k. if k = ''page'' then ''4611686018427387905'' else ''4''"
  have r: "ParsePage ?r = \<lparr>Page = 4611686018427387905, Size = 4\<rparr>" by code_simp
  then show "Page (ParsePage ?r) > 1" by simp
  show "ApplyPagination items (ParsePage ?r) = ApplyPagination items \<lparr>Page = 1, Size = 4\<rparr>"
    for items :: "'a list"
    unfolding r by (simp add: ApplyPagination_def Let_def wrap64_def)
qed

end
