(* ===== verification/TopicTree.thy ===== *)
theory TopicTree
  imports Prelude
begin

text \<open>
  The tree of subscribed topic filters: how one node builds it (\<open>insertTopic\<close>, \<open>sortTree\<close> of
  \<open>rest/topics_tree.go\<close>) and how the cluster mirror merges the trees of its members
  (\<open>mergeTopic\<close>, \<open>sortTopicTree\<close> of \<open>cluster/rest/topics_tree.go\<close>). The pointer updates of the
  source are functional updates of the tree: no node is shared.
\<close>

datatype topicNode = TopicNode (Topic: string) (Subscribers: int) (Children: "topicNode list")

section \<open>Building a tree\<close>

text \<open>
  The loop of \<open>insertTopic\<close> over the segments; \<open>insert_child\<close> is its inner search for a child of
  the segment, which appends one when there is none.
\<close>

function insert_segs :: "string list \<Rightarrow> topicNode \<Rightarrow> topicNode"
  and insert_child :: "string \<Rightarrow> string list \<Rightarrow> topicNode list \<Rightarrow> topicNode list" where
  "insert_segs [] (TopicNode t n cs) = TopicNode t (wrap64 (n + 1)) cs"
| "insert_segs (seg # segs) (TopicNode t n cs) = TopicNode t n (insert_child seg segs cs)"
| "insert_child seg segs [] = [insert_segs segs (TopicNode seg 0 [])]"
| "insert_child seg segs (c # cs) =
     (if Topic c = seg then insert_segs segs c # cs else c # insert_child seg segs cs)"
  by pat_completeness auto
termination
  by (relation "measures [\<lambda>x. case x of Inl (segs, _) \<Rightarrow> length segs | Inr (_, segs, _) \<Rightarrow> length segs,
        \<lambda>x. case x of Inl _ \<Rightarrow> 0 | Inr (_, _, cs) \<Rightarrow> Suc (length cs)]") auto

definition insertTopic :: "topicNode \<Rightarrow> string \<Rightarrow> topicNode" where
  "insertTopic root flt = insert_segs (Split (CHR ''/'') flt) root"

definition empty_root :: topicNode where
  "empty_root = TopicNode [] 0 []"

fun sortTree :: "topicNode \<Rightarrow> topicNode" where
  "sortTree (TopicNode t n cs) = TopicNode t n (map sortTree (sort_key Topic cs))"

section \<open>Merging trees\<close>

text \<open>
  \<open>merge_into\<close> is the body of the loop of \<open>mergeTopic\<close>: find the child of \<open>dst\<close> with the topic of
  \<open>src_child\<close>, or append one, and merge into it.
\<close>

function mergeTopic :: "topicNode \<Rightarrow> topicNode \<Rightarrow> topicNode"
  and merge_children :: "topicNode list \<Rightarrow> topicNode list \<Rightarrow> topicNode list"
  and merge_into :: "topicNode list \<Rightarrow> topicNode \<Rightarrow> topicNode list" where
  "mergeTopic (TopicNode t n cs) (TopicNode t' n' cs') =
     TopicNode t (wrap64 (n + n')) (merge_children cs cs')"
| "merge_children cs [] = cs"
| "merge_children cs (src_child # rest) = merge_children (merge_into cs src_child) rest"
| "merge_into [] src_child = [mergeTopic (TopicNode (Topic src_child) 0 []) src_child]"
| "merge_into (c # cs) src_child =
     (if Topic c = Topic src_child then mergeTopic c src_child # cs
      else c # merge_into cs src_child)"
  by pat_completeness auto
termination
  by (relation "measures
      [\<lambda>x. case x of Inl (_, s) \<Rightarrow> 2 * size s | Inr (Inl (_, ss)) \<Rightarrow> 2 * size_list size ss
         | Inr (Inr (_, s)) \<Rightarrow> 2 * size s + 1,
       \<lambda>x. case x of Inl _ \<Rightarrow> 0 | Inr (Inl (_, ss)) \<Rightarrow> 0 | Inr (Inr (cs, _)) \<Rightarrow> length cs]") auto

fun sortTopicTree :: "topicNode \<Rightarrow> topicNode" where
  "sortTopicTree (TopicNode t n cs) = TopicNode t n (map sortTopicTree (sort_key Topic cs))"

section \<open>What a tree says\<close>

fun child :: "string \<Rightarrow> topicNode list \<Rightarrow> topicNode option" where
  "child s [] = None"
| "child s (c # cs) = (if Topic c = s then Some c else child s cs)"

text \<open>The node at a path below a node.\<close>

fun node_at :: "string list \<Rightarrow> topicNode \<Rightarrow> topicNode option" where
  "node_at [] t = Some t"
| "node_at (s # p) t = (case child s (Children t) of None \<Rightarrow> None | Some c \<Rightarrow> node_at p c)"

definition count_at :: "topicNode \<Rightarrow> string list \<Rightarrow> int" where
  "count_at t p = (case node_at p t of None \<Rightarrow> 0 | Some n \<Rightarrow> Subscribers n)"

definition present :: "topicNode \<Rightarrow> string list \<Rightarrow> bool" where
  "present t p \<longleftrightarrow> node_at p t \<noteq> None"

fun tree_wf :: "topicNode \<Rightarrow> bool" where
  "tree_wf (TopicNode t n cs) \<longleftrightarrow> distinct (map Topic cs) \<and> list_all tree_wf cs \<and> is_int64 n"

fun tree_sorted :: "topicNode \<Rightarrow> bool" where
  "tree_sorted (TopicNode t n cs) \<longleftrightarrow> sorted (map Topic cs) \<and> list_all tree_sorted cs"


lemma wrap64_add_wrap64 [simp]: "wrap64 (wrap64 a + b) = wrap64 (a + b)" "wrap64 (b + wrap64 a) = wrap64 (b + a)"
  by (simp_all add: wrap64_def algebra_simps mod_simps)

lemma sortTopicTree_eq: "sortTopicTree t = sortTree t"
  by (induction t) simp

lemma Topic_insert_segs [simp]: "Topic (insert_segs segs t) = Topic t"
  by (cases segs; cases t) auto

lemma Topic_mergeTopic [simp]: "Topic (mergeTopic t t') = Topic t"
  by (cases t; cases t') auto

lemma Topic_sortTree [simp]: "Topic (sortTree t) = Topic t"
  by (cases t) simp

lemma Subscribers_sortTree [simp]: "Subscribers (sortTree t) = Subscribers t"
  by (cases t) simp

subsection \<open>Children\<close>

lemma child_Topic: "child s cs = Some c \<Longrightarrow> Topic c = s \<and> c \<in> set cs"
  by (induction cs) (auto split: if_splits)

lemma child_None: "child s cs = None \<longleftrightarrow> s \<notin> Topic ` set cs"
  by (induction cs) auto

lemma child_iff: "distinct (map Topic cs) \<Longrightarrow> child s cs = Some c \<longleftrightarrow> c \<in> set cs \<and> Topic c = s"
  by (induction cs) force+

text \<open>The child a segment leads to, a fresh one when there is none.\<close>

definition child_or_new :: "string \<Rightarrow> topicNode list \<Rightarrow> topicNode" where
  "child_or_new s cs = (case child s cs of None \<Rightarrow> TopicNode s 0 [] | Some c \<Rightarrow> c)"

lemma child_insert_child:
  "child s (insert_child seg segs cs) =
     (if s = seg then Some (insert_segs segs (child_or_new seg cs)) else child s cs)"
  by (induction cs) (auto simp: child_or_new_def)

lemma Topics_insert_child:
  "map Topic (insert_child seg segs cs) =
     (if seg \<in> Topic ` set cs then map Topic cs else map Topic cs @ [seg])"
  by (induction cs) auto

lemma child_merge_into:
  "child s (merge_into cs c') =
     (if s = Topic c' then Some (mergeTopic (child_or_new s cs) c') else child s cs)"
  by (induction cs) (auto simp: child_or_new_def)

lemma Topics_merge_into:
  "map Topic (merge_into cs c') =
     (if Topic c' \<in> Topic ` set cs then map Topic cs else map Topic cs @ [Topic c'])"
  by (induction cs) auto

lemma child_merge_children:
  assumes "distinct (map Topic cs')"
  shows "child s (merge_children cs cs') =
    (case child s cs' of
       None \<Rightarrow> child s cs
     | Some c' \<Rightarrow> Some (mergeTopic (child_or_new s cs) c'))"
  using assms
proof (induction cs' arbitrary: cs)
  case (Cons c cs')
  then have "s = Topic c \<Longrightarrow> child s cs' = None" by (auto simp: child_None)
  with Cons show ?case by (auto simp: child_merge_into child_or_new_def split: option.splits)
qed simp

lemma child_sort:
  assumes "distinct (map Topic cs)"
  shows "child s (map sortTree (sort_key Topic cs)) = map_option sortTree (child s cs)"
proof -
  have "child s (map sortTree xs) = map_option sortTree (child s xs)" for xs
    by (induction xs) auto
  moreover have "child s (sort_key Topic cs) = child s cs"
  proof (cases "child s cs")
    case None
    then have "child s (sort_key Topic cs) = None" by (simp add: child_None)
    with None show ?thesis by simp
  next
    case (Some c)
    then have "child s (sort_key Topic cs) = Some c" using assms by (simp add: child_iff)
    with Some show ?thesis by simp
  qed
  ultimately show ?thesis by simp
qed

lemma count_at_simps [simp]:
  "count_at t [] = Subscribers t"
  "count_at t (s # p) = (case child s (Children t) of None \<Rightarrow> 0 | Some c \<Rightarrow> count_at c p)"
  "present t []"
  "present t (s # p) = (case child s (Children t) of None \<Rightarrow> False | Some c \<Rightarrow> present c p)"
  by (auto simp: count_at_def present_def split: option.splits)

subsection \<open>Well-formed trees\<close>

lemma tree_wf_insert:
  "tree_wf t \<Longrightarrow> tree_wf (insert_segs segs t)"
  "distinct (map Topic cs) \<Longrightarrow> list_all tree_wf cs \<Longrightarrow>
     distinct (map Topic (insert_child seg segs cs)) \<and> list_all tree_wf (insert_child seg segs cs)"
proof (induction segs t and seg segs cs rule: insert_segs_insert_child.induct)
  case (3 seg segs)
  then show ?case by (simp add: is_int64_def)
next
  case (4 seg segs c cs)
  then show ?case by (auto simp: Topics_insert_child)
qed auto

lemma tree_wf_merge:
  "tree_wf t \<Longrightarrow> tree_wf (mergeTopic t t')"
  "distinct (map Topic cs) \<Longrightarrow> list_all tree_wf cs \<Longrightarrow>
     distinct (map Topic (merge_children cs cs')) \<and> list_all tree_wf (merge_children cs cs')"
  "distinct (map Topic cs) \<Longrightarrow> list_all tree_wf cs \<Longrightarrow>
     distinct (map Topic (merge_into cs c')) \<and> list_all tree_wf (merge_into cs c')"
proof (induction t t' and cs cs' and cs c' rule: mergeTopic_merge_children_merge_into.induct)
  case (4 c')
  then show ?case by (simp add: is_int64_def)
next
  case (5 c cs c')
  then show ?case by (auto simp: Topics_merge_into)
qed auto

lemma tree_wf_sortTree [simp]: "tree_wf t \<Longrightarrow> tree_wf (sortTree t)"
  by (induction t) (auto simp: list_all_iff o_def)

lemma tree_sorted_sortTree [simp]: "tree_sorted (sortTree t)"
  by (induction t) (auto simp: list_all_iff o_def)

lemma tree_wf_child: "tree_wf t \<Longrightarrow> child s (Children t) = Some c \<Longrightarrow> tree_wf c"
  by (cases t) (auto simp: list_all_iff dest: child_Topic)

lemma tree_wf_distinct: "tree_wf t \<Longrightarrow> distinct (map Topic (Children t))"
  by (cases t) simp

lemma count_at_int64: "tree_wf t \<Longrightarrow> is_int64 (count_at t p)"
proof (induction p arbitrary: t)
  case Nil
  then show ?case by (cases t) simp
next
  case (Cons s p)
  then show ?case
    using tree_wf_child [OF Cons.prems, of s] by (auto simp: is_int64_def [of 0] split: option.splits)
qed

subsection \<open>Counts and presence after an update\<close>

lemma new_node_at [simp]:
  "count_at (TopicNode s 0 []) p = 0" "present (TopicNode s 0 []) p \<longleftrightarrow> p = []"
  by (cases p; simp)+

lemma count_at_insert:
  "count_at (insert_segs segs t) p = (if p = segs then wrap64 (count_at t p + 1) else count_at t p)
   \<and> (present (insert_segs segs t) p \<longleftrightarrow> present t p \<or> (\<exists>q. segs = p @ q))"
proof (induction segs arbitrary: t p)
  case Nil
  then show ?case by (cases t; cases p) auto
next
  case (Cons seg segs)
  obtain tt n cs where t: "t = TopicNode tt n cs" by (cases t)
  show ?case
    using Cons.IH [of "child_or_new seg cs"] t
    by (cases p) (auto simp: child_insert_child child_or_new_def split: option.splits)
qed

lemma count_at_merge:
  assumes "tree_wf t" "tree_wf t'"
  shows "count_at (mergeTopic t t') p = wrap64 (count_at t p + count_at t' p)
    \<and> (present (mergeTopic t t') p \<longleftrightarrow> present t p \<or> present t' p)"
  using assms
proof (induction p arbitrary: t t')
  case Nil
  then show ?case by (cases t; cases t') simp
next
  case (Cons s p)
  obtain a n cs where t: "t = TopicNode a n cs" by (cases t)
  obtain b m cs' where t': "t' = TopicNode b m cs'" by (cases t')
  have d: "distinct (map Topic cs')" using Cons.prems t' by simp
  have wf: "tree_wf (child_or_new s cs)"
    using tree_wf_child [OF Cons.prems(1), of s] t
    by (auto simp: child_or_new_def is_int64_def split: option.splits)
  have wf': "child s cs' = Some c' \<Longrightarrow> tree_wf c'" for c'
    using tree_wf_child [OF Cons.prems(2), of s] t' by simp
  have i: "child s cs = Some c \<Longrightarrow> is_int64 (count_at c p)" for c
    using tree_wf_child [OF Cons.prems(1), of s] t by (simp add: count_at_int64)
  show ?case
    using Cons.IH [OF wf wf'] t t' i
    by (auto simp: child_merge_children [OF d] child_or_new_def is_int64_def split: option.splits)
qed

lemma count_at_sort:
  assumes "tree_wf t"
  shows "count_at (sortTree t) p = count_at t p \<and> (present (sortTree t) p \<longleftrightarrow> present t p)"
  using assms
proof (induction p arbitrary: t)
  case (Cons s p)
  obtain a n cs where t: "t = TopicNode a n cs" by (cases t)
  then have d: "distinct (map Topic cs)" using Cons.prems by simp
  show ?case
    using Cons.IH tree_wf_child [OF Cons.prems, of s] t
    by (auto simp: child_sort [OF d] split: option.splits)
qed simp

subsection \<open>A sorted tree is determined by its counts\<close>

lemma sorted_Topics_unique:
  assumes "sorted (map Topic cs)" "distinct (map Topic cs)"
    and "sorted (map Topic cs')" "distinct (map Topic cs')"
    and "Topic ` set cs = Topic ` set cs'" "\<And>s c c'. child s cs = Some c \<Longrightarrow> child s cs' = Some c' \<Longrightarrow> c = c'"
  shows "cs = cs'"
proof -
  have m: "map Topic cs = map Topic cs'"
    using assms(1-5) by (simp add: sorted_distinct_set_unique)
  have l: "length cs = length cs'" using m map_eq_imp_length_eq by blast
  show ?thesis
  proof (rule nth_equalityI [OF l])
    fix i assume i: "i < length cs"
    then have "Topic (cs ! i) = Topic (cs' ! i)" using m l by (metis nth_map)
    then have "child (Topic (cs ! i)) cs = Some (cs ! i)" "child (Topic (cs ! i)) cs' = Some (cs' ! i)"
      using i l assms(2,4) by (simp_all add: child_iff)
    then show "cs ! i = cs' ! i" by (rule assms(6))
  qed
qed

lemma tree_ext:
  assumes "tree_wf t" "tree_wf t'" "tree_sorted t" "tree_sorted t'" "Topic t = Topic t'"
    and "\<And>p. count_at t p = count_at t' p" "\<And>p. present t p = present t' p"
  shows "t = t'"
  using assms
proof (induction t arbitrary: t')
  case (TopicNode s n cs)
  obtain n' cs' where t': "t' = TopicNode s n' cs'" using TopicNode.prems(5) by (cases t') auto
  have "n = n'" using TopicNode.prems(6) [of "[]"] t' by simp
  moreover have "cs = cs'"
  proof (rule sorted_Topics_unique)
    have "child u cs = None \<longleftrightarrow> child u cs' = None" for u
      using TopicNode.prems(7) [of "[u]"] t' by (simp split: option.splits)
    then show "Topic ` set cs = Topic ` set cs'" by (auto simp: child_None set_eq_iff)
  next
    fix u c c' assume c: "child u cs = Some c" "child u cs' = Some c'"
    have "count_at c p = count_at c' p" "present c p = present c' p" for p
      using TopicNode.prems(6) [of "u # p"] TopicNode.prems(7) [of "u # p"] t' c by simp_all
    then show "c = c'"
      using TopicNode.IH [of c c'] TopicNode.prems(1-4) t' child_Topic [OF c(1)] child_Topic [OF c(2)]
      by (simp add: list_all_iff)
  qed (use TopicNode.prems(1-4) t' in auto)
  ultimately show ?case using t' by simp
qed

section \<open>The trees that are served\<close>

definition build_tree :: "string list \<Rightarrow> topicNode" where
  "build_tree filters = sortTree (fold (\<lambda>f t. insertTopic t f) filters empty_root)"

definition merge_trees :: "topicNode list \<Rightarrow> topicNode" where
  "merge_trees peers = sortTopicTree (fold (\<lambda>peer m. mergeTopic m peer) peers empty_root)"

abbreviation segments :: "string \<Rightarrow> string list" where
  "segments \<equiv> Split (CHR ''/'')"

lemma tree_wf_empty_root [simp]: "tree_wf empty_root"
  by (simp add: empty_root_def is_int64_def)

lemma insert_all:
  assumes "tree_wf t"
  shows "tree_wf (fold (\<lambda>f t. insertTopic t f) fs t)
    \<and> Topic (fold (\<lambda>f t. insertTopic t f) fs t) = Topic t
    \<and> count_at (fold (\<lambda>f t. insertTopic t f) fs t) p =
        wrap64 (count_at t p + int (length (filter (\<lambda>f. segments f = p) fs)))
    \<and> (present (fold (\<lambda>f t. insertTopic t f) fs t) p \<longleftrightarrow>
        present t p \<or> (\<exists>f \<in> set fs. \<exists>q. segments f = p @ q))"
  using assms
proof (induction fs arbitrary: t)
  case Nil
  then show ?case by (simp add: count_at_int64)
next
  case (Cons f fs)
  have "tree_wf (insertTopic t f)" using Cons.prems by (simp add: insertTopic_def tree_wf_insert)
  from Cons.IH [OF this] count_at_insert [of "segments f" t p] show ?case
    by (auto simp: insertTopic_def algebra_simps)
qed

lemma build_tree_facts:
  "tree_wf (build_tree fs)" "tree_sorted (build_tree fs)" "Topic (build_tree fs) = []"
  "count_at (build_tree fs) p = wrap64 (int (length (filter (\<lambda>f. segments f = p) fs)))"
  "present (build_tree fs) p \<longleftrightarrow> p = [] \<or> (\<exists>f \<in> set fs. \<exists>q. segments f = p @ q)"
  using insert_all [OF tree_wf_empty_root, of fs p] count_at_sort
  by (auto simp: build_tree_def empty_root_def)

lemma merge_all:
  assumes "tree_wf t"
  shows "tree_wf (fold (\<lambda>peer m. mergeTopic m peer) (map build_tree fss) t)
    \<and> Topic (fold (\<lambda>peer m. mergeTopic m peer) (map build_tree fss) t) = Topic t
    \<and> count_at (fold (\<lambda>peer m. mergeTopic m peer) (map build_tree fss) t) p =
        wrap64 (count_at t p + int (length (filter (\<lambda>f. segments f = p) (concat fss))))
    \<and> (present (fold (\<lambda>peer m. mergeTopic m peer) (map build_tree fss) t) p \<longleftrightarrow>
        present t p \<or> (p = [] \<and> fss \<noteq> []) \<or> (\<exists>f \<in> set (concat fss). \<exists>q. segments f = p @ q))"
  using assms
proof (induction fss arbitrary: t)
  case Nil
  then show ?case by (simp add: count_at_int64)
next
  case (Cons fs fss)
  have "tree_wf (mergeTopic t (build_tree fs))" using Cons.prems by (rule tree_wf_merge)
  from Cons.IH [OF this] count_at_merge [OF Cons.prems build_tree_facts(1), of fs p]
  show ?case by (auto simp: build_tree_facts algebra_simps)
qed

text \<open>The order of the filters is irrelevant.\<close>

lemma build_tree_mset:
  assumes "mset fs = mset fs'"
  shows "build_tree fs = build_tree fs'"
proof (rule tree_ext)
  fix p
  have "mset (filter (\<lambda>f. segments f = p) fs) = mset (filter (\<lambda>f. segments f = p) fs')"
    using assms by (metis mset_filter)
  then have "length (filter (\<lambda>f. segments f = p) fs) = length (filter (\<lambda>f. segments f = p) fs')"
    by (rule mset_eq_length)
  then show "count_at (build_tree fs) p = count_at (build_tree fs') p"
    by (simp add: build_tree_facts)
  show "present (build_tree fs) p = present (build_tree fs') p"
    by (simp add: build_tree_facts mset_eq_setD [OF assms])
qed (simp_all add: build_tree_facts)

text \<open>Merging the members' trees gives the tree of all filters together.\<close>

lemma merge_trees_global:
  "merge_trees (map build_tree fss) = build_tree (concat fss)"
proof (rule tree_ext)
  fix p
  have m: "tree_wf (fold (\<lambda>peer m. mergeTopic m peer) (map build_tree fss) empty_root)"
    using merge_all [OF tree_wf_empty_root] by blast
  show "count_at (merge_trees (map build_tree fss)) p = count_at (build_tree (concat fss)) p"
    "present (merge_trees (map build_tree fss)) p = present (build_tree (concat fss)) p"
    using merge_all [OF tree_wf_empty_root, of fss p] count_at_sort [OF m, of p]
    by (auto simp: merge_trees_def sortTopicTree_eq build_tree_facts) (auto simp: empty_root_def)
qed (use merge_all [OF tree_wf_empty_root, of fss] in
      \<open>simp_all add: merge_trees_def sortTopicTree_eq build_tree_facts empty_root_def [symmetric]
         del: fold_simps, simp add: empty_root_def\<close>)

section \<open>Properties\<close>

text \<open>
  C27. The tree a node serves counts its subscriptions: whatever the subscribed filters are, the
  node reached by the segments of a filter carries exactly the number of subscriptions to that
  filter (as a Go \<open>int\<close>), no level has two nodes for one segment, and a node exists only where a
  subscribed filter passes.
\<close>

theorem topic_tree_counts:
  "count_at (build_tree fs) (segments f) = wrap64 (int (length (filter (\<lambda>g. g = f) fs)))
   \<and> tree_wf (build_tree fs) \<and> tree_sorted (build_tree fs)
   \<and> (present (build_tree fs) p \<longleftrightarrow> p = [] \<or> (\<exists>g \<in> set fs. \<exists>q. segments g = p @ q))"
  by (simp add: build_tree_facts)

end
