(* ===== verification/RestApi.thy ===== *)
theory RestApi
  imports Pagination TopicTree
begin

text \<open>
  The per-node REST endpoints, \<open>rest/*.go\<close>. The broker is third-party code
  (\<open>github.com/wind-c/comqtt\<close>): what the handlers read of it is the record \<open>broker\<close>, its maps as
  association lists in the order Go's \<open>range\<close> happens to visit them, and what they make it do is
  the list of calls they issue, in order. A response is \<open>None\<close> when the handler panics.
  \<open>strings.ToLower\<close> of non-ASCII text is the parameter \<open>uni\<close>.
\<close>

section \<open>The broker as the handlers see it\<close>

record subscription =
  sub_Qos :: nat
  sub_NoLocal :: bool
  sub_RetainAsPublished :: bool
  sub_Identifier :: int

record client =
  cl_ID :: string
  cl_Username :: string
  cl_Remote :: string
  cl_Listener :: string
  cl_ProtocolVersion :: nat
  cl_Clean :: bool
  cl_Keepalive :: nat
  cl_Subscriptions :: "(string \<times> subscription) list"
  cl_Inflight :: nat

record packet =
  pk_Qos :: nat
  pk_Payload :: bytes
  pk_Created :: int

record stored_client =
  sc_ID :: string
  sc_Username :: string
  sc_Remote :: string
  sc_Listener :: string
  sc_ProtocolVersion :: nat
  sc_Clean :: bool
  sc_SessionExpiryInterval :: nat

text \<open>
  \<open>bk_stored\<close>: \<open>None\<close> when no hook provides \<open>StoredClients\<close>, \<open>Some None\<close> when it returns an error.
\<close>

record broker =
  bk_clients :: "(string \<times> client) list"
  bk_retained :: "(string \<times> packet) list"
  bk_stored :: "stored_client list option option"

datatype broker_call =
    TopicsUnsubscribe string string \<comment> \<open>filter, client\<close>
  | SubscriptionsDelete string string \<comment> \<open>client, filter\<close>
  | RetainedDelete string
  | DisconnectClient string

section \<open>Lists\<close>

record clientSummary =
  cs_ClientID :: string
  cs_Username :: string
  cs_Remote :: string
  cs_ConnectedAt :: int
  cs_Keepalive :: nat
  cs_Subs :: int
  cs_Pending :: int

text \<open>\<open>q != "" && !strings.Contains(strings.ToLower(s), q)\<close>, negated: the row is kept.\<close>

definition matches :: "(string \<Rightarrow> string) \<Rightarrow> string \<Rightarrow> string \<Rightarrow> bool" where
  "matches uni q s \<longleftrightarrow> \<not> (q \<noteq> [] \<and> \<not> Contains (ToLower uni s) q)"

definition clientSummary_of :: "client \<Rightarrow> clientSummary" where
  "clientSummary_of cl = \<lparr>cs_ClientID = cl_ID cl, cs_Username = cl_Username cl,
     cs_Remote = cl_Remote cl, cs_ConnectedAt = 0, cs_Keepalive = cl_Keepalive cl,
     cs_Subs = int (length (cl_Subscriptions cl)), cs_Pending = int (cl_Inflight cl)\<rparr>"

definition client_rows :: "(string \<Rightarrow> string) \<Rightarrow> broker \<Rightarrow> form_values \<Rightarrow> clientSummary list" where
  "client_rows uni b query =
     (let q = ToLower uni (query ''q'') in
      map (clientSummary_of \<circ> snd) (filter (\<lambda>(_, cl). matches uni q (cl_ID cl)) (bk_clients b)))"

text \<open>Sort, cut out the page, answer: the end of every list handler.\<close>

definition ok_sorted ::
  "('r \<Rightarrow> 'k :: linorder) \<Rightarrow> 'r list \<Rightarrow> form_values \<Rightarrow> 'r page_result response option" where
  "ok_sorted key rows query = map_option (Render StatusOK) (page_of (sort_key key rows) (ParsePage query))"

definition listClients ::
  "(string \<Rightarrow> string) \<Rightarrow> broker \<Rightarrow> form_values \<Rightarrow> clientSummary page_result response option" where
  "listClients uni b query = ok_sorted cs_ClientID (client_rows uni b query) query"

record subscriptionSummary =
  ss_ClientID :: string
  ss_Topic :: string
  ss_QoS :: nat
  ss_NoLocal :: bool
  ss_RetainAsPublished :: bool
  ss_Identifier :: int

definition subscriptionSummary_of :: "client \<Rightarrow> string \<times> subscription \<Rightarrow> subscriptionSummary" where
  "subscriptionSummary_of cl = (\<lambda>(flt, sub). \<lparr>ss_ClientID = cl_ID cl, ss_Topic = flt,
     ss_QoS = sub_Qos sub, ss_NoLocal = sub_NoLocal sub,
     ss_RetainAsPublished = sub_RetainAsPublished sub, ss_Identifier = sub_Identifier sub\<rparr>)"

definition subscription_rows ::
  "(string \<Rightarrow> string) \<Rightarrow> broker \<Rightarrow> form_values \<Rightarrow> subscriptionSummary list" where
  "subscription_rows uni b query =
     (let topicFilter = ToLower uni (query ''topic'');
          clientFilter = ToLower uni (query ''clientid'')
      in concat (map (\<lambda>(_, cl).
           if \<not> matches uni clientFilter (cl_ID cl) then []
           else map (subscriptionSummary_of cl)
                  (filter (\<lambda>(flt, _). matches uni topicFilter flt) (cl_Subscriptions cl)))
         (bk_clients b)))"

definition listSubscriptions ::
  "(string \<Rightarrow> string) \<Rightarrow> broker \<Rightarrow> form_values \<Rightarrow> subscriptionSummary page_result response option" where
  "listSubscriptions uni b query =
     ok_sorted (\<lambda>s. (ss_ClientID s, ss_Topic s)) (subscription_rows uni b query) query"

definition retainedPayloadCap :: nat where
  "retainedPayloadCap = 4096"

record retainedSummary =
  rs_Topic :: string
  rs_QoS :: nat
  rs_Size :: int
  rs_StoredAt :: int
  rs_Payload :: bytes

definition retainedSummary_of :: "bool \<Rightarrow> string \<times> packet \<Rightarrow> retainedSummary" where
  "retainedSummary_of includePayload = (\<lambda>(topic, pk).
     \<lparr>rs_Topic = topic, rs_QoS = pk_Qos pk, rs_Size = int (length (pk_Payload pk)),
      rs_StoredAt = pk_Created pk,
      rs_Payload =
        (if includePayload
         then if length (pk_Payload pk) > retainedPayloadCap
              then take retainedPayloadCap (pk_Payload pk) else pk_Payload pk
         else [])\<rparr>)"

definition retained_rows :: "(string \<Rightarrow> string) \<Rightarrow> broker \<Rightarrow> form_values \<Rightarrow> retainedSummary list" where
  "retained_rows uni b query =
     (let topicFilter = ToLower uni (query ''topic'') in
      map (retainedSummary_of (query ''payload'' = ''true''))
        (filter (\<lambda>(topic, _). matches uni topicFilter topic) (bk_retained b)))"

definition listRetained ::
  "(string \<Rightarrow> string) \<Rightarrow> broker \<Rightarrow> form_values \<Rightarrow> retainedSummary page_result response option" where
  "listRetained uni b query = ok_sorted rs_Topic (retained_rows uni b query) query"

record sessionSummary =
  se_ClientID :: string
  se_Username :: string
  se_Online :: bool
  se_Remote :: string
  se_Listener :: string
  se_ProtocolVersion :: nat
  se_Clean :: bool
  se_Subs :: int
  se_Inflight :: int
  se_SessionExpiryInterval :: nat

definition online_session :: "client \<Rightarrow> sessionSummary" where
  "online_session cl = \<lparr>se_ClientID = cl_ID cl, se_Username = cl_Username cl, se_Online = True,
     se_Remote = cl_Remote cl, se_Listener = cl_Listener cl,
     se_ProtocolVersion = cl_ProtocolVersion cl, se_Clean = cl_Clean cl,
     se_Subs = int (length (cl_Subscriptions cl)), se_Inflight = int (cl_Inflight cl),
     se_SessionExpiryInterval = 0\<rparr>"

definition offline_session :: "stored_client \<Rightarrow> sessionSummary" where
  "offline_session sc = \<lparr>se_ClientID = sc_ID sc, se_Username = sc_Username sc, se_Online = False,
     se_Remote = sc_Remote sc, se_Listener = sc_Listener sc,
     se_ProtocolVersion = sc_ProtocolVersion sc, se_Clean = sc_Clean sc, se_Subs = 0,
     se_Inflight = 0, se_SessionExpiryInterval = sc_SessionExpiryInterval sc\<rparr>"

definition session_rows :: "(string \<Rightarrow> string) \<Rightarrow> broker \<Rightarrow> form_values \<Rightarrow> sessionSummary list" where
  "session_rows uni b query =
     (let onlineParam = ToLower uni (query ''online'');
          online = set (map (cl_ID \<circ> snd) (bk_clients b))
      in (if onlineParam = ''false'' then [] else map (online_session \<circ> snd) (bk_clients b))
         @ (if onlineParam \<noteq> ''true''
            then case bk_stored b of
                Some (Some stored) \<Rightarrow>
                  map offline_session (filter (\<lambda>sc. sc_ID sc \<notin> online) stored)
              | _ \<Rightarrow> []
            else []))"

definition listSessions ::
  "(string \<Rightarrow> string) \<Rightarrow> broker \<Rightarrow> form_values \<Rightarrow> sessionSummary page_result response option" where
  "listSessions uni b query = ok_sorted se_ClientID (session_rows uni b query) query"

definition topicsTree :: "broker \<Rightarrow> topicNode response" where
  "topicsTree b =
     Render StatusOK (build_tree (concat (map (\<lambda>(_, cl). map fst (cl_Subscriptions cl)) (bk_clients b))))"

section \<open>Deletions\<close>

definition clearRetained :: "broker \<Rightarrow> string \<Rightarrow> unit response \<times> broker_call list" where
  "clearRetained b topic =
     (if topic = [] then (HttpError StatusBadRequest ''missing topic'', [])
      else if map_of (bk_retained b) topic = None then (NotFound, [])
      else (NoContent, [RetainedDelete topic]))"

definition clearSession :: "broker \<Rightarrow> string \<Rightarrow> unit response \<times> broker_call list" where
  "clearSession b cid =
     (if cid = [] then (HttpError StatusBadRequest ''missing client id'', [])
      else let online = map_of (bk_clients b) cid \<noteq> None;
               storedExists = (\<not> online \<and>
                 (case bk_stored b of
                    Some (Some stored) \<Rightarrow> list_ex (\<lambda>sc. sc_ID sc = cid) stored | _ \<Rightarrow> False))
           in if \<not> online \<and> \<not> storedExists then (NotFound, [])
              else (NoContent, if online then [DisconnectClient cid] else []))"

definition unsubscribeClient :: "broker \<Rightarrow> string \<Rightarrow> string \<Rightarrow> unit response \<times> broker_call list" where
  "unsubscribeClient b clientID flt =
     (if clientID = [] \<or> flt = [] then (HttpError StatusBadRequest ''missing client id or topic'', [])
      else case map_of (bk_clients b) clientID of
        None \<Rightarrow> (NotFound, [])
      | Some cl \<Rightarrow>
          if map_of (cl_Subscriptions cl) flt = None then (NotFound, [])
          else (NoContent, [TopicsUnsubscribe flt clientID, SubscriptionsDelete clientID flt]))"

section \<open>The broker up to map order\<close>

text \<open>
  What Go guarantees of the broker's maps: keys are unique, a client is filed under its id, and
  stored sessions have distinct ids.
\<close>

definition broker_wf :: "broker \<Rightarrow> bool" where
  "broker_wf b \<longleftrightarrow> distinct (map fst (bk_clients b)) \<and> distinct (map fst (bk_retained b))
     \<and> (\<forall>(k, cl) \<in> set (bk_clients b). cl_ID cl = k \<and> distinct (map fst (cl_Subscriptions cl)))
     \<and> (case bk_stored b of Some (Some stored) \<Rightarrow> distinct (map sc_ID stored) | _ \<Rightarrow> True)"

text \<open>Equality up to the order of the maps.\<close>

definition client_view :: "string \<times> client \<Rightarrow> client \<times> (string \<times> subscription) multiset" where
  "client_view = (\<lambda>(_, cl). (cl\<lparr>cl_Subscriptions := []\<rparr>, mset (cl_Subscriptions cl)))"

definition same_broker :: "broker \<Rightarrow> broker \<Rightarrow> bool" where
  "same_broker b b' \<longleftrightarrow>
     image_mset client_view (mset (bk_clients b)) = image_mset client_view (mset (bk_clients b'))
     \<and> mset (bk_retained b) = mset (bk_retained b')
     \<and> map_option (map_option mset) (bk_stored b) = map_option (map_option mset) (bk_stored b')"

text \<open>Anything that reads a client only through its view reads the same from both brokers.\<close>

lemma same_broker_image:
  assumes "same_broker b b'" "\<And>x y. client_view x = client_view y \<Longrightarrow> g x = g y"
  shows "image_mset g (mset (bk_clients b)) = image_mset g (mset (bk_clients b'))"
proof -
  have h: "g = (g \<circ> inv client_view) \<circ> client_view"
  proof
    fix x
    have "client_view (inv client_view (client_view x)) = client_view x" by (simp add: f_inv_into_f)
    from assms(2) [OF this] show "g x = (g \<circ> inv client_view \<circ> client_view) x" by simp
  qed
  have "image_mset g (mset bs) = image_mset (g \<circ> inv client_view) (image_mset client_view (mset bs))" for bs
    by (subst h) (simp add: multiset.map_comp)
  then show ?thesis using assms(1) by (simp only: same_broker_def)
qed

lemma client_view_eq:
  assumes "client_view x = client_view y"
  shows "cl_ID (snd x) = cl_ID (snd y)" "clientSummary_of (snd x) = clientSummary_of (snd y)"
    "online_session (snd x) = online_session (snd y)"
    "mset (cl_Subscriptions (snd x)) = mset (cl_Subscriptions (snd y))"
proof -
  obtain j c where x: "x = (j, c)" by force
  obtain k d where y: "y = (k, d)" by force
  have m: "mset (cl_Subscriptions c) = mset (cl_Subscriptions d)"
    and e: "c\<lparr>cl_Subscriptions := []\<rparr> = d\<lparr>cl_Subscriptions := []\<rparr>"
    using assms x y by (auto simp: client_view_def)
  then have "length (cl_Subscriptions c) = length (cl_Subscriptions d)" by (metis size_mset)
  with m e x y show "cl_ID (snd x) = cl_ID (snd y)"
    "clientSummary_of (snd x) = clientSummary_of (snd y)"
    "online_session (snd x) = online_session (snd y)"
    "mset (cl_Subscriptions (snd x)) = mset (cl_Subscriptions (snd y))"
    by (cases c; cases d; simp add: clientSummary_of_def online_session_def)+
qed

section \<open>A listing\<close>

text \<open>
  What the four list endpoints have in common: the rows are collected from the broker, their keys
  are unique, and neither the rows as a multiset nor their number depends on the page asked for or
  on the order of the maps.
\<close>

definition with_page :: "form_values \<Rightarrow> int \<Rightarrow> int \<Rightarrow> form_values" where
  "with_page query page sz = query(''page'' := FormatInt page, ''size'' := FormatInt sz)"

lemma ParsePage_with_page:
  assumes "1 \<le> page" "is_int64 page" "1 \<le> sz" "sz \<le> 500"
  shows "ParsePage (with_page query page sz) = \<lparr>Page = page, Size = sz\<rparr>"
  using assms
  by (simp add: ParsePage_def with_page_def Let_def MaxPageSize_def is_int64_def [of sz])

locale listing =
  fixes rows :: "broker \<Rightarrow> form_values \<Rightarrow> 'r list"
    and key :: "'r \<Rightarrow> 'k :: linorder"
    and handler :: "broker \<Rightarrow> form_values \<Rightarrow> 'r page_result response option"
  assumes handler: "handler b query = ok_sorted key (rows b query) query"
    and rows_page: "rows b (with_page query page sz) = rows b query"
    and rows_keys: "broker_wf b \<Longrightarrow> distinct (map key (rows b query))"
    and rows_order: "same_broker b b' \<Longrightarrow> mset (rows b query) = mset (rows b' query)"
begin

lemma order_independent:
  assumes "broker_wf b" "same_broker b b'"
  shows "handler b query = handler b' query"
  using sort_key_cong_mset [OF rows_order [OF assms(2)] rows_keys [OF assms(1)]]
  by (simp add: handler ok_sorted_def)

lemma pages_walk:
  assumes "broker_wf b" "1 \<le> sz" "sz \<le> 500" "int k * sz < 2 ^ 63"
    and "int (length (rows b query)) \<le> int k * sz"
  shows "\<exists>ps. length ps = k
    \<and> (\<forall>i < k. handler b (with_page query (int i + 1) sz) =
          Some (Render StatusOK \<lparr>pr_Page = int i + 1, pr_Size = sz,
            pr_Total = int (length (rows b query)), pr_Items = ps ! i\<rparr>))
    \<and> distinct (map key (concat ps)) \<and> sorted (map key (concat ps))
    \<and> set (concat ps) = set (rows b query)"
proof -
  let ?xs = "sort_key key (rows b query)"
  obtain ps where ps: "map (\<lambda>i. ApplyPagination ?xs \<lparr>Page = int i, Size = sz\<rparr>) [1..<Suc k] = map Some ps"
    "concat ps = ?xs"
    using pages_cover [OF assms(2-4), of ?xs] assms(5) by auto
  have len: "length ps = k" using arg_cong [OF ps(1), of length] by (simp del: upt_Suc)
  have "handler b (with_page query (int i + 1) sz) =
      Some (Render StatusOK \<lparr>pr_Page = int i + 1, pr_Size = sz,
        pr_Total = int (length (rows b query)), pr_Items = ps ! i\<rparr>)" if "i < k" for i
  proof -
    have "ApplyPagination ?xs \<lparr>Page = int (Suc i), Size = sz\<rparr> = Some (ps ! i)"
      using arg_cong [OF ps(1), of "\<lambda>l. l ! i"] that len by (simp del: upt_Suc)
    moreover have "int (Suc i) * 1 \<le> int k * sz" by (rule mult_mono) (use that assms(2) in simp_all)
    then have "int i + 1 \<le> int k * sz" by simp
    then have "is_int64 (int i + 1)" unfolding is_int64_def using assms(4) by linarith
    ultimately show ?thesis
      using assms(2,3) by (simp add: handler rows_page ok_sorted_def page_of_def ParsePage_with_page add.commute)
  qed
  moreover have "distinct (map key (concat ps))" "sorted (map key (concat ps))"
    "set (concat ps) = set (rows b query)"
    unfolding ps(2) using rows_keys [OF assms(1)] by simp_all
  ultimately show ?thesis using len by blast
qed

end

subsection \<open>The four listings\<close>

lemma filter_mset_image_cond:
  "mset (map f (filter P xs)) =
     sum_mset (image_mset (\<lambda>x. if P x then {#f x#} else {#}) (mset xs))"
  by (induction xs) auto

lemma mset_concat_map: "mset (concat (map f xs)) = sum_mset (image_mset (\<lambda>x. mset (f x)) (mset xs))"
  by (induction xs) auto

lemma broker_wf_ID: "broker_wf b \<Longrightarrow> (k, cl) \<in> set (bk_clients b) \<Longrightarrow> cl_ID cl = k"
  by (auto simp: broker_wf_def)

lemma broker_wf_IDs:
  assumes "broker_wf b"
  shows "distinct (map (cl_ID \<circ> snd) (bk_clients b))"
proof -
  have "map (cl_ID \<circ> snd) (bk_clients b) = map fst (bk_clients b)"
    using assms by (auto simp: broker_wf_def)
  moreover have "distinct (map fst (bk_clients b))" using assms by (simp add: broker_wf_def)
  ultimately show ?thesis by (simp only:)
qed

lemma client_rows_keys:
  assumes "broker_wf b"
  shows "distinct (map cs_ClientID (client_rows uni b query))"
proof -
  have "distinct (map (cl_ID \<circ> snd) (bk_clients b))" by (rule broker_wf_IDs [OF assms])
  then have "distinct (map (cl_ID \<circ> snd) (filter P (bk_clients b)))" for P
    by (rule distinct_map_filter)
  moreover have "cs_ClientID \<circ> (clientSummary_of \<circ> snd) = (cl_ID \<circ> snd :: string \<times> client \<Rightarrow> _)"
    by (simp add: fun_eq_iff clientSummary_of_def)
  ultimately show ?thesis by (simp add: client_rows_def Let_def)
qed

lemma client_rows_order:
  assumes "same_broker b b'"
  shows "mset (client_rows uni b query) = mset (client_rows uni b' query)"
  unfolding client_rows_def Let_def filter_mset_image_cond
  by (rule arg_cong [where f = sum_mset], rule same_broker_image [OF assms])
    (auto simp: case_prod_unfold dest: client_view_eq)

interpretation clients: listing "client_rows uni" cs_ClientID "listClients uni" for uni
  by unfold_locales
    (simp_all add: listClients_def client_rows_keys client_rows_order,
      simp add: client_rows_def with_page_def)

lemma distinct_subscription_rows:
  assumes "distinct (map fst cls)"
    and "\<forall>(k, cl) \<in> set cls. cl_ID cl = k \<and> distinct (map fst (cl_Subscriptions cl))"
  shows "distinct (map (\<lambda>s. (ss_ClientID s, ss_Topic s))
    (concat (map (\<lambda>(_, cl). if \<not> P cl then []
        else map (subscriptionSummary_of cl) (filter Q (cl_Subscriptions cl))) cls)))"
  using assms
proof (induction cls)
  case (Cons kc cls)
  obtain k cl where kc: "kc = (k, cl)" by force
  have "distinct (map (\<lambda>s. (ss_ClientID s, ss_Topic s))
      (map (subscriptionSummary_of cl) (filter Q (cl_Subscriptions cl))))"
  proof -
    have "distinct (map fst (filter Q (cl_Subscriptions cl)))"
      using Cons.prems(2) kc distinct_map_filter by auto
    moreover have "inj (\<lambda>t. (cl_ID cl, t))" by (simp add: inj_def)
    ultimately have "distinct (map (\<lambda>t. (cl_ID cl, t)) (map fst (filter Q (cl_Subscriptions cl))))"
      by (simp only: distinct_map [of "\<lambda>t. (cl_ID cl, t)"]) (auto simp: inj_on_def)
    moreover have "(\<lambda>s. (ss_ClientID s, ss_Topic s)) \<circ> subscriptionSummary_of cl = (\<lambda>t. (cl_ID cl, t)) \<circ> fst"
      by (simp add: fun_eq_iff subscriptionSummary_of_def case_prod_unfold)
    ultimately show ?thesis by (simp del: distinct_map)
  qed
  with Cons kc show ?case
    by (auto simp: subscriptionSummary_of_def rev_image_eqI)
qed simp

lemma subscription_rows_order:
  assumes "same_broker b b'"
  shows "mset (subscription_rows uni b query) = mset (subscription_rows uni b' query)"
  unfolding subscription_rows_def Let_def mset_concat_map
proof (rule arg_cong [where f = sum_mset], rule same_broker_image [OF assms])
  fix x y :: "string \<times> client"
  assume v: "client_view x = client_view y"
  have "subscriptionSummary_of (snd x) = subscriptionSummary_of (snd y)"
    using client_view_eq(1) [OF v] by (simp add: subscriptionSummary_of_def)
  with client_view_eq(1,4) [OF v]
  show "mset (case x of (_, cl) \<Rightarrow> if \<not> matches uni (ToLower uni (query ''clientid'')) (cl_ID cl) then []
        else map (subscriptionSummary_of cl) (filter (\<lambda>(flt, _). matches uni (ToLower uni (query ''topic'')) flt) (cl_Subscriptions cl)))
    = mset (case y of (_, cl) \<Rightarrow> if \<not> matches uni (ToLower uni (query ''clientid'')) (cl_ID cl) then []
        else map (subscriptionSummary_of cl) (filter (\<lambda>(flt, _). matches uni (ToLower uni (query ''topic'')) flt) (cl_Subscriptions cl)))"
    by (simp add: case_prod_unfold)
qed

interpretation subscriptions: listing "subscription_rows uni" "\<lambda>s. (ss_ClientID s, ss_Topic s)"
  "listSubscriptions uni" for uni
proof (unfold_locales, goal_cases)
  case (3 b query)
  then show ?case
    unfolding subscription_rows_def Let_def
    by (intro distinct_subscription_rows) (auto simp: broker_wf_def)
qed (simp_all add: listSubscriptions_def subscription_rows_order, simp add: subscription_rows_def with_page_def)

lemma retained_rows_keys:
  assumes "broker_wf b"
  shows "distinct (map rs_Topic (retained_rows uni b query))"
proof -
  have "rs_Topic \<circ> retainedSummary_of p = fst" for p
    by (simp add: fun_eq_iff retainedSummary_of_def case_prod_unfold)
  moreover have "distinct (map fst (filter P (bk_retained b)))" for P
    using assms distinct_map_filter by (auto simp: broker_wf_def)
  ultimately show ?thesis by (simp add: retained_rows_def Let_def)
qed

interpretation retained: listing "retained_rows uni" rs_Topic "listRetained uni" for uni
  by unfold_locales
    (simp_all add: listRetained_def retained_rows_keys,
      simp_all add: retained_rows_def with_page_def same_broker_def)

text \<open>The stored sessions that can be read.\<close>

definition stored_of :: "broker \<Rightarrow> stored_client list" where
  "stored_of b = (case bk_stored b of Some (Some stored) \<Rightarrow> stored | _ \<Rightarrow> [])"

lemma session_row_ids:
  "map se_ClientID (session_rows uni b query) =
     (if ToLower uni (query ''online'') = ''false'' then [] else map (cl_ID \<circ> snd) (bk_clients b))
     @ (if ToLower uni (query ''online'') \<noteq> ''true''
        then map sc_ID (filter (\<lambda>sc. sc_ID sc \<notin> set (map (cl_ID \<circ> snd) (bk_clients b))) (stored_of b))
        else [])"
proof -
  have "se_ClientID \<circ> (online_session \<circ> snd) = (cl_ID \<circ> snd :: string \<times> client \<Rightarrow> _)"
    "se_ClientID \<circ> offline_session = sc_ID"
    by (simp_all add: fun_eq_iff online_session_def offline_session_def)
  then show ?thesis by (simp add: session_rows_def stored_of_def Let_def split: option.splits)
qed

lemma session_rows_keys:
  assumes "broker_wf b"
  shows "distinct (map se_ClientID (session_rows uni b query))"
proof -
  have c: "distinct (map (cl_ID \<circ> snd) (bk_clients b))" by (rule broker_wf_IDs [OF assms])
  have "distinct (map sc_ID (stored_of b))"
    using assms by (auto simp: broker_wf_def stored_of_def split: option.splits)
  then have s: "distinct (map sc_ID (filter P (stored_of b)))" for P by (rule distinct_map_filter)
  show ?thesis unfolding session_row_ids using c s by (auto simp: image_iff)
qed

lemma session_rows_order:
  assumes "same_broker b b'"
  shows "mset (session_rows uni b query) = mset (session_rows uni b' query)"
proof -
  have "image_mset (cl_ID \<circ> snd) (mset (bk_clients b)) = image_mset (cl_ID \<circ> snd) (mset (bk_clients b'))"
    by (rule same_broker_image [OF assms]) (auto dest: client_view_eq)
  then have ids: "(cl_ID \<circ> snd) ` set (bk_clients b) = (cl_ID \<circ> snd) ` set (bk_clients b')"
    by (metis set_image_mset set_mset_mset)
  have on: "mset (map (online_session \<circ> snd) (bk_clients b)) = mset (map (online_session \<circ> snd) (bk_clients b'))"
    unfolding mset_map by (rule same_broker_image [OF assms]) (auto dest: client_view_eq)
  have st: "map_option (map_option mset) (bk_stored b) = map_option (map_option mset) (bk_stored b')"
    using assms by (simp add: same_broker_def)
  show ?thesis
    using on st ids by (auto simp: session_rows_def Let_def image_comp split: option.splits)
qed

interpretation sessions: listing "session_rows uni" se_ClientID "listSessions uni" for uni
  by unfold_locales
    (simp_all add: listSessions_def session_rows_keys session_rows_order,
      simp add: session_rows_def with_page_def)

lemma set_subscription_rows:
  "set (subscription_rows uni b query) = {subscriptionSummary_of cl (f, sub) | k cl f sub.
     (k, cl) \<in> set (bk_clients b) \<and> (f, sub) \<in> set (cl_Subscriptions cl)
     \<and> matches uni (ToLower uni (query ''clientid'')) (cl_ID cl)
     \<and> matches uni (ToLower uni (query ''topic'')) f}"
  by (fastforce simp: subscription_rows_def Let_def split: if_splits)

lemma matches_empty [simp]: "matches uni (ToLower uni []) s"
  by (simp add: matches_def ToLower_def is_ascii_def)

lemma subscription_row_iff:
  assumes "broker_wf b"
  shows "(\<exists>r \<in> set (subscription_rows uni b (\<lambda>_. [])). ss_ClientID r = c \<and> ss_Topic r = f) \<longleftrightarrow>
    (\<exists>cl. map_of (bk_clients b) c = Some cl \<and> map_of (cl_Subscriptions cl) f \<noteq> None)"
proof -
  have d: "distinct (map fst (bk_clients b))" using assms by (simp add: broker_wf_def)
  have "(\<exists>r \<in> set (subscription_rows uni b (\<lambda>_. [])). ss_ClientID r = c \<and> ss_Topic r = f) \<longleftrightarrow>
      (\<exists>k cl. (k, cl) \<in> set (bk_clients b) \<and> cl_ID cl = c \<and> f \<in> fst ` set (cl_Subscriptions cl))"
    unfolding set_subscription_rows by (force simp: subscriptionSummary_of_def)
  also have "\<dots> \<longleftrightarrow> (\<exists>cl. (c, cl) \<in> set (bk_clients b) \<and> f \<in> fst ` set (cl_Subscriptions cl))"
    using broker_wf_ID [OF assms] by blast
  also have "\<dots> \<longleftrightarrow> (\<exists>cl. map_of (bk_clients b) c = Some cl \<and> map_of (cl_Subscriptions cl) f \<noteq> None)"
    by (simp add: map_of_eq_Some_iff [OF d] map_of_eq_None_iff)
  finally show ?thesis .
qed

lemma session_row_iff:
  assumes "broker_wf b"
  shows "(\<exists>r \<in> set (session_rows uni b (\<lambda>_. [])). se_ClientID r = c) \<longleftrightarrow>
    map_of (bk_clients b) c \<noteq> None
    \<or> (\<exists>stored. bk_stored b = Some (Some stored) \<and> c \<in> sc_ID ` set stored)"
proof -
  have "(\<exists>r \<in> set (session_rows uni b (\<lambda>_. [])). se_ClientID r = c) \<longleftrightarrow>
      c \<in> set (map se_ClientID (session_rows uni b (\<lambda>_. [])))" by auto
  moreover have "map_of (bk_clients b) c \<noteq> None \<longleftrightarrow> c \<in> (cl_ID \<circ> snd) ` set (bk_clients b)"
    using assms by (force simp: map_of_eq_None_iff broker_wf_def)
  moreover have "ToLower uni [] = []" by (simp add: ToLower_def is_ascii_def)
  moreover have "(\<exists>stored. bk_stored b = Some (Some stored) \<and> c \<in> sc_ID ` set stored) \<longleftrightarrow>
      c \<in> sc_ID ` set (stored_of b)"
    by (cases "bk_stored b"; cases "the (bk_stored b)") (auto simp: stored_of_def)
  ultimately show ?thesis unfolding session_row_ids by auto
qed

section \<open>Properties\<close>

text \<open>
  C25. The answers of the REST interface are functions of the broker's maps, not of the order in
  which Go happens to iterate over them: two brokers that differ only in that order give the same
  pages of clients, subscriptions, retained messages and sessions and the same topic tree.
\<close>

theorem rest_lists_order_independent:
  assumes "broker_wf b" "same_broker b b'"
  shows "listClients uni b query = listClients uni b' query
    \<and> listSubscriptions uni b query = listSubscriptions uni b' query
    \<and> listRetained uni b query = listRetained uni b' query
    \<and> listSessions uni b query = listSessions uni b' query
    \<and> topicsTree b = topicsTree b'"
proof -
  have "mset (concat (map (\<lambda>(_, cl). map fst (cl_Subscriptions cl)) (bk_clients b))) =
      mset (concat (map (\<lambda>(_, cl). map fst (cl_Subscriptions cl)) (bk_clients b')))"
    unfolding mset_concat_map
    by (rule arg_cong [where f = sum_mset], rule same_broker_image [OF assms(2)])
      (auto simp: case_prod_unfold dest: client_view_eq(4))
  then have "topicsTree b = topicsTree b'"
    unfolding topicsTree_def by (metis build_tree_mset)
  with clients.order_independent [OF assms] subscriptions.order_independent [OF assms]
    retained.order_independent [OF assms] sessions.order_independent [OF assms]
  show ?thesis by blast
qed

definition demo_client :: "string \<Rightarrow> (string \<times> subscription) list \<Rightarrow> client" where
  "demo_client n subs = \<lparr>cl_ID = n, cl_Username = ''u'', cl_Remote = ''10.0.0.1:1'', cl_Listener = ''t1'',
     cl_ProtocolVersion = 5, cl_Clean = False, cl_Keepalive = 30, cl_Subscriptions = subs,
     cl_Inflight = 0\<rparr>"

definition demo_sub :: subscription where
  "demo_sub = \<lparr>sub_Qos = 1, sub_NoLocal = False, sub_RetainAsPublished = False, sub_Identifier = 0\<rparr>"

definition demo_broker :: "client list \<Rightarrow> broker" where
  "demo_broker cls = \<lparr>bk_clients = map (\<lambda>cl. (cl_ID cl, cl)) cls, bk_retained = [],
     bk_stored = None\<rparr>"

theorem rest_lists_order_independent_witness:
  "listSubscriptions (\<lambda>s. s)
      (demo_broker [demo_client ''a'' [(''x'', demo_sub), (''y'', demo_sub)], demo_client ''b'' []]) (\<lambda>_. [])
   = listSubscriptions (\<lambda>s. s)
      (demo_broker [demo_client ''b'' [], demo_client ''a'' [(''y'', demo_sub), (''x'', demo_sub)]]) (\<lambda>_. [])"
  by (rule rest_lists_order_independent [THEN conjunct2, THEN conjunct1])
    (simp_all add: demo_broker_def demo_client_def broker_wf_def same_broker_def client_view_def)

text \<open>
  C29. Walking the pages of the subscription list shows every subscription exactly once: for any
  page size a request may use, the first \<open>k\<close> pages are all answered with status 200 and carry the
  right total, and together they hold, in order and without repetition, exactly the rows of the
  clients and filters that match the query.
\<close>

theorem subscription_pages_complete:
  assumes "broker_wf b" "1 \<le> sz" "sz \<le> 500" "int k * sz < 2 ^ 63"
    and "int (length (subscription_rows uni b query)) \<le> int k * sz"
  shows "\<exists>ps. length ps = k
    \<and> (\<forall>i < k. listSubscriptions uni b (with_page query (int i + 1) sz) =
          Some (Render StatusOK \<lparr>pr_Page = int i + 1, pr_Size = sz,
            pr_Total = int (length (subscription_rows uni b query)), pr_Items = ps ! i\<rparr>))
    \<and> distinct (map (\<lambda>s. (ss_ClientID s, ss_Topic s)) (concat ps))
    \<and> sorted (map (\<lambda>s. (ss_ClientID s, ss_Topic s)) (concat ps))
    \<and> set (concat ps) = {subscriptionSummary_of cl (f, sub) | k cl f sub.
         (k, cl) \<in> set (bk_clients b) \<and> (f, sub) \<in> set (cl_Subscriptions cl)
         \<and> matches uni (ToLower uni (query ''clientid'')) (cl_ID cl)
         \<and> matches uni (ToLower uni (query ''topic'')) f}"
  using subscriptions.pages_walk [OF assms] by (simp only: set_subscription_rows)

theorem subscription_pages_complete_witness:
  "\<exists>ps. length ps = 2 \<and> (\<forall>i < (2 :: nat). listSubscriptions (\<lambda>s. s)
        (demo_broker [demo_client ''a'' [(''x'', demo_sub), (''y'', demo_sub)]])
        (with_page (\<lambda>_. []) (int i + 1) 1) =
      Some (Render StatusOK \<lparr>pr_Page = int i + 1, pr_Size = 1, pr_Total = 2, pr_Items = ps ! i\<rparr>))"
  using subscription_pages_complete
    [of "demo_broker [demo_client ''a'' [(''x'', demo_sub), (''y'', demo_sub)]]" 1 2 "\<lambda>s. s" "\<lambda>_. []"]
  by (auto simp: demo_broker_def demo_client_def broker_wf_def subscription_rows_def matches_def
      ToLower_def is_ascii_def)

text \<open>
  Deletions act exactly on what the lists show: a subscription, a retained message or a
  session can be deleted (status 204) if and only if it is in the unfiltered list, and a request
  that is not answered with 204 makes the broker do nothing.
\<close>

theorem delete_iff_listed:
  assumes "broker_wf b" "c \<noteq> []" "f \<noteq> []"
  shows "(fst (unsubscribeClient b c f) = NoContent \<longleftrightarrow>
        (\<exists>r \<in> set (subscription_rows uni b (\<lambda>_. [])). ss_ClientID r = c \<and> ss_Topic r = f))
    \<and> (fst (clearRetained b f) = NoContent \<longleftrightarrow>
        (\<exists>r \<in> set (retained_rows uni b (\<lambda>_. [])). rs_Topic r = f))
    \<and> (fst (clearSession b c) = NoContent \<longleftrightarrow>
        (\<exists>r \<in> set (session_rows uni b (\<lambda>_. [])). se_ClientID r = c))
    \<and> (fst (unsubscribeClient b c f) \<noteq> NoContent \<longrightarrow> snd (unsubscribeClient b c f) = [])
    \<and> (fst (clearRetained b f) \<noteq> NoContent \<longrightarrow> snd (clearRetained b f) = [])
    \<and> (fst (clearSession b c) \<noteq> NoContent \<longrightarrow> snd (clearSession b c) = [])"
proof (intro conjI)
  show "fst (unsubscribeClient b c f) = NoContent \<longleftrightarrow>
      (\<exists>r \<in> set (subscription_rows uni b (\<lambda>_. [])). ss_ClientID r = c \<and> ss_Topic r = f)"
    unfolding subscription_row_iff [OF assms(1)] using assms(2,3)
    by (auto simp: unsubscribeClient_def split: option.splits)
  show "fst (clearRetained b f) = NoContent \<longleftrightarrow> (\<exists>r \<in> set (retained_rows uni b (\<lambda>_. [])). rs_Topic r = f)"
    using assms(3)
    by (force simp: clearRetained_def retained_rows_def retainedSummary_of_def map_of_eq_None_iff)
  show "fst (clearSession b c) = NoContent \<longleftrightarrow> (\<exists>r \<in> set (session_rows uni b (\<lambda>_. [])). se_ClientID r = c)"
    unfolding session_row_iff [OF assms(1)] using assms(2)
    by (auto simp: clearSession_def Let_def list_ex_iff image_iff split: option.splits)
qed (auto simp: unsubscribeClient_def clearRetained_def clearSession_def Let_def split: option.splits)

theorem delete_iff_listed_witness:
  "fst (unsubscribeClient (demo_broker [demo_client ''a'' [(''x'', demo_sub)]]) ''a'' ''x'') = NoContent \<longleftrightarrow>
     (\<exists>r \<in> set (subscription_rows (\<lambda>s. s) (demo_broker [demo_client ''a'' [(''x'', demo_sub)]]) (\<lambda>_. [])).
        ss_ClientID r = ''a'' \<and> ss_Topic r = ''x'')"
  by (rule delete_iff_listed [THEN conjunct1])
    (simp_all add: demo_broker_def demo_client_def broker_wf_def)

text \<open>
  \<open>clearSession\<close> does nothing to a stored session: for a client that is offline and stored the
  request is answered with 204, no call to the broker is made, and the session is still listed.
\<close>

theorem clearSession_keeps_offline_session:
  assumes "broker_wf b" "bk_stored b = Some (Some stored)" "sc \<in> set stored" "sc_ID sc \<noteq> []"
    and "map_of (bk_clients b) (sc_ID sc) = None"
  shows "clearSession b (sc_ID sc) = (NoContent, []) \<and> offline_session sc \<in> set (session_rows uni b (\<lambda>_. []))"
proof -
  have "sc_ID sc \<notin> (cl_ID \<circ> snd) ` set (bk_clients b)"
    using assms(1,5) by (force simp: map_of_eq_None_iff broker_wf_def)
  moreover have "ToLower uni [] = []" by (simp add: ToLower_def is_ascii_def)
  ultimately show ?thesis
    using assms by (auto simp: clearSession_def session_rows_def Let_def list_ex_iff)
qed

theorem clearSession_keeps_offline_session_witness:
  "clearSession \<lparr>bk_clients = [], bk_retained = [], bk_stored = Some (Some [\<lparr>sc_ID = ''d'', sc_Username = [],
      sc_Remote = [], sc_Listener = [], sc_ProtocolVersion = 5, sc_Clean = False,
      sc_SessionExpiryInterval = 60\<rparr>])\<rparr> ''d'' = (NoContent, [])"
  using clearSession_keeps_offline_session
    [of "\<lparr>bk_clients = [], bk_retained = [], bk_stored = Some (Some [\<lparr>sc_ID = ''d'', sc_Username = [],
        sc_Remote = [], sc_Listener = [], sc_ProtocolVersion = 5, sc_Clean = False,
        sc_SessionExpiryInterval = 60\<rparr>])\<rparr>" _ "\<lparr>sc_ID = ''d'', sc_Username = [],
        sc_Remote = [], sc_Listener = [], sc_ProtocolVersion = 5, sc_Clean = False,
        sc_SessionExpiryInterval = 60\<rparr>"]
  by (simp add: broker_wf_def)

end
