(* ===== verification/Url.thy ===== *)
theory Url
  imports Prelude
begin

text \<open>
  What the program uses of \<open>net/url\<close>: \<open>PathEscape\<close>, \<open>QueryEscape\<close>, \<open>PathUnescape\<close> and
  \<open>QueryUnescape\<close>, bytewise as the standard library does it. \<open>None\<close> is the error of a malformed
  percent escape.
\<close>

definition is_alnum :: "char \<Rightarrow> bool" where
  "is_alnum c \<longleftrightarrow> is_digit c
     \<or> 65 \<le> (of_char c :: nat) \<and> (of_char c :: nat) \<le> 90
     \<or> 97 \<le> (of_char c :: nat) \<and> (of_char c :: nat) \<le> 122"

datatype escape_mode = EncodePathSegment | EncodeQueryComponent

definition shouldEscape :: "escape_mode \<Rightarrow> char \<Rightarrow> bool" where
  "shouldEscape mode c =
     (if is_alnum c then False
      else if c \<in> set ''-_.~'' then False
      else if c \<in> set ''$&+,/:;=?@'' then
        (case mode of
           EncodePathSegment \<Rightarrow> c \<in> set ''/;,?''
         | EncodeQueryComponent \<Rightarrow> True)
      else True)"

definition upperhex :: "nat \<Rightarrow> char" where
  "upperhex n = (if n < 10 then char_of (48 + n) else char_of (55 + n))"

definition escape_byte :: "escape_mode \<Rightarrow> char \<Rightarrow> string" where
  "escape_byte mode c =
     (if c = CHR '' '' \<and> mode = EncodeQueryComponent then ''+''
      else if shouldEscape mode c
        then [CHR ''%'', upperhex (of_char c div 16), upperhex (of_char c mod 16)]
      else [c])"

definition escape :: "escape_mode \<Rightarrow> string \<Rightarrow> string" where
  "escape mode s = concat (map (escape_byte mode) s)"

abbreviation PathEscape :: "string \<Rightarrow> string" where
  "PathEscape \<equiv> escape EncodePathSegment"

abbreviation QueryEscape :: "string \<Rightarrow> string" where
  "QueryEscape \<equiv> escape EncodeQueryComponent"

definition unhex :: "char \<Rightarrow> nat option" where
  "unhex c =
     (if is_digit c then Some (of_char c - 48)
      else if 97 \<le> (of_char c :: nat) \<and> (of_char c :: nat) \<le> 102 then Some (of_char c - 87)
      else if 65 \<le> (of_char c :: nat) \<and> (of_char c :: nat) \<le> 70 then Some (of_char c - 55)
      else None)"

fun unescape :: "escape_mode \<Rightarrow> string \<Rightarrow> string option" where
  "unescape mode [] = Some []"
| "unescape mode (c # s) =
     (if c = CHR ''%'' then
        (case s of
           h # l # rest \<Rightarrow>
             (case (unhex h, unhex l) of
                (Some x, Some y) \<Rightarrow> map_option ((#) (char_of (16 * x + y))) (unescape mode rest)
              | _ \<Rightarrow> None)
         | _ \<Rightarrow> None)
      else if c = CHR ''+'' \<and> mode = EncodeQueryComponent
        then map_option ((#) (CHR '' '')) (unescape mode s)
      else map_option ((#) c) (unescape mode s))"

abbreviation PathUnescape :: "string \<Rightarrow> string option" where
  "PathUnescape \<equiv> unescape EncodePathSegment"

lemma escape_simps [simp]:
  "escape mode [] = []" "escape mode (c # s) = escape_byte mode c @ escape mode s"
  by (simp_all add: escape_def)

lemma unhex_upperhex:
  assumes "n < 16"
  shows "unhex (upperhex n) = Some n \<and> is_alnum (upperhex n)"
proof (cases "n < 10")
  case True
  then have "of_char (char_of (48 + n)) = 48 + n" by simp
  with True show ?thesis by (simp add: unhex_def upperhex_def is_digit_def is_alnum_def)
next
  case False
  then have "of_char (char_of (55 + n)) = 55 + n" using assms by simp
  with False assms show ?thesis by (simp add: unhex_def upperhex_def is_digit_def is_alnum_def)
qed

lemma of_char_lt_256: "(of_char c :: nat) < 256"
  using nat_of_char_less_256 by blast

lemma hex_recompose:
  "char_of (16 * (of_char c div 16) + of_char c mod 16 :: nat) = c"
proof -
  have "16 * (of_char c div 16) + of_char c mod 16 = (of_char c :: nat)" by (simp add: mult_div_mod_eq)
  then show ?thesis by (simp only: char_of_char)
qed

lemma unescape_escape_byte:
  "unescape mode (escape_byte mode c @ s) = map_option ((#) c) (unescape mode s)"
proof (cases "c = CHR '' '' \<and> mode = EncodeQueryComponent")
  case True
  then show ?thesis by (simp add: escape_byte_def)
next
  case False
  note nsp = this
  show ?thesis
  proof (cases "shouldEscape mode c")
    case True
    have "unhex (upperhex (of_char c div 16)) = Some (of_char c div 16)"
      "unhex (upperhex (of_char c mod 16)) = Some (of_char c mod 16)"
      using of_char_lt_256 [of c] by (simp_all add: unhex_upperhex div_less_iff_less_mult)
    with True nsp show ?thesis by (simp add: escape_byte_def hex_recompose)
  next
    case False
    have "c \<noteq> CHR ''%''" using False by (auto simp: shouldEscape_def is_alnum_def is_digit_def)
    moreover have "\<not> (c = CHR ''+'' \<and> mode = EncodeQueryComponent)"
      using False by (auto simp: shouldEscape_def is_alnum_def is_digit_def)
    ultimately show ?thesis using False nsp by (auto simp: escape_byte_def)
  qed
qed

text \<open>Escaping is undone by unescaping, in either mode.\<close>

lemma unescape_escape [simp]: "unescape mode (escape mode s) = Some s"
  by (induction s) (simp_all add: unescape_escape_byte)

lemma escape_inject [simp]: "escape mode s = escape mode t \<longleftrightarrow> s = t"
  by (metis option.inject unescape_escape)

lemma set_escape:
  assumes "c \<in> set (escape mode s)"
  shows "\<not> shouldEscape mode c \<or> c \<in> {CHR ''%'', CHR ''+''}"
proof -
  obtain b where b: "c \<in> set (escape_byte mode b)" using assms by (auto simp: escape_def)
  have "is_alnum (upperhex (of_char b div 16))" "is_alnum (upperhex (of_char b mod 16))"
    using of_char_lt_256 [of b] by (simp_all add: unhex_upperhex div_less_iff_less_mult)
  then have "is_alnum c \<or> c = b \<and> \<not> shouldEscape mode b \<or> c \<in> {CHR ''%'', CHR ''+''}"
    using b by (auto simp: escape_byte_def split: if_splits)
  then show ?thesis by (auto simp: shouldEscape_def)
qed

text \<open>An escaped path segment has no slash, question mark or brace.\<close>

lemma notin_PathEscape:
  "CHR ''/'' \<notin> set (PathEscape s)" "CHR ''?'' \<notin> set (PathEscape s)" "CHR ''{'' \<notin> set (PathEscape s)"
  using set_escape [of _ EncodePathSegment s]
  by (force simp: shouldEscape_def is_alnum_def is_digit_def)+

lemma notin_QueryEscape:
  "CHR ''&'' \<notin> set (QueryEscape s)" "CHR ''='' \<notin> set (QueryEscape s)" "CHR '';'' \<notin> set (QueryEscape s)"
  using set_escape [of _ EncodeQueryComponent s]
  by (force simp: shouldEscape_def is_alnum_def is_digit_def)+

lemma PathUnescape_plain: "CHR ''%'' \<notin> set s \<Longrightarrow> PathUnescape s = Some s"
  by (induction s) auto

section \<open>Query strings\<close>

text \<open>
  \<open>url.Values\<close> as the list of its entries: the order within a key matters, the order of the keys does
  not. \<open>Encode\<close> sorts by key, \<open>ParseQuery\<close> drops what it cannot read, as callers of \<open>URL.Query\<close> see it.
\<close>

type_synonym Values = "(string \<times> string) list"

definition Get :: "Values \<Rightarrow> string \<Rightarrow> string" where
  "Get q k = (case find (\<lambda>e. fst e = k) q of None \<Rightarrow> [] | Some e \<Rightarrow> snd e)"

definition Encode :: "Values \<Rightarrow> string" where
  "Encode q = Join (CHR ''&'') (map (\<lambda>(k, v). QueryEscape k @ CHR ''='' # QueryEscape v) (sort_key fst q))"

definition parse_pair :: "string \<Rightarrow> (string \<times> string) option" where
  "parse_pair s =
     (if CHR '';'' \<in> set s \<or> s = [] then None
      else let (k, v) = (case IndexByte s (CHR ''='') of
                           None \<Rightarrow> (s, []) | Some i \<Rightarrow> (take i s, drop (i + 1) s))
           in (case (unescape EncodeQueryComponent k, unescape EncodeQueryComponent v) of
                 (Some k, Some v) \<Rightarrow> Some (k, v) | _ \<Rightarrow> None))"

definition ParseQuery :: "string \<Rightarrow> Values" where
  "ParseQuery s = List.map_filter parse_pair (Split (CHR ''&'') s)"

lemma parse_pair_encoded:
  "parse_pair (QueryEscape k @ CHR ''='' # QueryEscape v) = Some (k, v)"
  using notin_QueryEscape [of k] notin_QueryEscape [of v] by (simp add: parse_pair_def)

lemma ParseQuery_Encode: "ParseQuery (Encode q) = sort_key fst q"
proof (cases "q = []")
  case True
  then show ?thesis by (simp add: ParseQuery_def Encode_def parse_pair_def map_filter_simps)
next
  case False
  let ?e = "\<lambda>(k, v). QueryEscape k @ CHR ''='' # QueryEscape v"
  have "\<forall>x \<in> set (map ?e (sort_key fst q)). CHR ''&'' \<notin> set x" using notin_QueryEscape(1) by auto
  then have "Split (CHR ''&'') (Encode q) = map ?e (sort_key fst q)"
    unfolding Encode_def using False by (intro Split_Join) (simp_all add: sort_key_def [symmetric] flip: set_empty)
  moreover have "List.map_filter parse_pair (map ?e xs) = xs" for xs
    by (induction xs) (auto simp: map_filter_simps parse_pair_encoded)
  ultimately show ?thesis by (simp only: ParseQuery_def)
qed

lemma Get_sort_key: "Get (sort_key fst q) k = Get q k"
proof -
  have "find (\<lambda>e. fst e = k) xs = (case filter (\<lambda>e. fst e = k) xs of [] \<Rightarrow> None | e # _ \<Rightarrow> Some e)" for xs :: Values
    by (induction xs) auto
  moreover have "filter (\<lambda>e. fst e = k) (sort_key fst q) = filter (\<lambda>e. fst e = k) q"
    by (rule sort_key_stable)
  ultimately show ?thesis by (simp add: Get_def)
qed

end
