(* ===== verification/ClusterRest.thy ===== *)
theory ClusterRest
  imports RestApi Url
begin

text \<open>
  The cluster mirror of the REST interface, \<open>cluster/rest/*.go\<close>: every request fans out to all
  members and their answers are merged. The network is the parameter \<open>net\<close>, what
  \<open>http.DefaultClient\<close> makes of a method and a URL; the requests of one fan-out run concurrently
  and write disjoint slots of the result slice, so their order does not matter. The JSON decoder
  of a page is the parameter \<open>unmarshal\<close>.
\<close>

section \<open>Peers\<close>

record Member =
  m_Name :: string
  m_Addr :: string

datatype fetch_error = ErrNewRequest | DeadlineExceeded | ErrDo | ErrReadBody

text \<open>
  What one HTTP exchange comes to: the request cannot be built, no response (before or after the
  deadline), or a response whose body is read completely or not.
\<close>

datatype http_outcome = BadURL | NoResponse bool | Response nat "bytes option"

record peerResult =
  pr_URL :: string
  pr_Status :: nat
  pr_Body :: bytes
  pr_Err :: "fetch_error option"

definition fetch :: "(string \<Rightarrow> string \<Rightarrow> http_outcome) \<Rightarrow> string \<Rightarrow> string \<Rightarrow> peerResult" where
  "fetch net method url =
     (let rs = \<lparr>pr_URL = url, pr_Status = 0, pr_Body = [], pr_Err = None\<rparr> in
      case net method url of
        BadURL \<Rightarrow> rs\<lparr>pr_Err := Some ErrNewRequest\<rparr>
      | NoResponse expired \<Rightarrow> rs\<lparr>pr_Err := Some (if expired then DeadlineExceeded else ErrDo)\<rparr>
      | Response code body \<Rightarrow>
          (case body of
             None \<Rightarrow> rs\<lparr>pr_Status := code, pr_Err := Some ErrReadBody\<rparr>
           | Some data \<Rightarrow> rs\<lparr>pr_Status := code, pr_Body := data\<rparr>))"

definition fetchM :: "(string \<Rightarrow> string \<Rightarrow> http_outcome) \<Rightarrow> string \<Rightarrow> string list \<Rightarrow> peerResult list" where
  "fetchM net method urls = map (fetch net method) urls"

definition portOf :: "string \<Rightarrow> string" where
  "portOf addr =
     (case LastIndexByte addr (CHR '':'') of
        Some i \<Rightarrow> if i < length addr - 1 then drop (i + 1) addr else ''8080''
      | None \<Rightarrow> ''8080'')"

text \<open>The cluster agent is its member list; \<open>New\<close> fixes how a URL is built.\<close>

record cluster =
  cl_members :: "Member list"
  cl_urlFor :: "Member \<Rightarrow> string \<Rightarrow> string"

definition new_Rest :: "Member list \<Rightarrow> string \<Rightarrow> cluster" where
  "new_Rest members httpAddr =
     (let port = portOf httpAddr in
      \<lparr>cl_members = members,
       cl_urlFor = (\<lambda>m pathAndQuery. ''http://'' @ m_Addr m @ '':'' @ port @ pathAndQuery)\<rparr>)"

definition peerURLs :: "cluster \<Rightarrow> string \<Rightarrow> string list" where
  "peerURLs c pathAndQuery = map (\<lambda>m. cl_urlFor c m pathAndQuery) (cl_members c)"

section \<open>Merging lists\<close>

definition maxPageSizeStr :: string where
  "maxPageSizeStr = ''500''"

definition paginate :: "form_values \<Rightarrow> 'r list \<Rightarrow> 'r page_result response option" where
  "paginate query items = map_option (Render StatusOK) (page_of items (ParsePage query))"

text \<open>
  The items of the usable answers with the name of their member: an answer with an error, with a
  status other than 200 or that does not decode is skipped.
\<close>

definition peer_items ::
  "(bytes \<Rightarrow> 'r page_result option) \<Rightarrow> Member list \<Rightarrow> peerResult list \<Rightarrow> (string \<times> 'r) list" where
  "peer_items unmarshal members results =
     concat (map (\<lambda>(m, rs).
         if pr_Err rs \<noteq> None \<or> pr_Status rs \<noteq> StatusOK then []
         else case unmarshal (pr_Body rs) of
             None \<Rightarrow> []
           | Some p \<Rightarrow> map (\<lambda>item. (m_Name m, item)) (pr_Items p))
       (zip members results))"

text \<open>The \<open>seen\<close> loop: keep the first item of every key.\<close>

fun dedupe_loop ::
  "('r \<Rightarrow> 'k) \<Rightarrow> (string \<Rightarrow> 'r \<Rightarrow> 'r) \<Rightarrow> (string \<times> 'r) list \<Rightarrow> 'k set \<Rightarrow> 'r list \<Rightarrow> 'r list" where
  "dedupe_loop key set_node [] seen merged = merged"
| "dedupe_loop key set_node ((node, item) # items) seen merged =
     (if key item \<in> seen then dedupe_loop key set_node items seen merged
      else dedupe_loop key set_node items (insert (key item) seen) (merged @ [set_node node item]))"

text \<open>A row as it travels between nodes: the summary of the node's list and the node's name.\<close>

record clientWire = clientSummary +
  cw_Node :: string

record subscriptionWire = subscriptionSummary +
  sw_Node :: string

record sessionWire = sessionSummary +
  ew_Node :: string

definition clients_pq :: "form_values \<Rightarrow> string" where
  "clients_pq query =
     ''/api/v1/mqtt/clients'' @ ''?page=1&size='' @ maxPageSizeStr @ ''&q='' @ QueryEscape (query ''q'')"

definition cluster_client_rows ::
  "(string \<Rightarrow> string) \<Rightarrow> (bytes \<Rightarrow> clientWire page_result option)
     \<Rightarrow> (string \<Rightarrow> string \<Rightarrow> http_outcome) \<Rightarrow> cluster \<Rightarrow> form_values \<Rightarrow> clientWire list" where
  "cluster_client_rows uni unmarshal net c query =
     (let q = query ''q'';
          pq = clients_pq query;
          results = fetchM net ''GET'' (map (\<lambda>m. cl_urlFor c m pq) (cl_members c));
          merged = dedupe_loop cs_ClientID (\<lambda>node item. item\<lparr>cw_Node := node\<rparr>)
            (peer_items unmarshal (cl_members c) results) {} [];
          merged = (if q \<noteq> []
            then filter (\<lambda>r. Contains (ToLower uni (cs_ClientID r)) (ToLower uni q)) merged else merged)
      in sort_key cs_ClientID merged)"

definition cluster_listClients ::
  "(string \<Rightarrow> string) \<Rightarrow> (bytes \<Rightarrow> clientWire page_result option)
     \<Rightarrow> (string \<Rightarrow> string \<Rightarrow> http_outcome) \<Rightarrow> cluster \<Rightarrow> form_values
     \<Rightarrow> clientWire page_result response option" where
  "cluster_listClients uni unmarshal net c query =
     paginate query (cluster_client_rows uni unmarshal net c query)"

definition cluster_listSubscriptions ::
  "(bytes \<Rightarrow> subscriptionWire page_result option) \<Rightarrow> (string \<Rightarrow> string \<Rightarrow> http_outcome) \<Rightarrow> cluster
     \<Rightarrow> form_values \<Rightarrow> subscriptionWire page_result response option" where
  "cluster_listSubscriptions unmarshal net c query =
     (let pq = ''/api/v1/mqtt/subscriptions'' @ ''?page=1&size='' @ maxPageSizeStr
            @ ''&topic='' @ QueryEscape (query ''topic'')
            @ ''&clientid='' @ QueryEscape (query ''clientid'');
          results = fetchM net ''GET'' (map (\<lambda>m. cl_urlFor c m pq) (cl_members c));
          merged = dedupe_loop (\<lambda>s. (ss_ClientID s, ss_Topic s)) (\<lambda>node item. item\<lparr>sw_Node := node\<rparr>)
            (peer_items unmarshal (cl_members c) results) {} []
      in paginate query (sort_key (\<lambda>s. (ss_ClientID s, ss_Topic s)) merged))"

definition cluster_listRetained ::
  "(string \<Rightarrow> string) \<Rightarrow> (bytes \<Rightarrow> retainedSummary page_result option)
     \<Rightarrow> (string \<Rightarrow> string \<Rightarrow> http_outcome) \<Rightarrow> cluster \<Rightarrow> form_values
     \<Rightarrow> retainedSummary page_result response option" where
  "cluster_listRetained uni unmarshal net c query =
     (let topicQ = query ''topic'';
          pq = ''/api/v1/mqtt/retained'' @ ''?page=1&size='' @ maxPageSizeStr
            @ ''&topic='' @ QueryEscape topicQ @ ''&payload='' @ QueryEscape (query ''payload'');
          results = fetchM net ''GET'' (map (\<lambda>m. cl_urlFor c m pq) (cl_members c));
          merged = dedupe_loop rs_Topic (\<lambda>_ item. item)
            (peer_items unmarshal (cl_members c) results) {} [];
          merged = (if topicQ \<noteq> []
            then filter (\<lambda>r. Contains (ToLower uni (rs_Topic r)) (ToLower uni topicQ)) merged else merged)
      in paginate query (sort_key rs_Topic merged))"

text \<open>
  The \<open>byID\<close> loop of \<open>listSessions\<close>; the map is an association list. The rows are sorted
  afterwards, so the order of the map does not show.
\<close>

fun session_loop ::
  "(string \<times> sessionWire) list \<Rightarrow> (string \<times> sessionWire) list \<Rightarrow> (string \<times> sessionWire) list" where
  "session_loop [] byID = byID"
| "session_loop ((node, item) # items) byID =
     (let item = item\<lparr>ew_Node := node\<rparr> in
      session_loop items
        (case map_of byID (se_ClientID item) of
           None \<Rightarrow> AList.update (se_ClientID item) item byID
         | Some existing \<Rightarrow>
             if se_Online item \<and> \<not> se_Online existing
             then AList.update (se_ClientID item) item byID else byID))"

definition cluster_session_rows ::
  "(bytes \<Rightarrow> sessionWire page_result option) \<Rightarrow> (string \<Rightarrow> string \<Rightarrow> http_outcome) \<Rightarrow> cluster
     \<Rightarrow> form_values \<Rightarrow> sessionWire list" where
  "cluster_session_rows unmarshal net c query =
     (let pq = ''/api/v1/mqtt/sessions'' @ ''?page=1&size='' @ maxPageSizeStr
            @ ''&online='' @ QueryEscape (query ''online'');
          results = fetchM net ''GET'' (map (\<lambda>m. cl_urlFor c m pq) (cl_members c));
          byID = session_loop (peer_items unmarshal (cl_members c) results) []
      in sort_key se_ClientID (map snd byID))"

definition cluster_listSessions ::
  "(bytes \<Rightarrow> sessionWire page_result option) \<Rightarrow> (string \<Rightarrow> string \<Rightarrow> http_outcome) \<Rightarrow> cluster
     \<Rightarrow> form_values \<Rightarrow> sessionWire page_result response option" where
  "cluster_listSessions unmarshal net c query =
     paginate query (cluster_session_rows unmarshal net c query)"

definition cluster_topicsTree ::
  "(bytes \<Rightarrow> topicNode option) \<Rightarrow> (string \<Rightarrow> string \<Rightarrow> http_outcome) \<Rightarrow> cluster \<Rightarrow> topicNode response" where
  "cluster_topicsTree unmarshal net c =
     (let results = fetchM net ''GET'' (peerURLs c ''/api/v1/mqtt/topics'');
          peers = concat (map (\<lambda>rs.
            if pr_Err rs \<noteq> None \<or> pr_Status rs \<noteq> StatusOK then []
            else case unmarshal (pr_Body rs) of None \<Rightarrow> [] | Some peer \<Rightarrow> [peer]) results)
      in Render StatusOK (merge_trees peers))"

section \<open>Deletions\<close>

definition broadcastDelete ::
  "(string \<Rightarrow> string \<Rightarrow> http_outcome) \<Rightarrow> cluster \<Rightarrow> string \<Rightarrow> unit response" where
  "broadcastDelete net c path =
     (let results = fetchM net ''DELETE'' (peerURLs c path);
          any204 = list_ex (\<lambda>rs. pr_Err rs = None \<and> pr_Status rs = 204) results;
          any404 = list_ex (\<lambda>rs. pr_Err rs = None \<and> pr_Status rs = 404) results;
          anyOther = list_ex (\<lambda>rs. pr_Err rs \<noteq> None \<or> pr_Status rs \<noteq> 204 \<and> pr_Status rs \<noteq> 404) results
      in if any204 then NoContent
         else if any404 \<and> \<not> anyOther then NotFound
         else HttpError StatusBadGateway ''all peers failed'')"

definition cluster_clearSession ::
  "(string \<Rightarrow> string \<Rightarrow> http_outcome) \<Rightarrow> cluster \<Rightarrow> string \<Rightarrow> unit response" where
  "cluster_clearSession net c cid =
     (if cid = [] then HttpError StatusBadRequest ''missing client id''
      else broadcastDelete net c
             (ReplaceFirst ''/api/v1/mqtt/sessions/{id}'' ''{id}'' (PathEscape cid)))"

definition cluster_clearRetained ::
  "(string \<Rightarrow> string \<Rightarrow> http_outcome) \<Rightarrow> cluster \<Rightarrow> string \<Rightarrow> unit response" where
  "cluster_clearRetained net c topic =
     (if topic = [] then HttpError StatusBadRequest ''missing topic''
      else broadcastDelete net c
             (ReplaceFirst ''/api/v1/mqtt/retained/{topic}'' ''{topic}'' (PathEscape topic)))"

definition unsubscribe_path :: "string \<Rightarrow> string \<Rightarrow> string" where
  "unsubscribe_path clientID topic =
     (let path = ''/api/v1/mqtt/clients/{id}/subscriptions/{topic}'';
          path = ReplaceFirst path ''{id}'' (PathEscape clientID)
      in ReplaceFirst path ''{topic}'' (PathEscape topic))"

definition cluster_unsubscribeClient ::
  "(string \<Rightarrow> string \<Rightarrow> http_outcome) \<Rightarrow> cluster \<Rightarrow> string \<Rightarrow> string \<Rightarrow> unit response" where
  "cluster_unsubscribeClient net c clientID topic =
     (if clientID = [] \<or> topic = [] then HttpError StatusBadRequest ''missing client id or topic''
      else broadcastDelete net c (unsubscribe_path clientID topic))"

section \<open>The first of a key\<close>

lemma dedupe_loop_append:
  "dedupe_loop key sn items seen merged = merged @ dedupe_loop key sn items seen []"
proof (induction items arbitrary: seen merged)
  case (Cons it items)
  obtain n x where it: "it = (n, x)" by force
  show ?case
    using Cons.IH [of "insert (key x) seen" "merged @ [sn n x]"] Cons.IH [of "insert (key x) seen" "[sn n x]"]
      Cons.IH [of seen merged]
    by (simp add: it)
qed simp

lemma dedupe_loop_Cons:
  "dedupe_loop key sn ((n, x) # items) seen [] =
     (if key x \<in> seen then dedupe_loop key sn items seen []
      else sn n x # dedupe_loop key sn items (insert (key x) seen) [])"
  using dedupe_loop_append [of key sn items "insert (key x) seen" "[sn n x]"] by simp

lemma dedupe_loop_keys:
  assumes "\<And>n x. key (sn n x) = key x"
  shows "distinct (map key (dedupe_loop key sn items seen []))
    \<and> key ` set (dedupe_loop key sn items seen []) = key ` snd ` set items - seen"
proof (induction items arbitrary: seen)
  case (Cons it items)
  obtain n x where it: "it = (n, x)" by force
  show ?case
    unfolding it dedupe_loop_Cons
    using Cons.IH [of seen] Cons.IH [of "insert (key x) seen"] assms by auto
qed simp

text \<open>The first item with a given key.\<close>

fun first_of :: "('r \<Rightarrow> 'k) \<Rightarrow> 'k \<Rightarrow> (string \<times> 'r) list \<Rightarrow> (string \<times> 'r) option" where
  "first_of key k [] = None"
| "first_of key k ((n, x) # items) = (if key x = k then Some (n, x) else first_of key k items)"

lemma first_of_None: "first_of key k items = None \<longleftrightarrow> k \<notin> key ` snd ` set items"
proof (induction items)
  case (Cons it items)
  then show ?case by (cases it; cases "key (snd it) = k") (simp_all, blast?)
qed simp

lemma first_of_Some: "first_of key k items = Some (n, x) \<Longrightarrow> (n, x) \<in> set items \<and> key x = k"
  by (induction items) (auto split: if_splits)

lemma set_dedupe_loop:
  assumes "\<And>n x. key (sn n x) = key x"
  shows "r \<in> set (dedupe_loop key sn items seen []) \<longleftrightarrow>
    key r \<notin> seen \<and> (\<exists>n x. first_of key (key r) items = Some (n, x) \<and> r = sn n x)"
proof (induction items arbitrary: seen)
  case (Cons it items)
  obtain n x where it: "it = (n, x)" by force
  show ?case
    unfolding it dedupe_loop_Cons using Cons.IH [of seen] Cons.IH [of "insert (key x) seen"] assms by auto
qed simp

lemma first_of_unique:
  assumes "distinct (map (key \<circ> snd) items)" "(n, x) \<in> set items"
  shows "first_of key (key x) items = Some (n, x)"
  using assms by (induction items) (auto simp: rev_image_eqI)

lemma set_dedupe_distinct:
  assumes "\<And>n x. key (sn n x) = key x" "distinct (map (key \<circ> snd) items)"
  shows "r \<in> set (dedupe_loop key sn items {} []) \<longleftrightarrow> (\<exists>n x. (n, x) \<in> set items \<and> r = sn n x)"
  unfolding set_dedupe_loop [of key sn, OF assms(1)]
proof
  assume "key r \<notin> {} \<and> (\<exists>n x. first_of key (key r) items = Some (n, x) \<and> r = sn n x)"
  then show "\<exists>n x. (n, x) \<in> set items \<and> r = sn n x" using first_of_Some by fast
next
  assume "\<exists>n x. (n, x) \<in> set items \<and> r = sn n x"
  then obtain n x where nx: "(n, x) \<in> set items" "r = sn n x" by blast
  then have "first_of key (key r) items = Some (n, x)"
    using first_of_unique [OF assms(2) nx(1)] assms(1) by simp
  with nx show "key r \<notin> {} \<and> (\<exists>n x. first_of key (key r) items = Some (n, x) \<and> r = sn n x)" by blast
qed

section \<open>The preferred session of a client\<close>

text \<open>The session the mirror shows for a client: its first online one, else its first one.\<close>

definition preferred :: "string \<Rightarrow> (string \<times> sessionWire) list \<Rightarrow> (string \<times> sessionWire) option" where
  "preferred cid items =
     (case first_of se_ClientID cid (filter (\<lambda>(_, x). se_Online x) items) of
        Some it \<Rightarrow> Some it
      | None \<Rightarrow> first_of se_ClientID cid items)"

definition tag :: "string \<times> sessionWire \<Rightarrow> sessionWire" where
  "tag = (\<lambda>(node, item). item\<lparr>ew_Node := node\<rparr>)"

lemma session_loop_map_of:
  assumes "distinct (map fst byID)" "\<forall>(k, v) \<in> set byID. se_ClientID v = k"
  shows "map_of (session_loop items byID) cid =
      (case map_of byID cid of
         None \<Rightarrow> map_option tag (preferred cid items)
       | Some old \<Rightarrow>
           if se_Online old then Some old
           else (case first_of se_ClientID cid (filter (\<lambda>(_, x). se_Online x) items) of
                   Some it \<Rightarrow> Some (tag it) | None \<Rightarrow> Some old))
    \<and> distinct (map fst (session_loop items byID))
    \<and> (\<forall>(k, v) \<in> set (session_loop items byID). se_ClientID v = k)"
  using assms
proof (induction items arbitrary: byID)
  case Nil
  then show ?case by (auto simp: preferred_def split: option.splits)
next
  case (Cons it items)
  obtain n x where it: "it = (n, x)" by force
  let ?x = "x\<lparr>ew_Node := n\<rparr>"
  let ?up = "AList.update (se_ClientID x) ?x byID"
  have up1: "distinct (map fst ?up)" using Cons.prems(1) by (simp add: distinct_update)
  have up2: "\<forall>(k, v) \<in> set ?up. se_ClientID v = k"
  proof clarify
    fix k v assume "(k, v) \<in> set ?up"
    from set_alist_update [OF this] show "se_ClientID v = k" using Cons.prems(2) by auto
  qed
  define by' where "by' = (case map_of byID (se_ClientID x) of
      None \<Rightarrow> ?up | Some e \<Rightarrow> if se_Online x \<and> \<not> se_Online e then ?up else byID)"
  have wf': "distinct (map fst by')" "\<forall>(k, v) \<in> set by'. se_ClientID v = k"
    using up1 up2 Cons.prems by (simp_all add: by'_def split: option.splits)
  have run: "session_loop (it # items) byID = session_loop items by'"
    by (simp add: it by'_def Let_def split: option.splits)
  note IH = Cons.IH [OF wf']
  let ?on = "filter (\<lambda>(_, x). se_Online x)"
  show ?case
  proof (cases "cid = se_ClientID x")
    case False
    then have "map_of by' cid = map_of byID cid"
      by (simp add: by'_def update_conv' split: option.splits)
    moreover have "preferred cid (it # items) = preferred cid items"
      "first_of se_ClientID cid (?on (it # items)) = first_of se_ClientID cid (?on items)"
      using False by (auto simp: it preferred_def split: option.split)
    ultimately show ?thesis unfolding run using IH by (simp only: simp_thms) blast
  next
    case True
    have one: "first_of se_ClientID cid (?on (it # items)) =
        (if se_Online x then Some it else first_of se_ClientID cid (?on items))"
      "first_of se_ClientID cid (it # items) = Some it" "tag it = ?x"
      using True by (simp_all add: it tag_def)
    show ?thesis
    proof (cases "map_of byID cid")
      case None
      then have "map_of by' cid = Some ?x" using True by (simp add: by'_def update_conv')
      with None IH show ?thesis unfolding run preferred_def one by (simp add: one(3) split: option.splits)
    next
      case (Some old)
      then have "map_of by' cid = (if se_Online x \<and> \<not> se_Online old then Some ?x else Some old)"
        using True by (simp add: by'_def update_conv')
      with Some IH show ?thesis unfolding run one by (simp add: one(3) split: option.splits if_splits)
    qed
  qed
qed

lemma set_session_loop:
  "r \<in> snd ` set (session_loop items []) \<longleftrightarrow> map_option tag (preferred (se_ClientID r) items) = Some r"
proof -
  have l: "distinct (map fst (session_loop items []))"
    "\<forall>(k, v) \<in> set (session_loop items []). se_ClientID v = k"
    "map_of (session_loop items []) k = map_option tag (preferred k items)" for k
    using session_loop_map_of [of "[]" items k] by auto
  have "r \<in> snd ` set (session_loop items []) \<longleftrightarrow> (se_ClientID r, r) \<in> set (session_loop items [])"
    using l(2) by force
  then show ?thesis by (simp add: map_of_eq_Some_iff [OF l(1), symmetric] l(3))
qed

lemma distinct_session_loop: "distinct (map se_ClientID (map snd (session_loop items [])))"
proof -
  have l: "distinct (map fst (session_loop items []))"
    "\<forall>(k, v) \<in> set (session_loop items []). se_ClientID v = k"
    using session_loop_map_of [of "[]" items "[]"] by auto
  have "map se_ClientID (map snd (session_loop items [])) = map fst (session_loop items [])"
    using l(2) by auto
  then show ?thesis using l(1) by (simp only:)
qed

section \<open>What the members answer\<close>

text \<open>
  A node with broker \<open>b\<close> answers the mirror's request for its first 500 clients: it runs
  \<open>listClients\<close> on the query the mirror built, and the body decodes to the page it answers with.
\<close>

definition peer_query :: "form_values \<Rightarrow> form_values" where
  "peer_query query = with_page (\<lambda>k. if k = ''q'' then query ''q'' else []) 1 500"

definition wire_client :: "string \<Rightarrow> clientSummary \<Rightarrow> clientWire" where
  "wire_client node r = clientSummary.extend r (clientWire.fields node)"

definition wire_page :: "clientSummary page_result \<Rightarrow> clientWire page_result" where
  "wire_page p = \<lparr>pr_Page = pr_Page p, pr_Size = pr_Size p, pr_Total = pr_Total p,
     pr_Items = map (wire_client []) (pr_Items p)\<rparr>"

lemma wire_client_simps [simp]:
  "cs_ClientID (wire_client n r) = cs_ClientID r" "(wire_client n r)\<lparr>cw_Node := m\<rparr> = wire_client m r"
  "cw_Node (wire_client n r) = n"
  by (simp_all add: wire_client_def clientSummary.defs clientWire.defs)

definition node_answers ::
  "(bytes \<Rightarrow> clientWire page_result option) \<Rightarrow> (string \<Rightarrow> string) \<Rightarrow> broker \<Rightarrow> form_values \<Rightarrow> http_outcome \<Rightarrow> bool" where
  "node_answers unmarshal uni b query outcome \<longleftrightarrow>
     (\<exists>code p body. listClients uni b (peer_query query) = Some (Render code p)
        \<and> outcome = Response code (Some body) \<and> unmarshal body = Some (wire_page p))"

lemma listClients_peer_query:
  "listClients uni b (peer_query query) =
     Some (Render StatusOK \<lparr>pr_Page = 1, pr_Size = 500,
       pr_Total = int (length (client_rows uni b query)),
       pr_Items = take 500 (sort_key cs_ClientID (client_rows uni b query))\<rparr>)"
proof -
  have rows: "client_rows uni b (peer_query query) = client_rows uni b query"
    by (simp add: peer_query_def clients.rows_page) (simp add: client_rows_def)
  have "ParsePage (peer_query query) = \<lparr>Page = 1, Size = 500\<rparr>"
    by (simp add: peer_query_def ParsePage_with_page is_int64_def)
  then show ?thesis
    by (simp add: listClients_def ok_sorted_def page_of_def rows
        ApplyPagination_eq [of "\<lparr>Page = 1, Size = 500\<rparr>", simplified])
qed

lemma fetch_Response [simp]:
  "net method url = Response code (Some data) \<Longrightarrow>
     fetch net method url = \<lparr>pr_URL = url, pr_Status = code, pr_Body = data, pr_Err = None\<rparr>"
  by (simp add: fetch_def)

lemma peer_items_answers:
  assumes "list_all2 (\<lambda>m ys. \<exists>data. net verb (url m) = Response StatusOK (Some data)
      \<and> (\<exists>p. unmarshal data = Some p \<and> pr_Items p = ys)) ms yss"
  shows "peer_items unmarshal ms (fetchM net verb (map url ms)) =
    concat (map2 (\<lambda>m ys. map (\<lambda>y. (m_Name m, y)) ys) ms yss)"
  using assms
proof (induction ms yss rule: list_all2_induct)
  case (Cons m ms ys yss)
  then show ?case by (auto simp: peer_items_def fetchM_def)
qed (simp add: peer_items_def fetchM_def)

text \<open>What a member contributes to the merged client list.\<close>

definition visible_clients :: "(string \<Rightarrow> string) \<Rightarrow> form_values \<Rightarrow> broker \<Rightarrow> clientSummary list" where
  "visible_clients uni query b = take 500 (sort_key cs_ClientID (client_rows uni b query))"

lemma visible_clients_match:
  assumes "r \<in> set (visible_clients uni query b)" "query ''q'' \<noteq> []"
  shows "Contains (ToLower uni (cs_ClientID r)) (ToLower uni (query ''q''))"
proof -
  have "r \<in> set (client_rows uni b query)"
    using assms(1) set_take_subset by (fastforce simp: visible_clients_def)
  moreover have "Contains s []" for s by (cases s) auto
  ultimately show ?thesis
    by (auto simp: client_rows_def Let_def matches_def clientSummary_of_def)
qed

lemma cluster_client_items:
  assumes "length bs = length (cl_members c)"
    and "\<forall>i < length bs. node_answers unmarshal uni (bs ! i) query
           (net ''GET'' (cl_urlFor c (cl_members c ! i) (clients_pq query)))"
  shows "peer_items unmarshal (cl_members c)
      (fetchM net ''GET'' (map (\<lambda>m. cl_urlFor c m (clients_pq query)) (cl_members c))) =
    concat (map2 (\<lambda>m b. map (\<lambda>r. (m_Name m, wire_client [] r)) (visible_clients uni query b))
      (cl_members c) bs)"
proof -
  have "list_all2 (\<lambda>m ys. \<exists>data. net ''GET'' (cl_urlFor c m (clients_pq query)) = Response StatusOK (Some data)
      \<and> (\<exists>p. unmarshal data = Some p \<and> pr_Items p = ys))
    (cl_members c) (map (\<lambda>b. map (wire_client []) (visible_clients uni query b)) bs)"
    using assms
    by (auto simp: list_all2_conv_all_nth node_answers_def listClients_peer_query wire_page_def visible_clients_def)
  from peer_items_answers [where net = net and verb = "''GET''" and unmarshal = unmarshal
      and url = "\<lambda>m. cl_urlFor c m (clients_pq query)", OF this]
  show ?thesis by (simp add: zip_map2 o_def case_prod_unfold)
qed

lemma cluster_client_rows_eq:
  assumes "length bs = length (cl_members c)"
    and "\<forall>i < length bs. node_answers unmarshal uni (bs ! i) query
           (net ''GET'' (cl_urlFor c (cl_members c ! i) (clients_pq query)))"
  shows "cluster_client_rows uni unmarshal net c query =
    sort_key cs_ClientID (dedupe_loop cs_ClientID (\<lambda>node item. item\<lparr>cw_Node := node\<rparr>)
      (concat (map2 (\<lambda>m b. map (\<lambda>r. (m_Name m, wire_client [] r)) (visible_clients uni query b))
         (cl_members c) bs)) {} [])" (is "_ = sort_key _ ?merged")
proof -
  have "Contains (ToLower uni (cs_ClientID r)) (ToLower uni (query ''q''))"
    if "r \<in> set ?merged" "query ''q'' \<noteq> []" for r
  proof -
    have "cs_ClientID ` set ?merged = cs_ClientID ` snd ` set (concat (map2 (\<lambda>m b.
        map (\<lambda>r. (m_Name m, wire_client [] r)) (visible_clients uni query b)) (cl_members c) bs)) - {}"
      by (rule dedupe_loop_keys [THEN conjunct2]) simp
    moreover have "cs_ClientID r \<in> cs_ClientID ` set ?merged" using that(1) by (rule imageI)
    ultimately have "cs_ClientID r \<in> cs_ClientID ` snd ` set (concat (map2 (\<lambda>m b.
        map (\<lambda>r. (m_Name m, wire_client [] r)) (visible_clients uni query b)) (cl_members c) bs))"
      by (simp only: Diff_empty)
    then obtain b s where "s \<in> set (visible_clients uni query b)" "cs_ClientID r = cs_ClientID s"
      by auto
    then show ?thesis using visible_clients_match [of s uni query b] that(2) by simp
  qed
  then have "(if query ''q'' \<noteq> [] then filter (\<lambda>r. Contains (ToLower uni (cs_ClientID r))
      (ToLower uni (query ''q''))) ?merged else ?merged) = ?merged"
    by (auto intro: filter_True)
  then show ?thesis
    by (simp only: cluster_client_rows_def Let_def cluster_client_items
        [where net = net and unmarshal = unmarshal and c = c and query = query, OF assms])
qed

lemma distinct_visible_clients:
  "broker_wf b \<Longrightarrow> distinct (map cs_ClientID (visible_clients uni query b))"
  using clients.rows_keys [of b uni query]
  by (simp add: visible_clients_def take_map [symmetric] distinct_map_sort_key)

lemma concat_map2_distinct:
  assumes "length ms = length bs" "\<forall>b \<in> set bs. distinct (map k (f b))"
    and "\<forall>i < length bs. \<forall>j < length bs. i \<noteq> j \<longrightarrow> k ` set (f (bs ! i)) \<inter> k ` set (f (bs ! j)) = {}"
  shows "distinct (concat (map2 (\<lambda>m b. map k (f b)) ms bs))"
  using assms
proof (induction ms bs rule: list_induct2)
  case (Cons m ms b bs)
  have "\<forall>i < length bs. \<forall>j < length bs. i \<noteq> j \<longrightarrow> k ` set (f (bs ! i)) \<inter> k ` set (f (bs ! j)) = {}"
    using Cons.prems(2) by (metis Suc_less_eq length_Cons nat.inject nth_Cons_Suc)
  with Cons have IH: "distinct (concat (map2 (\<lambda>m b. map k (f b)) ms bs))" by simp
  have "k ` set (f b) \<inter> k ` set (f b') = {}" if b': "b' \<in> set bs" for b'
  proof -
    obtain j where "j < length bs" "bs ! j = b'" using b' by (auto simp: in_set_conv_nth)
    then show ?thesis using Cons.prems(2) [rule_format, of 0 "Suc j"] by simp
  qed
  then have "set (map k (f b)) \<inter> set (concat (map2 (\<lambda>m b. map k (f b)) ms bs)) = {}"
    by (auto dest!: set_zip_rightD)
  then show ?case using IH Cons.prems(1) by simp
qed simp

section \<open>Properties\<close>

lemma visible_clients_disjoint:
  assumes "\<forall>i < length bs. \<forall>j < length bs. i \<noteq> j \<longrightarrow>
      cl_ID ` snd ` set (bk_clients (bs ! i)) \<inter> cl_ID ` snd ` set (bk_clients (bs ! j)) = {}"
    and "i < length bs" "j < length bs" "i \<noteq> j"
  shows "cs_ClientID ` set (visible_clients uni query (bs ! i))
    \<inter> cs_ClientID ` set (visible_clients uni query (bs ! j)) = {}"
proof -
  have sub: "cs_ClientID ` set (visible_clients uni query b) \<subseteq> cl_ID ` snd ` set (bk_clients b)" for b
    using set_take_subset [of 500 "sort_key cs_ClientID (client_rows uni b query)"]
    by (force simp: visible_clients_def client_rows_def Let_def clientSummary_of_def)
  from assms have "cl_ID ` snd ` set (bk_clients (bs ! i)) \<inter> cl_ID ` snd ` set (bk_clients (bs ! j)) = {}" by simp
  with sub [of "bs ! i"] sub [of "bs ! j"] show ?thesis by (meson disjoint_iff subsetD)
qed



text \<open>
  A client that several members report (a cluster transition) appears once, as the first
  member in the member list reports it: the merge keeps the first record of an id, not the last.
\<close>

theorem cluster_clients_first_wins:
  assumes "query ''q'' = []"
  shows "r \<in> set (cluster_client_rows uni unmarshal net c query) \<longleftrightarrow>
    (\<exists>node x. first_of cs_ClientID (cs_ClientID r)
        (peer_items unmarshal (cl_members c)
          (fetchM net ''GET'' (map (\<lambda>m. cl_urlFor c m (clients_pq query)) (cl_members c)))) = Some (node, x)
      \<and> r = x\<lparr>cw_Node := node\<rparr>)"
  using assms by (simp add: cluster_client_rows_def Let_def set_dedupe_loop)

theorem cluster_clients_first_wins_witness:
  "wire_client ''n1'' (clientSummary_of (demo_client ''x'' [])) \<in> set (cluster_client_rows (\<lambda>s. s)
      (\<lambda>body. Some (wire_page \<lparr>pr_Page = 1, pr_Size = 500, pr_Total = 1,
         pr_Items = [clientSummary_of (demo_client ''x'' [])]\<rparr>))
      (\<lambda>_ url. Response StatusOK (Some []))
      (new_Rest [\<lparr>m_Name = ''n1'', m_Addr = ''10.0.0.1''\<rparr>, \<lparr>m_Name = ''n2'', m_Addr = ''10.0.0.2''\<rparr>] '':80'')
      (\<lambda>_. []))"
  by (subst cluster_clients_first_wins)
    (simp_all add: new_Rest_def Let_def peer_items_def fetchM_def wire_page_def)

text \<open>
  A client with several sessions in the answers is shown once, and online wins: the row is the
  first answer in which the client is online, and only when no member has it online the first one
  of all, each with the name of the member that gave it.
\<close>

theorem cluster_sessions_online_wins:
  "distinct (map se_ClientID (cluster_session_rows unmarshal net c query))
   \<and> (r \<in> set (cluster_session_rows unmarshal net c query) \<longleftrightarrow>
      (\<exists>it. preferred (se_ClientID r) (peer_items unmarshal (cl_members c)
          (fetchM net ''GET'' (map (\<lambda>m. cl_urlFor c m
             (''/api/v1/mqtt/sessions?page=1&size=500&online='' @ QueryEscape (query ''online'')))
             (cl_members c)))) = Some it \<and> r = tag it))"
proof -
  have pq: "''/api/v1/mqtt/sessions'' @ ''?page=1&size='' @ maxPageSizeStr @ ''&online='' @ s =
      ''/api/v1/mqtt/sessions?page=1&size=500&online='' @ s" for s
    by (simp add: maxPageSizeStr_def)
  show ?thesis
    unfolding cluster_session_rows_def Let_def pq
    using distinct_session_loop set_session_loop by (auto simp del: map_map)
qed

lemma broadcastDelete_status:
  "status (broadcastDelete net c path) =
     (let answers = map (\<lambda>m. net ''DELETE'' (cl_urlFor c m path)) (cl_members c) in
      if \<exists>body. Response 204 (Some body) \<in> set answers then 204
      else if answers \<noteq> [] \<and> (\<forall>a \<in> set answers. \<exists>body. a = Response 404 (Some body)) then 404
      else 502)"
proof -
  let ?r = "\<lambda>m. fetch net ''DELETE'' (cl_urlFor c m path)"
  have f: "pr_Err (?r m) = None \<and> pr_Status (?r m) = k \<longleftrightarrow>
      (\<exists>body. net ''DELETE'' (cl_urlFor c m path) = Response k (Some body))" for m k
    by (auto simp: fetch_def Let_def split: http_outcome.splits option.splits)
  have "status (broadcastDelete net c path) =
     (if \<exists>m \<in> set (cl_members c). pr_Err (?r m) = None \<and> pr_Status (?r m) = 204 then 204
      else if cl_members c \<noteq> [] \<and> (\<forall>m \<in> set (cl_members c). pr_Err (?r m) = None \<and> pr_Status (?r m) = 404)
        then 404 else 502)"
    by (auto simp: broadcastDelete_def Let_def fetchM_def peerURLs_def list_ex_iff)
  moreover have "(\<exists>m \<in> set (cl_members c). \<exists>body. net ''DELETE'' (cl_urlFor c m path) = Response 204 (Some body)) \<longleftrightarrow>
      (\<exists>body. Response 204 (Some body) \<in> set (map (\<lambda>m. net ''DELETE'' (cl_urlFor c m path)) (cl_members c)))"
    by (simp add: image_iff) metis
  ultimately show ?thesis unfolding f by (simp add: Let_def)
qed



text \<open>
  Escaping is right: whatever bytes a client id and a topic filter hold, the path the mirror
  asks its members for has exactly the eight segments of the route
  \<open>/api/v1/mqtt/clients/{id}/subscriptions/{topic}\<close>, and unescaping its two variable segments gives
  the id and the filter back.
\<close>

theorem unsubscribe_path_roundtrip:
  "Split (CHR ''/'') (unsubscribe_path cid topic) =
     [[], ''api'', ''v1'', ''mqtt'', ''clients'', PathEscape cid, ''subscriptions'', PathEscape topic]
   \<and> PathUnescape (PathEscape cid) = Some cid \<and> PathUnescape (PathEscape topic) = Some topic"
proof -
  have skip: "CHR ''{'' \<notin> set s \<Longrightarrow> ReplaceFirst (s @ t) (CHR ''{'' # old) new = s @ ReplaceFirst t (CHR ''{'' # old) new"
    for s t old new by (induction s) auto
  have split: "CHR ''/'' \<notin> set s \<Longrightarrow> Split (CHR ''/'') (s @ CHR ''/'' # t) = s # Split (CHR ''/'') t"
    "CHR ''/'' \<notin> set s \<Longrightarrow> Split (CHR ''/'') s = [s]" for s t
    by (induction s) auto
  have "unsubscribe_path cid topic =
      ''/api/v1/mqtt/clients/'' @ PathEscape cid @ ''/subscriptions/'' @ PathEscape topic"
    using skip [OF notin_PathEscape(3), of cid "''/subscriptions/{topic}''" "''topic}''" "PathEscape topic"]
    by (simp add: unsubscribe_path_def Let_def)
  then show ?thesis
    by (simp add: split notin_PathEscape)
qed

text \<open>
  Unsubscribing through the cluster, when every member of a non-empty cluster runs the node's
  handler on the request: the answer is 204 exactly when the subscription is listed by some
  member, and 404 otherwise.
\<close>

theorem cluster_unsubscribe_correct:
  assumes "length bs = length (cl_members c)" "bs \<noteq> []" "cid \<noteq> []" "topic \<noteq> []"
    and "\<forall>b \<in> set bs. broker_wf b"
    and "\<forall>i < length bs. \<exists>body. net ''DELETE'' (cl_urlFor c (cl_members c ! i) (unsubscribe_path cid topic))
           = Response (status (fst (unsubscribeClient (bs ! i) cid topic))) (Some body)"
  shows "status (cluster_unsubscribeClient net c cid topic) =
    (if \<exists>b \<in> set bs. \<exists>r \<in> set (subscription_rows uni b (\<lambda>_. [])). ss_ClientID r = cid \<and> ss_Topic r = topic
     then 204 else 404)"
proof -
  have st: "fst (unsubscribeClient b cid topic) = (if \<exists>r \<in> set (subscription_rows uni b (\<lambda>_. [])).
      ss_ClientID r = cid \<and> ss_Topic r = topic then NoContent else NotFound)" if "b \<in> set bs" for b
    unfolding subscription_row_iff [OF assms(5) [rule_format, OF that]] using assms(3,4)
    by (auto simp: unsubscribeClient_def split: option.splits)
  let ?A = "map (\<lambda>m. net ''DELETE'' (cl_urlFor c m (unsubscribe_path cid topic))) (cl_members c)"
  let ?listed = "\<lambda>b. \<exists>r \<in> set (subscription_rows uni b (\<lambda>_. [])). ss_ClientID r = cid \<and> ss_Topic r = topic"
  have nth: "\<exists>body. ?A ! i = Response (if ?listed (bs ! i) then 204 else 404) (Some body)" if "i < length bs" for i
    using assms(1,6) that st [of "bs ! i"] by (auto split: if_splits)
  have len: "length ?A = length bs" using assms(1) by simp
  have "(\<exists>body. Response 204 (Some body) \<in> set ?A) \<longleftrightarrow> (\<exists>b \<in> set bs. ?listed b)"
  proof
    assume "\<exists>body. Response 204 (Some body) \<in> set ?A"
    then obtain body i where i: "i < length bs" "?A ! i = Response 204 (Some body)"
      using len by (metis in_set_conv_nth)
    then have "?listed (bs ! i)" using nth [OF i(1)] by (auto split: if_splits)
    then show "\<exists>b \<in> set bs. ?listed b" using i(1) nth_mem by blast
  next
    assume "\<exists>b \<in> set bs. ?listed b"
    then obtain i where i: "i < length bs" "?listed (bs ! i)" by (metis in_set_conv_nth)
    then obtain body where "?A ! i = Response 204 (Some body)" using nth [OF i(1)] by auto
    then show "\<exists>body. Response 204 (Some body) \<in> set ?A" using i(1) len by (metis nth_mem)
  qed
  moreover have "\<not> (\<exists>b \<in> set bs. ?listed b) \<Longrightarrow> \<forall>a \<in> set ?A. \<exists>body. a = Response 404 (Some body)"
  proof
    fix a assume none: "\<not> (\<exists>b \<in> set bs. ?listed b)" and "a \<in> set ?A"
    then obtain i where i: "i < length bs" "a = ?A ! i" using len by (metis in_set_conv_nth)
    then have "\<not> ?listed (bs ! i)" using none nth_mem by blast
    then show "\<exists>body. a = Response 404 (Some body)" using nth [OF i(1)] unfolding i(2) by (simp only: if_False)
  qed
  moreover have "?A \<noteq> []" using len assms(2) by (metis length_0_conv)
  moreover have "cluster_unsubscribeClient net c cid topic = broadcastDelete net c (unsubscribe_path cid topic)"
    using assms(3,4) by (simp add: cluster_unsubscribeClient_def)
  ultimately show ?thesis
    by (simp only: broadcastDelete_status Let_def) (simp only: if_True if_False simp_thms split: if_split, blast?)
qed

theorem cluster_unsubscribe_correct_witness:
  "status (cluster_unsubscribeClient (\<lambda>_ _. Response 204 (Some []))
     (new_Rest [\<lparr>m_Name = ''n1'', m_Addr = ''10.0.0.1''\<rparr>] '':80'') ''a'' ''x'') =
    (if \<exists>b \<in> set [demo_broker [demo_client ''a'' [(''x'', demo_sub)]]].
          \<exists>r \<in> set (subscription_rows (\<lambda>s. s) b (\<lambda>_. [])). ss_ClientID r = ''a'' \<and> ss_Topic r = ''x''
     then 204 else 404)"
  by (rule cluster_unsubscribe_correct)
    (simp_all add: new_Rest_def Let_def demo_broker_def demo_client_def broker_wf_def unsubscribeClient_def)

text \<open>
  C28. The topic tree of the cluster, when every member answers with its own tree: it is, node for
  node and in the same order, the tree one broker holding the subscriptions of all members would
  serve, so the subscriber counts are those of the whole cluster.
\<close>

theorem cluster_tree_correct:
  assumes "length bs = length (cl_members c)"
    and "\<forall>i < length bs. \<exists>code tree body. topicsTree (bs ! i) = Render code tree
           \<and> net ''GET'' (cl_urlFor c (cl_members c ! i) ''/api/v1/mqtt/topics'') = Response code (Some body)
           \<and> unmarshal body = Some tree"
  shows "cluster_topicsTree unmarshal net c =
    topicsTree \<lparr>bk_clients = concat (map bk_clients bs), bk_retained = [], bk_stored = None\<rparr>"
proof -
  let ?fs = "\<lambda>b. concat (map (\<lambda>(_, cl). map fst (cl_Subscriptions cl)) (bk_clients b))"
  have "list_all2 (\<lambda>m b. \<exists>body. net ''GET'' (cl_urlFor c m ''/api/v1/mqtt/topics'') = Response StatusOK (Some body)
      \<and> unmarshal body = Some (build_tree (?fs b))) (cl_members c) bs"
    using assms by (fastforce simp: list_all2_conv_all_nth topicsTree_def)
  then have "concat (map (\<lambda>rs. if pr_Err rs \<noteq> None \<or> pr_Status rs \<noteq> StatusOK then []
        else case unmarshal (pr_Body rs) of None \<Rightarrow> [] | Some peer \<Rightarrow> [peer])
      (fetchM net ''GET'' (peerURLs c ''/api/v1/mqtt/topics''))) = map build_tree (map ?fs bs)"
    unfolding fetchM_def peerURLs_def by (induction rule: list_all2_induct) auto
  then have "cluster_topicsTree unmarshal net c = Render StatusOK (merge_trees (map build_tree (map ?fs bs)))"
    by (simp only: cluster_topicsTree_def Let_def)
  also have "\<dots> = Render StatusOK (build_tree (concat (map ?fs bs)))" by (simp only: merge_trees_global)
  also have "concat (map ?fs bs) =
      concat (map (\<lambda>(_, cl). map fst (cl_Subscriptions cl)) (concat (map bk_clients bs)))"
    by (induction bs) auto
  finally show ?thesis by (simp add: topicsTree_def)
qed

theorem cluster_tree_correct_witness:
  "cluster_topicsTree (\<lambda>_. Some (build_tree [''a/b'']))
     (\<lambda>_ _. Response StatusOK (Some [])) (new_Rest [\<lparr>m_Name = ''n1'', m_Addr = ''10.0.0.1''\<rparr>] '':80'') =
   topicsTree \<lparr>bk_clients = concat (map bk_clients [demo_broker [demo_client ''a'' [(''a/b'', demo_sub)]]]),
     bk_retained = [], bk_stored = None\<rparr>"
  by (rule cluster_tree_correct)
    (simp_all add: new_Rest_def Let_def topicsTree_def demo_broker_def demo_client_def)

end
