(* ===== verification/Float64.thy ===== *)
theory Float64
  imports Complex_Main
begin

text \<open>
  The rounding of Go's \<open>float64\<close> on rational numbers: what the program relies on, as a locale, and
  the rounding of IEEE 754 double precision, which provides it.
\<close>

text \<open>What the program needs of the machine's rounding: it is monotone, exact on small integers,
  and does not underflow at ordinary sizes.\<close>

locale rounding =
  fixes fl :: "rat \<Rightarrow> rat"
  assumes fl_mono: "x \<le> y \<Longrightarrow> fl x \<le> fl y"
    and fl_int: "\<bar>k\<bar> \<le> 2 ^ 52 \<Longrightarrow> fl (of_int k) = of_int k"
    and fl_pos: "1 / 10 ^ 9 \<le> x \<Longrightarrow> 0 < fl x"
begin

lemma fl_numeral [simp]: "fl 0 = 0" "fl 1 = 1" "fl 2 = 2" "fl 20 = 20" "fl 22 = 22" "fl 100 = 100"
  using fl_int [of 0] fl_int [of 1] fl_int [of 2] fl_int [of 20] fl_int [of 22] fl_int [of 100] by simp_all

lemma fl_le: "x \<le> of_int k \<Longrightarrow> \<bar>k\<bar> \<le> 2 ^ 52 \<Longrightarrow> fl x \<le> of_int k"
  using fl_mono fl_int by metis

lemma fl_ge: "of_int k \<le> x \<Longrightarrow> \<bar>k\<bar> \<le> 2 ^ 52 \<Longrightarrow> of_int k \<le> fl x"
  using fl_mono fl_int by metis

lemma fl_unit: "0 \<le> x \<Longrightarrow> x \<le> of_nat n \<Longrightarrow> n \<le> 2 ^ 52 \<Longrightarrow> 0 \<le> fl x \<and> fl x \<le> of_nat n"
  using fl_le [of x "int n"] fl_ge [of 0 x] by simp

end

text \<open>
  Round to nearest, ties to even, with a significand of 53 bits: the rounding of \<open>float64\<close> (the
  values here are far from its smallest and largest exponents).
\<close>

definition round_even :: "rat \<Rightarrow> int" where
  "round_even y = (let f = \<lfloor>y\<rfloor>; d = y - of_int f in
     if d < 1 / 2 then f else if d > 1 / 2 then f + 1 else if even f then f else f + 1)"

definition ulp_exp :: "rat \<Rightarrow> int" where
  "ulp_exp x = \<lfloor>log 2 (real_of_rat x)\<rfloor> - 52"

definition round_pos :: "rat \<Rightarrow> rat" where
  "round_pos x = of_int (round_even (x / 2 powi ulp_exp x)) * 2 powi ulp_exp x"

definition float64 :: "rat \<Rightarrow> rat" where
  "float64 x = (if x = 0 then 0 else if x < 0 then - round_pos (- x) else round_pos x)"

lemma round_even_mono: "x \<le> y \<Longrightarrow> round_even x \<le> round_even y"
proof -
  assume xy: "x \<le> y"
  then have f: "\<lfloor>x\<rfloor> \<le> \<lfloor>y\<rfloor>" by (rule floor_mono)
  show ?thesis
  proof (cases "\<lfloor>x\<rfloor> = \<lfloor>y\<rfloor>")
    case True
    with xy show ?thesis by (auto simp: round_even_def Let_def)
  next
    case False
    with f show ?thesis by (auto simp: round_even_def Let_def)
  qed
qed

lemma round_even_of_int [simp]: "round_even (of_int k) = k"
  by (simp add: round_even_def)

lemma of_rat_2_powi: "real_of_rat (2 powi k) = 2 powi k"
  by (simp add: power_int_def of_rat_power of_rat_divide)

lemma ulp_exp_bounds:
  assumes "0 < x"
  shows "2 powi (ulp_exp x + 52) \<le> x \<and> x < 2 powi (ulp_exp x + 53)"
proof -
  let ?r = "real_of_rat x" let ?k = "\<lfloor>log 2 ?r\<rfloor>"
  have "2 powr of_int ?k \<le> ?r" "?r < 2 powr of_int (?k + 1)"
    using floor_log_eq_powr_iff [of ?r 2 ?k] assms by simp_all
  then have "real_of_rat (2 powi ?k) \<le> ?r" "?r < real_of_rat (2 powi (?k + 1))"
    unfolding of_rat_2_powi by (simp_all add: powr_real_of_int' del: of_int_add)
  then show ?thesis by (simp add: ulp_exp_def of_rat_less_eq of_rat_less add.commute)
qed

lemma two_powi_mono: "k \<le> l \<Longrightarrow> (2::rat) powi k \<le> 2 powi l"
  by (rule power_int_increasing) auto

lemma two_powi_less: "(2::rat) powi k < 2 powi l \<Longrightarrow> k < l"
  using two_powi_mono [of l k] by linarith

lemma ulp_exp_mono: "0 < x \<Longrightarrow> x \<le> y \<Longrightarrow> ulp_exp x \<le> ulp_exp y"
  using ulp_exp_bounds [of x] ulp_exp_bounds [of y] two_powi_less [of "ulp_exp x + 52" "ulp_exp y + 53"] by linarith

lemma round_even_between: "of_int a \<le> y \<Longrightarrow> y \<le> of_int b \<Longrightarrow> a \<le> round_even y \<and> round_even y \<le> b"
  using round_even_mono [of "of_int a" y] round_even_mono [of y "of_int b"] by simp

lemma round_pos_bounds:
  assumes "0 < x"
  shows "2 powi (ulp_exp x + 52) \<le> round_pos x \<and> round_pos x \<le> 2 powi (ulp_exp x + 53)"
proof -
  let ?u = "2 powi ulp_exp x :: rat"
  have u: "0 < ?u" by simp
  have split: "2 powi (ulp_exp x + int n) = 2 ^ n * ?u" for n
    by (simp add: power_int_add mult.commute)
  have b: "2 ^ 52 * ?u \<le> x" "x < 2 ^ 53 * ?u"
    using ulp_exp_bounds [OF assms] split [of 52] split [of 53] by simp_all
  then have "of_int (2 ^ 52) \<le> x / ?u" "x / ?u \<le> of_int (2 ^ 53)" using u by (simp_all add: field_simps)
  then have r: "2 ^ 52 \<le> round_even (x / ?u) \<and> round_even (x / ?u) \<le> 2 ^ 53" by (rule round_even_between)
  then have "of_int (2 ^ 52) \<le> (of_int (round_even (x / ?u)) :: rat)"
    "of_int (round_even (x / ?u)) \<le> (of_int (2 ^ 53) :: rat)" by (simp_all only: of_int_le_iff)
  then have "2 ^ 52 * ?u \<le> of_int (round_even (x / ?u)) * ?u" "of_int (round_even (x / ?u)) * ?u \<le> 2 ^ 53 * ?u"
    using u by (simp_all only: mult_right_mono less_imp_le of_int_power of_int_numeral)
  then show ?thesis using split [of 52] split [of 53] by (simp add: round_pos_def)
qed

lemma round_pos_nonneg: "0 < x \<Longrightarrow> 0 \<le> round_pos x"
  using round_pos_bounds [of x] by (meson order_trans zero_le_power_int zero_le_numeral)

lemma round_pos_mono:
  assumes "0 < x" "x \<le> y"
  shows "round_pos x \<le> round_pos y"
proof (cases "ulp_exp x = ulp_exp y")
  case True
  have "round_even (x / 2 powi ulp_exp y) \<le> round_even (y / 2 powi ulp_exp y)"
    using assms by (intro round_even_mono divide_right_mono) simp_all
  then show ?thesis by (simp add: round_pos_def True mult_right_mono)
next
  case False
  then have "ulp_exp x + 53 \<le> ulp_exp y + 52" using ulp_exp_mono [OF assms] by linarith
  then have "(2::rat) powi (ulp_exp x + 53) \<le> 2 powi (ulp_exp y + 52)" by (rule two_powi_mono)
  then show ?thesis using round_pos_bounds [of x] round_pos_bounds [of y] assms by linarith
qed

lemma div_powi_neg:
  assumes "e \<le> 0"
  shows "(of_int k :: rat) / 2 powi e = of_int (k * 2 ^ nat (- e))"
proof -
  obtain n where "e = - int n" using assms by (metis nonpos_int_cases)
  then show ?thesis by (simp add: power_int_minus divide_inverse)
qed

lemma div_powi_cancel: "(x :: rat) / 2 powi e * 2 powi e = x"
  by simp

lemma round_pos_int:
  assumes "0 < k" "k \<le> 2 ^ 52"
  shows "round_pos (of_int k) = of_int k"
proof -
  let ?e = "ulp_exp (of_int k)"
  have "(of_int k :: rat) \<le> of_int (2 ^ 52)" using assms(2) by (simp only: of_int_le_iff)
  then have "(2::rat) powi (?e + 52) \<le> 2 powi 52" using ulp_exp_bounds [of "of_int k"] assms(1) by simp
  then have "(2::rat) powi (?e + 52) < 2 powi 53" by (rule le_less_trans) simp
  then have "?e \<le> 0" using two_powi_less by fastforce
  then have eq: "(of_int k :: rat) / 2 powi ?e = of_int (k * 2 ^ nat (- ?e))"
    by (rule div_powi_neg)
  have "(of_int k :: rat) / 2 powi ?e * 2 powi ?e = of_int k" by (rule div_powi_cancel)
  then show ?thesis unfolding round_pos_def eq round_even_of_int .
qed

interpretation float64: rounding float64
proof
  fix x y :: rat
  assume xy: "x \<le> y"
  show "float64 x \<le> float64 y"
  proof (cases "0 < x \<or> y < 0")
    case True
    then show ?thesis using xy round_pos_mono [of x y] round_pos_mono [of "- y" "- x"] by (auto simp: float64_def)
  next
    case False
    then show ?thesis using round_pos_nonneg [of "- x"] round_pos_nonneg [of y] xy by (auto simp: float64_def)
  qed
next
  fix k :: int
  assume "\<bar>k\<bar> \<le> 2 ^ 52"
  then show "float64 (of_int k) = of_int k"
    using round_pos_int [of k] round_pos_int [of "- k"] by (auto simp: float64_def)
next
  fix x :: rat
  assume "1 / 10 ^ 9 \<le> x"
  then have x: "0 < x" by (rule less_le_trans [rotated]) simp
  have "0 < (2::rat) powi (ulp_exp x + 52)" by simp
  also have "\<dots> \<le> round_pos x" using round_pos_bounds [OF x] by blast
  finally show "0 < float64 x" using x by (simp add: float64_def)
qed

end
