(* ===== verification/Topology.thy ===== *)
theory Topology
  imports Html Float64
begin

text \<open>
  The drawing of the cluster on the overview page, \<open>dashboard/handlers/topology.go\<close>, as the SVG text
  the code builds. A \<open>float64\<close> is the rational it denotes, every operation followed by the rounding
  \<open>fl\<close> of the machine; \<open>math.Cos\<close> and \<open>math.Sin\<close> are parameters, of which only the range matters.
\<close>

section \<open>Numbers\<close>

text \<open>\<open>%.1f\<close>: one decimal, the exact value of the float rounded to nearest, ties to even.\<close>

definition fmt1 :: "rat \<Rightarrow> string" where
  "fmt1 v = (let n = round_even (\<bar>v\<bar> * 10)
     in (if v < 0 then ''-'' else []) @ FormatInt (n div 10) @ ''.'' @ FormatInt (n mod 10))"

text \<open>The constant \<open>math.Pi\<close>, with the digits of the library.\<close>

definition mathPi :: rat where
  "mathPi = 314159265358979323846264338327950288419716939937510582097494459 / 10 ^ 62"

lemma fmt1_chars: "c \<in> set (fmt1 v) \<Longrightarrow> is_digit c \<or> c = CHR ''-'' \<or> c = CHR ''.''"
  by (auto simp: fmt1_def Let_def dest: FormatInt_chars split: if_splits)

lemma fmt1_unquoted [simp]: "CHR 34 \<notin> set (fmt1 v)"
  using fmt1_chars [of "CHR 34" v] by (auto simp: is_digit_def)

section \<open>The drawing\<close>

record nodeMember =
  nm_Name :: string
  nm_Addr :: string
  nm_IsLeader :: bool
  nm_IsSelf :: bool

record topo_pos =
  pt_x :: rat
  pt_y :: rat
  pt_m :: nodeMember

definition topo_angle :: "(rat \<Rightarrow> rat) \<Rightarrow> nat \<Rightarrow> nat \<Rightarrow> rat" where
  "topo_angle fl n i = fl (fl (- mathPi / 2) + fl (fl (fl (2 * mathPi) * of_nat i) / of_nat n))"

text \<open>The centre is (120, 74), the radius 52.\<close>

definition topo_points ::
  "(rat \<Rightarrow> rat) \<Rightarrow> (rat \<Rightarrow> rat) \<Rightarrow> (rat \<Rightarrow> rat) \<Rightarrow> nodeMember list \<Rightarrow> topo_pos list" where
  "topo_points fl cosf sinf members =
     (if length members = 1 then [\<lparr>pt_x = 120, pt_y = 74, pt_m = members ! 0\<rparr>]
      else map (\<lambda>i. let angle = topo_angle fl (length members) i
         in \<lparr>pt_x = fl (120 + fl (52 * cosf angle)), pt_y = fl (74 + fl (52 * sinf angle)), pt_m = members ! i\<rparr>)
         [0..<length members])"

text \<open>The two loops over the pairs \<open>i < j\<close>.\<close>

definition mesh_pairs :: "nat \<Rightarrow> (nat \<times> nat) list" where
  "mesh_pairs n = concat (map (\<lambda>i. map (Pair i) [Suc i..<n]) [0..<n])"

definition mesh_line :: "topo_pos \<Rightarrow> topo_pos \<Rightarrow> string" where
  "mesh_line p q = empty_tag ''line''
     [(''x1'', fmt1 (pt_x p)), (''y1'', fmt1 (pt_y p)), (''x2'', fmt1 (pt_x q)), (''y2'', fmt1 (pt_y q)),
      (''stroke'', ''currentColor''), (''stroke-opacity'', ''0.18''), (''stroke-width'', ''1'')]"

definition shift :: "(rat \<Rightarrow> rat) \<Rightarrow> rat \<Rightarrow> rat \<Rightarrow> rat" where
  "shift fl v d = (if d = 0 then v else fl (v + d))"

definition crown_path :: "(rat \<Rightarrow> rat) \<Rightarrow> rat \<Rightarrow> rat \<Rightarrow> string" where
  "crown_path fl x y =
     (let corner = (\<lambda>(dx, dy). fmt1 (shift fl x dx) @ '' '' @ fmt1 (shift fl y dy))
      in ''M '' @ corner (- 7, - 13)
         @ concat (map (\<lambda>d. '' L '' @ corner d) [(- 5, - 19), (- 2, - 16), (0, - 21), (2, - 16), (5, - 19), (7, - 13)])
         @ '' Z'')"

definition short_label :: "string \<Rightarrow> string" where
  "short_label name = (if length name > 16 then take 13 name @ ''...'' else name)"

definition node_svg :: "(rat \<Rightarrow> rat) \<Rightarrow> topo_pos \<Rightarrow> string" where
  "node_svg fl p =
     (let x = pt_x p; y = pt_y p;
          isLeader = nm_IsLeader (pt_m p);
          isSelf = nm_IsSelf (pt_m p);
          nodeR = 10;
          stroke = (if isSelf then 5 / 2 else 3 / 2);
          fill = (if isLeader then ''currentColor'' else ''var(--background, #fff)'')
      in (if isSelf then empty_tag ''circle'' [(''cx'', fmt1 x), (''cy'', fmt1 y), (''r'', ''16''),
            (''fill'', ''currentColor''), (''fill-opacity'', ''0.10'')] else [])
         @ empty_tag ''circle'' [(''cx'', fmt1 x), (''cy'', fmt1 y), (''r'', fmt1 nodeR), (''fill'', fill),
            (''fill-opacity'', ''1''), (''stroke'', ''currentColor''), (''stroke-width'', fmt1 stroke)]
         @ (if isLeader then empty_tag ''path'' [(''d'', crown_path fl x y), (''fill'', ''currentColor'')] else [])
         @ open_tag ''text'' [(''x'', fmt1 x), (''y'', fmt1 (fl (fl (y + nodeR) + 10))), (''text-anchor'', ''middle''),
            (''fill'', ''currentColor''), (''font-size'', ''9''), (''font-family'', ''ui-monospace, Menlo, monospace'')]
         @ EscapeString (short_label (nm_Name (pt_m p))) @ close_tag ''text''
         @ (if isSelf then open_tag ''text'' [(''x'', fmt1 x), (''y'', fmt1 (fl (fl (y + nodeR) + 20))),
              (''text-anchor'', ''middle''), (''fill'', ''currentColor''), (''fill-opacity'', ''0.55''), (''font-size'', ''8'')]
              @ ''(this node)'' @ close_tag ''text'' else []))"

text \<open>
  \<open>self\<close> and \<open>leader\<close> are parameters the code does not read: the members carry the two flags. \<open>%g\<close> of the
  constants 240 and 160 prints them without a decimal.
\<close>

definition ringTopologySVG ::
  "(rat \<Rightarrow> rat) \<Rightarrow> (rat \<Rightarrow> rat) \<Rightarrow> (rat \<Rightarrow> rat) \<Rightarrow> nodeMember list \<Rightarrow> string \<Rightarrow> string \<Rightarrow> bool \<Rightarrow> string" where
  "ringTopologySVG fl cosf sinf members self leader cluster =
     (if members = [] then open_tag ''svg'' [(''viewBox'', ''0 0 320 240'')] @ close_tag ''svg''
      else let pts = topo_points fl cosf sinf members
           in open_tag ''svg'' [(''viewBox'', ''0 0 240 160''), (''xmlns'', ''http://www.w3.org/2000/svg''),
                (''class'', ''w-full h-full''), (''aria-hidden'', ''true'')]
              @ (if cluster \<and> length pts > 1
                 then concat (map (\<lambda>(i, j). mesh_line (pts ! i) (pts ! j)) (mesh_pairs (length pts))) else [])
              @ concat (map (node_svg fl) pts)
              @ close_tag ''svg'')"

section \<open>Lemmas\<close>

lemma length_topo_points [simp]: "length (topo_points fl cosf sinf members) = length members"
  by (simp add: topo_points_def)

lemma topo_points_members [simp]: "map pt_m (topo_points fl cosf sinf members) = members"
proof (cases "length members = 1")
  case True
  then show ?thesis by (cases members) (simp_all add: topo_points_def)
next
  case False
  then have "map pt_m (topo_points fl cosf sinf members) = map ((!) members) [0..<length members]"
    by (simp add: topo_points_def Let_def comp_def del: upt_Suc)
  then show ?thesis by (simp only: map_nth)
qed

lemma crown_path_unquoted [simp]: "CHR 34 \<notin> set (crown_path fl x y)"
  by (simp add: crown_path_def Let_def)

lemma mesh_pairs_set: "set (mesh_pairs n) = {(i, j). i < j \<and> j < n}"
  by (force simp: mesh_pairs_def)

lemma mesh_pairs_distinct: "distinct (mesh_pairs n)"
proof -
  have "distinct (concat (map (\<lambda>i. map (Pair i) [Suc i..<n]) [k..<n]))" for k
  proof (induction "n - k" arbitrary: k)
    case (Suc d)
    then have k: "[k..<n] = k # [Suc k..<n]" and d: "d = n - Suc k" by (simp_all add: upt_conv_Cons)
    show ?case unfolding k using Suc.hyps(1) [OF d] by (auto simp: distinct_map inj_on_def)
  qed simp
  then show ?thesis by (simp add: mesh_pairs_def)
qed

lemma mesh_pairs_length: "length (mesh_pairs n) = n * (n - 1) div 2"
proof -
  have "2 * sum_list (map (\<lambda>i. n - Suc i) [k..<n]) = (n - k) * (n - k - 1)" for k
  proof (induction "n - k" arbitrary: k)
    case (Suc d)
    then have k: "[k..<n] = k # [Suc k..<n]" and d: "d = n - Suc k" by (simp_all add: upt_conv_Cons)
    have "2 * sum_list (map (\<lambda>i. n - Suc i) [k..<n]) = 2 * d + d * (d - 1)"
      unfolding k using Suc.hyps(1) [OF d] by (simp add: d)
    also have "\<dots> = Suc d * d" by (cases d) simp_all
    finally show ?case using Suc.hyps(2) by (metis diff_Suc_1)
  qed simp
  from this [of 0] show ?thesis by (simp add: mesh_pairs_def length_concat comp_def)
qed

section \<open>What is drawn\<close>

text \<open>The elements and the text of one node.\<close>

definition node_tags :: "nodeMember \<Rightarrow> string list" where
  "node_tags m = (if nm_IsSelf m then [''circle''] else []) @ [''circle''] @ (if nm_IsLeader m then [''path''] else [])
     @ [''text'', ''/text''] @ (if nm_IsSelf m then [''text'', ''/text''] else [])"

definition node_text :: "nodeMember \<Rightarrow> string" where
  "node_text m = short_label (nm_Name m) @ (if nm_IsSelf m then ''(this node)'' else [])"

lemma html_text_plain: "CHR ''<'' \<notin> set t \<Longrightarrow> CHR ''&'' \<notin> set t \<Longrightarrow> html_text InText (t @ s) = t @ html_text InText s"
  by (induction t) auto

lemma mesh_line_read [simp]:
  "html_text InText (mesh_line p q @ s) = html_text InText s"
  "tag_names Outside (mesh_line p q @ s) = ''line'' # tag_names Outside s"
  by (simp_all add: mesh_line_def)

lemma node_svg_text [simp]: "html_text InText (node_svg fl p @ s) = node_text (pt_m p) @ html_text InText s"
  using html_text_plain [of "''(this node)''" "close_tag ''text'' @ s"]
  by (simp add: node_svg_def node_text_def Let_def)

lemma node_svg_tags [simp]: "tag_names Outside (node_svg fl p @ s) = node_tags (pt_m p) @ tag_names Outside s"
  using tag_names_text [of "''(this node)''" "close_tag ''text'' @ s"]
  by (simp add: node_svg_def node_tags_def Let_def)

lemma mesh_read:
  "html_text InText (concat (map (\<lambda>(i, j). mesh_line (f i) (g j)) ps) @ s) = html_text InText s"
  "tag_names Outside (concat (map (\<lambda>(i, j). mesh_line (f i) (g j)) ps) @ s) =
     replicate (length ps) ''line'' @ tag_names Outside s"
  by (induction ps) auto

lemma nodes_read:
  "html_text InText (concat (map (node_svg fl) pts) @ s) = concat (map node_text (map pt_m pts)) @ html_text InText s"
  "tag_names Outside (concat (map (node_svg fl) pts) @ s) = concat (map node_tags (map pt_m pts)) @ tag_names Outside s"
  by (induction pts) auto

text \<open>
  C37. The drawing shows each node once and nothing else. Whatever the members are called, its text is
  their labels in order, character for character, with the mark of this node, and its elements are
  one line for every pair of nodes (in a cluster), then for every node its circle, a second one for
  this node, a crown for the leader, and its captions: a name cannot bring in an element.
\<close>

theorem topology_structure:
  "html_text InText (ringTopologySVG fl cosf sinf members self leader cluster) = concat (map node_text members)
   \<and> tag_names Outside (ringTopologySVG fl cosf sinf members self leader cluster) =
       ''svg'' # replicate (if cluster then length members * (length members - 1) div 2 else 0) ''line''
         @ concat (map node_tags members) @ [''/svg'']"
proof (cases "members = []")
  case True
  then show ?thesis
    using html_text_tags(3) [of "''svg''" "[]"] tag_names_tags(3) [of "''svg''" "[]"] by (simp add: ringTopologySVG_def)
next
  case False
  have e: "html_text InText (close_tag ''svg'') = []" "tag_names Outside (close_tag ''svg'') = [''/svg'']"
    using html_text_tags(3) [of "''svg''" "[]"] tag_names_tags(3) [of "''svg''" "[]"] by simp_all
  have one: "\<not> length members > 1 \<Longrightarrow> length members * (length members - 1) div 2 = 0" by simp
  show ?thesis
    using False one by (simp add: ringTopologySVG_def Let_def mesh_read nodes_read mesh_pairs_length e)
qed

text \<open>
  The drawing stays in its view box of 240 by 160, whatever the size of the cluster: every node lies
  far enough inside it for the halo (16 around it), the crown (21 above) and the captions (30 below),
  for any rounding of the machine and any cosine and sine between -1 and 1.
\<close>

theorem topology_in_view:
  assumes "rounding fl" "\<And>a. \<bar>cosf a\<bar> \<le> 1" "\<And>a. \<bar>sinf a\<bar> \<le> 1"
    and "p \<in> set (topo_points fl cosf sinf members)"
  shows "16 \<le> pt_x p \<and> pt_x p \<le> 240 - 16 \<and> 21 \<le> pt_y p \<and> pt_y p \<le> 160 - 30"
proof -
  have arm: "- 52 \<le> fl (52 * c)" "fl (52 * c) \<le> 52" if "\<bar>c\<bar> \<le> 1" for c
    using rounding.fl_ge [OF assms(1), of "- 52" "52 * c"] rounding.fl_le [OF assms(1), of "52 * c" 52] that
    by (simp_all add: abs_le_iff)
  have near: "of_int (k - 52) \<le> fl (of_int k + d) \<and> fl (of_int k + d) \<le> of_int (k + 52)"
    if "- 52 \<le> d" "d \<le> 52" "k \<in> {74, 120}" for k d
    using rounding.fl_ge [OF assms(1), of "k - 52" "of_int k + d"] rounding.fl_le [OF assms(1), of "of_int k + d" "k + 52"] that
    by auto
  from assms(4) have "p = \<lparr>pt_x = 120, pt_y = 74, pt_m = members ! 0\<rparr> \<or>
      (\<exists>a i. p = \<lparr>pt_x = fl (120 + fl (52 * cosf a)), pt_y = fl (74 + fl (52 * sinf a)), pt_m = members ! i\<rparr>)"
    by (auto simp: topo_points_def Let_def split: if_splits)
  then show ?thesis
  proof (elim disjE exE)
    fix a i
    assume "p = \<lparr>pt_x = fl (120 + fl (52 * cosf a)), pt_y = fl (74 + fl (52 * sinf a)), pt_m = members ! i\<rparr>"
    then show ?thesis
      using near [OF arm [OF assms(2)], of 120 a] near [OF arm [OF assms(3)], of 74 a] by simp
  qed simp
qed

theorem topology_in_view_witness:
  "list_all (\<lambda>p. 16 \<le> pt_x p \<and> pt_x p \<le> 240 - 16 \<and> 21 \<le> pt_y p \<and> pt_y p \<le> 160 - 30)
     (topo_points float64 (\<lambda>a. if a < 0 then 1 else - 1) (\<lambda>a. 1 / 2)
       (map (\<lambda>n. \<lparr>nm_Name = n, nm_Addr = [], nm_IsLeader = False, nm_IsSelf = False\<rparr>) [''a'', ''b'', ''c'']))"
  using topology_in_view [OF float64.rounding_axioms, of "\<lambda>a. if a < 0 then 1 else - 1" "\<lambda>a. 1 / 2"]
  by (simp add: list_all_iff)

end
