(* ===== verification/Overview.thy ===== *)
theory Overview
  imports Http Topology
begin

text \<open>
  The overview page, \<open>dashboard/handlers/overview.go\<close> and \<open>sparkline.go\<close>, and the cluster page,
  \<open>cluster.go\<close>: the rate sampler, the cards with their small charts, and the member lists.

  A \<open>float64\<close> is the rational number it denotes and every operation on one is the exact operation
  followed by the rounding \<open>fl\<close> of the machine. The counters are \<open>int64\<close>, so no infinity and no NaN
  occurs. The drawing of the topology is in \<open>Topology\<close>.
\<close>

section \<open>Decimal output\<close>

function formatInt_loop :: "int \<Rightarrow> string \<Rightarrow> string" where
  "formatInt_loop v buf =
     (if v > 0 then formatInt_loop (v div 10) (char_of (nat (48 + v mod 10)) # buf) else buf)"
  by pat_completeness auto
termination by (relation "measure (\<lambda>(v, _). nat v)") auto

declare formatInt_loop.simps [simp del]

definition formatInt :: "int \<Rightarrow> string" where
  "formatInt v =
     (if v = 0 then ''0''
      else let neg = v < 0;
               v = (if neg then wrap64 (- v) else v);
               s = formatInt_loop v []
           in if neg then CHR ''-'' # s else s)"

definition itoa :: "int \<Rightarrow> string" where
  "itoa v = formatInt v"

text \<open>The conversion \<open>int64(v)\<close> truncates.\<close>

definition trunc :: "rat \<Rightarrow> int" where
  "trunc v = (if v < 0 then - \<lfloor>- v\<rfloor> else \<lfloor>v\<rfloor>)"

definition ftoa :: "(rat \<Rightarrow> rat) \<Rightarrow> rat \<Rightarrow> string" where
  "ftoa fl v =
     (if v = fl (of_int (trunc v)) then formatInt (trunc v)
      else let whole = trunc v;
               frac = trunc (fl (fl (v - fl (of_int whole)) * 10));
               frac = (if frac < 0 then - frac else frac)
           in formatInt whole @ ''.'' @ [char_of (nat (48 + frac))])"

section \<open>The rate sampler\<close>

text \<open>The counters of the broker that a tick reads, \<open>mqtt.Server.Info\<close>.\<close>

record broker_info =
  bi_MessagesReceived :: int
  bi_MessagesSent :: int
  bi_ClientsConnected :: int
  bi_Subscriptions :: int
  bi_Retained :: int
  bi_Inflight :: int

record RateSampler =
  sm_in :: rat
  sm_out :: rat
  sm_lastIn :: int
  sm_lastOut :: int
  sm_histLen :: nat
  sm_connHist :: "int list"
  sm_subsHist :: "int list"
  sm_retHist :: "int list"
  sm_inHist :: "rat list"
  sm_outHist :: "rat list"

definition NewRateSampler :: RateSampler where
  "NewRateSampler = \<lparr>sm_in = 0, sm_out = 0, sm_lastIn = 0, sm_lastOut = 0, sm_histLen = 60,
     sm_connHist = [], sm_subsHist = [], sm_retHist = [], sm_inHist = [], sm_outHist = []\<rparr>"

definition pushInt64 :: "int list \<Rightarrow> int \<Rightarrow> nat \<Rightarrow> int list" where
  "pushInt64 buf v cap = (if length buf \<ge> cap then drop 1 buf else buf) @ [v]"

definition pushFloat64 :: "rat list \<Rightarrow> rat \<Rightarrow> nat \<Rightarrow> rat list" where
  "pushFloat64 buf v cap = (if length buf \<ge> cap then drop 1 buf else buf) @ [v]"

text \<open>One tick of \<open>run\<close>, under the write lock.\<close>

definition sampler_tick :: "(rat \<Rightarrow> rat) \<Rightarrow> broker_info \<Rightarrow> RateSampler \<Rightarrow> RateSampler" where
  "sampler_tick fl info s =
     (let ci = bi_MessagesReceived info; co = bi_MessagesSent info;
          upd = (sm_lastIn s \<noteq> 0 \<or> sm_lastOut s \<noteq> 0);
          i = (if upd then fl (of_int (wrap64 (ci - sm_lastIn s))) else sm_in s);
          ou = (if upd then fl (of_int (wrap64 (co - sm_lastOut s))) else sm_out s);
          n = sm_histLen s
      in s\<lparr>sm_in := i, sm_out := ou, sm_lastIn := ci, sm_lastOut := co,
           sm_connHist := pushInt64 (sm_connHist s) (bi_ClientsConnected info) n,
           sm_subsHist := pushInt64 (sm_subsHist s) (bi_Subscriptions info) n,
           sm_retHist := pushInt64 (sm_retHist s) (bi_Retained info) n,
           sm_inHist := pushFloat64 (sm_inHist s) i n,
           sm_outHist := pushFloat64 (sm_outHist s) ou n\<rparr>)"

text \<open>
  The goroutine \<open>run\<close>: what its \<open>select\<close> takes in each round. \<open>Stop\<close> closes the channel the goroutine
  watches; a closed channel and a tick that are both ready are taken in either order.
\<close>

datatype sampler_round = Ticked broker_info | StopSeen

fun sampler_run :: "(rat \<Rightarrow> rat) \<Rightarrow> sampler_round list \<Rightarrow> RateSampler \<Rightarrow> RateSampler" where
  "sampler_run fl [] s = s"
| "sampler_run fl (StopSeen # rs) s = s"
| "sampler_run fl (Ticked info # rs) s = sampler_run fl rs (sampler_tick fl info s)"

definition Rates :: "RateSampler \<Rightarrow> rat \<times> rat" where
  "Rates s = (sm_in s, sm_out s)"

definition int64ToFloat :: "(rat \<Rightarrow> rat) \<Rightarrow> int list \<Rightarrow> rat list" where
  "int64ToFloat fl xs = map (\<lambda>v. fl (of_int v)) xs"

definition History ::
  "(rat \<Rightarrow> rat) \<Rightarrow> RateSampler \<Rightarrow> rat list \<times> rat list \<times> rat list \<times> rat list \<times> rat list" where
  "History fl s = (int64ToFloat fl (sm_connHist s), int64ToFloat fl (sm_subsHist s),
     int64ToFloat fl (sm_retHist s), sm_inHist s, sm_outHist s)"

section \<open>The charts\<close>

text \<open>
  A chart is the list of its points; the surrounding SVG text is fixed. Coordinates are the numbers
  given to \<open>%.1f\<close>; \<open>NoChart\<close> is the empty span.
\<close>

datatype chart = NoChart | Polyline "(rat \<times> rat) list"

fun minMax_loop :: "rat list \<Rightarrow> rat option \<times> rat option \<Rightarrow> rat option \<times> rat option" where
  "minMax_loop [] acc = acc"
| "minMax_loop (v # vs) (mn, mx) =
     minMax_loop vs
       (if (case mn of None \<Rightarrow> True | Some m \<Rightarrow> v < m) then Some v else mn,
        if (case mx of None \<Rightarrow> True | Some m \<Rightarrow> v > m) then Some v else mx)"

text \<open>\<open>None\<close> is the infinity the bounds start from.\<close>

definition minMax :: "rat list \<Rightarrow> rat option \<times> rat option" where
  "minMax s = minMax_loop s (None, None)"

definition spark_x :: "(rat \<Rightarrow> rat) \<Rightarrow> nat \<Rightarrow> nat \<Rightarrow> rat" where
  "spark_x fl n i = (if n > 1 then fl (fl (of_nat i * 100) / of_nat (n - 1)) else 0)"

definition Sparkline :: "(rat \<Rightarrow> rat) \<Rightarrow> rat list \<Rightarrow> chart" where
  "Sparkline fl samples =
     (case minMax samples of
        (Some mn, Some mx) \<Rightarrow>
          let rng = fl (mx - mn) in
          if rng < fl (1 / 10 ^ 9)
          then Polyline (map (\<lambda>i. (spark_x fl (length samples) i, 22)) [0..<length samples])
          else Polyline (map (\<lambda>(i, v). (spark_x fl (length samples) i,
                 fl (22 - fl (fl (fl (v - mn) / rng) * 20)))) (zip [0..<length samples] samples))
      | _ \<Rightarrow> NoChart)"

record card_row =
  cd_Label :: string
  cd_Value :: string
  cd_Unit :: string
  cd_Spark :: "chart option" \<comment> \<open>\<open>None\<close> where the card has no chart field\<close>

definition buildCards :: "(rat \<Rightarrow> rat) \<Rightarrow> broker_info \<Rightarrow> RateSampler option \<Rightarrow> card_row list" where
  "buildCards fl info sampler =
     (let (i, ou) = (case sampler of None \<Rightarrow> (0, 0) | Some s \<Rightarrow> Rates s);
          (connHist, subsHist, retHist, inHist, outHist) =
            (case sampler of None \<Rightarrow> ([], [], [], [], []) | Some s \<Rightarrow> History fl s)
      in [\<lparr>cd_Label = ''Connections'', cd_Value = itoa (bi_ClientsConnected info), cd_Unit = [],
            cd_Spark = Some (Sparkline fl connHist)\<rparr>,
          \<lparr>cd_Label = ''Subscriptions'', cd_Value = itoa (bi_Subscriptions info), cd_Unit = [],
            cd_Spark = Some (Sparkline fl subsHist)\<rparr>,
          \<lparr>cd_Label = ''Retained'', cd_Value = itoa (bi_Retained info), cd_Unit = [],
            cd_Spark = Some (Sparkline fl retHist)\<rparr>,
          \<lparr>cd_Label = ''Inflight'', cd_Value = itoa (bi_Inflight info), cd_Unit = [], cd_Spark = None\<rparr>,
          \<lparr>cd_Label = ''Msg In/sec'', cd_Value = ftoa fl i, cd_Unit = ''msg/s'',
            cd_Spark = Some (Sparkline fl inHist)\<rparr>,
          \<lparr>cd_Label = ''Msg Out/sec'', cd_Value = ftoa fl ou, cd_Unit = ''msg/s'',
            cd_Spark = Some (Sparkline fl outHist)\<rparr>])"

definition OverviewCards ::
  "(rat \<Rightarrow> rat) \<Rightarrow> broker_info \<Rightarrow> RateSampler option \<Rightarrow> card_row list response" where
  "OverviewCards fl info sampler = Render StatusOK (buildCards fl info sampler)"

section \<open>Members\<close>

record discovery_member =
  dm_Name :: string
  dm_Addr :: string
  dm_Port :: int

record ClusterAgent =
  GetMemberList :: "discovery_member list"
  Leader :: string

record nodeStatus =
  ns_Mode :: string
  ns_Self :: string
  ns_Total :: int
  ns_Leader :: string
  ns_Members :: "nodeMember list"
  ns_Topology :: string

text \<open>\<open>None\<close> is the error of \<open>os.Hostname\<close>.\<close>

definition hostnameOrUnknown :: "string option \<Rightarrow> string" where
  "hostnameOrUnknown h = (case h of Some n \<Rightarrow> n | None \<Rightarrow> ''unknown'')"

definition buildNodeStatus ::
  "(rat \<Rightarrow> rat) \<Rightarrow> (rat \<Rightarrow> rat) \<Rightarrow> (rat \<Rightarrow> rat) \<Rightarrow> string option \<Rightarrow> bool \<Rightarrow> ClusterAgent option \<Rightarrow> nodeStatus" where
  "buildNodeStatus fl cosf sinf host cluster agent =
     (let self = hostnameOrUnknown host in
      case (cluster, agent) of
        (True, Some a) \<Rightarrow>
          let rows = map (\<lambda>m. \<lparr>nm_Name = dm_Name m, nm_Addr = dm_Addr m,
                nm_IsLeader = (dm_Name m = Leader a \<and> Leader a \<noteq> []), nm_IsSelf = (dm_Name m = self)\<rparr>) (GetMemberList a)
          in \<lparr>ns_Mode = ''Cluster'', ns_Self = self, ns_Total = int (length (GetMemberList a)), ns_Leader = Leader a,
              ns_Members = rows, ns_Topology = ringTopologySVG fl cosf sinf rows self (Leader a) True\<rparr>
      | _ \<Rightarrow>
          let rows = [\<lparr>nm_Name = self, nm_Addr = [], nm_IsLeader = False, nm_IsSelf = True\<rparr>]
          in \<lparr>ns_Mode = ''Standalone'', ns_Self = self, ns_Total = 1, ns_Leader = [], ns_Members = rows,
              ns_Topology = ringTopologySVG fl cosf sinf rows self [] False\<rparr>)"

record overviewPageData =
  ov_Cards :: "card_row list"
  ov_NodeInfo :: nodeStatus

definition OverviewGet ::
  "(rat \<Rightarrow> rat) \<Rightarrow> (rat \<Rightarrow> rat) \<Rightarrow> (rat \<Rightarrow> rat) \<Rightarrow> string option \<Rightarrow> bool \<Rightarrow> ClusterAgent option \<Rightarrow> broker_info
     \<Rightarrow> RateSampler option \<Rightarrow> overviewPageData response" where
  "OverviewGet fl cosf sinf host cluster agent info sampler =
     Render StatusOK \<lparr>ov_Cards = buildCards fl info sampler,
       ov_NodeInfo = buildNodeStatus fl cosf sinf host cluster agent\<rparr>"

record clusterMemberRow =
  cm_Name :: string
  cm_Addr :: string
  cm_Port :: int
  cm_IsLeader :: bool

record clusterPageData =
  cp_Members :: "clusterMemberRow list"
  cp_Leader :: string

definition ClusterPage :: "ClusterAgent \<Rightarrow> clusterPageData response" where
  "ClusterPage a =
     Render StatusOK \<lparr>cp_Members = sort_key cm_Name
       (map (\<lambda>m. \<lparr>cm_Name = dm_Name m, cm_Addr = dm_Addr m, cm_Port = dm_Port m,
          cm_IsLeader = (dm_Name m = Leader a \<and> Leader a \<noteq> [])\<rparr>) (GetMemberList a)),
       cp_Leader = Leader a\<rparr>"

section \<open>Decimal output is right\<close>

lemma formatInt_loop_digits:
  "formatInt_loop v buf = (if v > 0 then nat_digits (nat v) else []) @ buf"
proof (induction v buf rule: formatInt_loop.induct)
  case (1 v buf)
  show ?case
  proof (cases "v > 0")
    case True
    have d: "char_of (nat (48 + v mod 10)) = digit_char (nat v mod 10)"
      using True by (simp add: digit_char_def nat_add_distrib nat_mod_distrib)
    have "v div 10 > 0 \<longleftrightarrow> \<not> nat v < 10" using True by linarith
    with 1 True d show ?thesis
      by (simp add: formatInt_loop.simps [of v] nat_digits.simps [of "nat v"] nat_div_distrib)
  qed (simp add: formatInt_loop.simps [of v])
qed

lemma length_nat_digits: "n < 10 ^ k \<Longrightarrow> 0 < k \<Longrightarrow> length (nat_digits n) \<le> k"
proof (induction k arbitrary: n)
  case (Suc k)
  show ?case
  proof (cases "n < 10")
    case False
    then have "0 < k" using Suc.prems by (cases k) auto
    moreover have "n div 10 < 10 ^ k" using Suc.prems by (simp add: div_less_iff_less_mult mult.commute)
    ultimately show ?thesis using Suc.IH False by (simp add: nat_digits.simps [of n])
  qed (simp add: nat_digits.simps)
qed simp

lemma digit_char_0: "digit_char 0 = CHR ''0''"
  by code_simp

lemma formatInt_eq:
  assumes "is_int64 v" "v \<noteq> MinInt64"
  shows "formatInt v = FormatInt v"
proof (cases "v < 0")
  case True
  then have "is_int64 (- v)" using assms by (simp add: is_int64_def)
  with True show ?thesis by (simp add: formatInt_def FormatInt_def formatInt_loop_digits)
qed (simp add: formatInt_def FormatInt_def formatInt_loop_digits nat_digits.simps [of 0] digit_char_0)

lemma trunc_of_int [simp]: "trunc (of_int k) = k"
  by (simp add: trunc_def flip: of_int_minus)

section \<open>The histories\<close>

lemma pushInt64_window: "pushInt64 (drop (length xs - 60) xs) v 60 = drop (length (xs @ [v]) - 60) (xs @ [v])"
proof (cases "length xs \<ge> 60")
  case True
  then show ?thesis by (simp add: pushInt64_def Suc_diff_le [of 60, symmetric] del: Suc_diff_le)
qed (simp add: pushInt64_def)

text \<open>The readings before and after the last tick.\<close>

definition samples :: "(rat \<Rightarrow> rat) \<Rightarrow> broker_info list \<Rightarrow> RateSampler" where
  "samples fl infos = fold (sampler_tick fl) infos NewRateSampler"

lemma sampler_run_samples:
  "sampler_run fl rs NewRateSampler = samples fl [i. Ticked i \<leftarrow> takeWhile (\<lambda>r. r \<noteq> StopSeen) rs]"
proof -
  have "sampler_run fl rs s = fold (sampler_tick fl) [i. Ticked i \<leftarrow> takeWhile (\<lambda>r. r \<noteq> StopSeen) rs] s" for s
    by (induction fl rs s rule: sampler_run.induct) simp_all
  then show ?thesis by (simp add: samples_def)
qed

lemma samples_snoc: "samples fl (infos @ [i]) = sampler_tick fl i (samples fl infos)"
  by (simp add: samples_def)

lemma samples_hist:
  "sm_histLen (samples fl infos) = 60
   \<and> sm_connHist (samples fl infos) = drop (length infos - 60) (map bi_ClientsConnected infos)
   \<and> sm_subsHist (samples fl infos) = drop (length infos - 60) (map bi_Subscriptions infos)
   \<and> sm_retHist (samples fl infos) = drop (length infos - 60) (map bi_Retained infos)"
proof (induction infos rule: rev_induct)
  case Nil
  show ?case by (simp add: samples_def NewRateSampler_def)
next
  case (snoc i infos)
  then show ?case
    using pushInt64_window [of "map bi_ClientsConnected infos"] pushInt64_window [of "map bi_Subscriptions infos"]
      pushInt64_window [of "map bi_Retained infos"]
    by (simp add: samples_snoc sampler_tick_def Let_def)
qed

lemma samples_rate:
  "sm_in (samples fl (infos @ [a, b])) =
     (if bi_MessagesReceived a \<noteq> 0 \<or> bi_MessagesSent a \<noteq> 0
      then fl (of_int (wrap64 (bi_MessagesReceived b - bi_MessagesReceived a)))
      else sm_in (samples fl (infos @ [a])))"
proof -
  have "samples fl (infos @ [a, b]) = sampler_tick fl b (sampler_tick fl a (samples fl infos))"
    by (simp add: samples_def)
  then show ?thesis by (simp add: samples_snoc sampler_tick_def Let_def)
qed

section \<open>The charts stay in their box\<close>

context rounding
begin

lemma spark_y:
  assumes "0 \<le> a" "a \<le> rng" "0 < rng"
  shows "2 \<le> fl (22 - fl (fl (a / rng) * 20)) \<and> fl (22 - fl (fl (a / rng) * 20)) \<le> 22"
proof -
  have "0 \<le> fl (a / rng) \<and> fl (a / rng) \<le> 1" using fl_unit [of "a / rng" 1] assms by simp
  then have q: "0 \<le> fl (fl (a / rng) * 20) \<and> fl (fl (a / rng) * 20) \<le> 20"
    using fl_unit [of "fl (a / rng) * 20" 20] by simp
  then have "2 \<le> 22 - fl (fl (a / rng) * 20)" "22 - fl (fl (a / rng) * 20) \<le> 22" by linarith+
  then show ?thesis using fl_ge [of 2] fl_le [of _ 22] by fastforce
qed

lemma spark_x_bounds:
  assumes "i < n" "n \<le> 2 ^ 40"
  shows "0 \<le> spark_x fl n i \<and> spark_x fl n i \<le> 100"
proof (cases "n > 1")
  case True
  have "i * 100 \<le> 2 ^ 52" using assms by simp
  then have e: "fl (of_nat i * 100) = of_nat i * 100" using fl_int [of "int i * 100"] by simp
  have "of_nat i \<le> (of_nat (n - 1) :: rat)" using assms(1) by (intro of_nat_mono) linarith
  then have "of_nat i * 100 / of_nat (n - 1) \<le> (100 :: rat)" using True by (simp add: divide_le_eq)
  then show ?thesis using fl_unit [of "of_nat i * 100 / of_nat (n - 1)" 100] True by (simp add: spark_x_def e)
qed (simp add: spark_x_def)

end

lemma minMax_loop_some:
  "fst acc \<noteq> None \<Longrightarrow> snd acc \<noteq> None \<Longrightarrow> \<exists>mn mx. minMax_loop vs acc = (Some mn, Some mx)
    \<and> mn \<le> the (fst acc) \<and> the (snd acc) \<le> mx \<and> (\<forall>v \<in> set vs. mn \<le> v \<and> v \<le> mx)"
proof (induction vs arbitrary: acc)
  case (Cons v vs)
  obtain a b where acc: "acc = (Some a, Some b)" using Cons.prems by (cases acc) auto
  from Cons.IH [of "(if v < a then Some v else Some a, if v > b then Some v else Some b)"]
  show ?case unfolding acc by (auto split: if_splits)
qed auto

lemma minMax_bounds:
  assumes "vs \<noteq> []"
  shows "\<exists>mn mx. minMax vs = (Some mn, Some mx) \<and> (\<forall>v \<in> set vs. mn \<le> v \<and> v \<le> mx)"
proof -
  obtain v ws where vs: "vs = v # ws" using assms by (cases vs) auto
  from minMax_loop_some [of "(Some v, Some v)" ws] show ?thesis unfolding vs minMax_def by auto
qed

section \<open>Properties\<close>

text \<open>
  The hand-written decimal conversion equals \<open>strconv.FormatInt\<close> on every \<open>int64\<close> but the
  smallest, for which negation overflows and a lone minus sign is printed; its result never
  exceeds 20 bytes, so the 24-byte buffer suffices.
\<close>

theorem formatInt_equiv:
  assumes "is_int64 v"
  shows "formatInt v = (if v = MinInt64 then ''-'' else FormatInt v) \<and> length (formatInt v) \<le> 20"
proof (cases "v = MinInt64")
  case True
  then show ?thesis by (simp add: formatInt_def formatInt_loop_digits wrap64_def)
next
  case False
  have "\<bar>v\<bar> < 10 ^ 19" using assms by (auto simp: is_int64_def)
  then have "nat \<bar>v\<bar> < 10 ^ 19" by (simp add: nat_less_iff)
  then have "length (nat_digits (nat \<bar>v\<bar>)) \<le> 19" by (rule length_nat_digits) simp
  with False show ?thesis
    using formatInt_eq [OF assms False] by (auto simp: FormatInt_def abs_if split: if_splits)
qed

theorem formatInt_equiv_witness:
  "formatInt (- 120) = FormatInt (- 120) \<and> formatInt MinInt64 = ''-''"
  using formatInt_equiv [of "- 120"] formatInt_equiv [of MinInt64] by (simp add: is_int64_def)

text \<open>
  After any sequence of ticks the sampler's histories are the last sixty readings, oldest
  first, and the rate it reports is the difference of the last two readings of the counter, except
  where both counters stood at zero at the earlier one: there the previous rate is kept, so the
  first messages of an idle broker are not counted.
\<close>

theorem sampler_window:
  "sm_connHist (samples fl infos) = drop (length infos - 60) (map bi_ClientsConnected infos)
   \<and> sm_subsHist (samples fl infos) = drop (length infos - 60) (map bi_Subscriptions infos)
   \<and> sm_retHist (samples fl infos) = drop (length infos - 60) (map bi_Retained infos)
   \<and> sm_in (samples fl (infos @ [a, b])) =
       (if bi_MessagesReceived a \<noteq> 0 \<or> bi_MessagesSent a \<noteq> 0
        then fl (of_int (wrap64 (bi_MessagesReceived b - bi_MessagesReceived a)))
        else sm_in (samples fl (infos @ [a])))"
  using samples_hist [of fl infos] samples_rate [of fl infos a b] by simp

text \<open>
  A chart has one point per sample, and every point lies in the box it is drawn in, between 0
  and 100 across and between 2 and 22 down, whatever the samples and the rounding of the machine.
\<close>

theorem sparkline_in_box:
  assumes "rounding fl" "vs \<noteq> []" "length vs \<le> 2 ^ 40"
  shows "\<exists>pts. Sparkline fl vs = Polyline pts \<and> length pts = length vs
    \<and> (\<forall>(x, y) \<in> set pts. 0 \<le> x \<and> x \<le> 100 \<and> 2 \<le> y \<and> y \<le> 22)"
proof -
  obtain mn mx where mm: "minMax vs = (Some mn, Some mx)" and b: "\<forall>v \<in> set vs. mn \<le> v \<and> v \<le> mx"
    using minMax_bounds [OF assms(2)] by blast
  have x: "0 \<le> spark_x fl (length vs) i \<and> spark_x fl (length vs) i \<le> 100" if "i < length vs" for i
    using rounding.spark_x_bounds [OF assms(1) that assms(3)] .
  show ?thesis
  proof (cases "fl (mx - mn) < fl (1 / 10 ^ 9)")
    case True
    then show ?thesis using x by (auto simp: Sparkline_def mm Let_def)
  next
    case False
    have "0 < fl (1 / 10 ^ 9)" using rounding.fl_pos [OF assms(1)] by blast
    then have rng: "0 < fl (mx - mn)" using False by linarith
    have y: "2 \<le> fl (22 - fl (fl (fl (v - mn) / fl (mx - mn)) * 20))
        \<and> fl (22 - fl (fl (fl (v - mn) / fl (mx - mn)) * 20)) \<le> 22" if "v \<in> set vs" for v
    proof (rule rounding.spark_y [OF assms(1) _ _ rng])
      show "0 \<le> fl (v - mn)" using rounding.fl_ge [OF assms(1), of 0 "v - mn"] b that by simp
      show "fl (v - mn) \<le> fl (mx - mn)" using rounding.fl_mono [OF assms(1)] b that by simp
    qed
    show ?thesis using False x y
      by (auto simp: Sparkline_def mm Let_def dest: set_zip_leftD set_zip_rightD)
  qed
qed

theorem sparkline_in_box_witness:
  "\<exists>pts. Sparkline float64 [0, 3, 7] = Polyline pts \<and> length pts = 3
    \<and> list_all (\<lambda>(x, y). 0 \<le> x \<and> x \<le> 100 \<and> 2 \<le> y \<and> y \<le> 22) pts"
proof -
  have l: "length [0, 3, 7 :: rat] = 3" by simp
  show ?thesis using sparkline_in_box [OF float64.rounding_axioms, of "[0, 3, 7]"] unfolding l by (simp add: list_all_iff)
qed

end
