(* ===== verification/BrokerPages.thy ===== *)
theory BrokerPages
  imports RestApi Url Middleware Overview
begin

text \<open>
  The dashboard pages about the broker: \<open>dashboard/handlers/clients.go\<close>, \<open>client_detail.go\<close>,
  \<open>subscriptions.go\<close>, \<open>topics.go\<close>, \<open>retained.go\<close>, \<open>sessions.go\<close>, \<open>blacklist.go\<close> and \<open>tools.go\<close>. The broker
  is the record of the REST endpoints. Page data is the part that depends on the request and on the
  broker; a page is \<open>None\<close> when its handler panics. What a handler makes the broker do is the list of
  calls it issues; the blacklist is a slice the handlers write themselves and is passed explicitly.
\<close>

text \<open>The opening of every handler that changes something.\<close>

definition not_admin :: "ctx \<Rightarrow> bool" where
  "not_admin c \<longleftrightarrow> Role (UserFromContext c) \<noteq> RoleAdmin"

section \<open>Blacklist\<close>

datatype page_call =
    BrokerCall broker_call
  | DisconnectNotAuthorized string
  | PublishCall string bytes bool nat

record blacklistPageData =
  bp_User :: User
  bp_Items :: "string list"
  bp_Readonly :: bool

text \<open>A copy of the slice.\<close>

definition snapshotBlacklist :: "string list \<Rightarrow> string list" where
  "snapshotBlacklist bl = bl"

definition BlacklistGet :: "ctx \<Rightarrow> string list \<Rightarrow> blacklistPageData response" where
  "BlacklistGet c bl =
     (let u = UserFromContext c in
      Render StatusOK \<lparr>bp_User = u, bp_Items = snapshotBlacklist bl, bp_Readonly = (Role u \<noteq> RoleAdmin)\<rparr>)"

definition BlacklistAdd ::
  "ctx \<Rightarrow> form_values \<Rightarrow> broker \<Rightarrow> string list \<Rightarrow> unit response \<times> page_call list \<times> string list" where
  "BlacklistAdd c form b bl =
     (if not_admin c then (HttpError StatusForbidden ''forbidden'', [], bl)
      else let cid = TrimSpace (form ''client_id'') in
        if cid = [] then (HttpError StatusBadRequest ''client_id required'', [], bl)
        else let bl' = (if cid \<notin> set bl then bl @ [cid] else bl);
                 calls = (if map_of (bk_clients b) cid \<noteq> None then [DisconnectNotAuthorized cid] else [])
             in (Redirect StatusFound ''/dashboard/blacklist'', calls, bl'))"

definition BlacklistRemove :: "ctx \<Rightarrow> string \<Rightarrow> string list \<Rightarrow> unit response \<times> string list" where
  "BlacklistRemove c cid bl =
     (if not_admin c then (HttpError StatusForbidden ''forbidden'', bl)
      else if cid = [] then (HttpError StatusBadRequest ''id required'', bl)
      else (Redirect StatusFound ''/dashboard/blacklist'', filter (\<lambda>s. s \<noteq> cid) bl))"

section \<open>Tools\<close>

record publishForm =
  pf_Topic :: string
  pf_Payload :: string
  pf_QoS :: int
  pf_Retain :: bool

definition empty_form :: publishForm where
  "empty_form = \<lparr>pf_Topic = [], pf_Payload = [], pf_QoS = 0, pf_Retain = False\<rparr>"

text \<open>\<open>tp_Error\<close> is the message and, where the source appends one, the broker's error.\<close>

record toolsPageData =
  tp_Flash :: string
  tp_Error :: "string \<times> string option"
  tp_Form :: publishForm
  tp_Readonly :: bool

definition ToolsGet :: "ctx \<Rightarrow> toolsPageData response" where
  "ToolsGet c = Render StatusOK \<lparr>tp_Flash = [], tp_Error = ([], None), tp_Form = empty_form,
     tp_Readonly = (Role (UserFromContext c) \<noteq> RoleAdmin)\<rparr>"

definition renderToolsError :: "ctx \<Rightarrow> publishForm \<Rightarrow> string \<times> string option \<Rightarrow> toolsPageData response" where
  "renderToolsError c form msg = Render StatusBadRequest \<lparr>tp_Flash = [], tp_Error = msg, tp_Form = form,
     tp_Readonly = (Role (UserFromContext c) \<noteq> RoleAdmin)\<rparr>"

text \<open>\<open>publish\<close> is the error \<open>Server.Publish\<close> returns, if any.\<close>

definition ToolsPublish ::
  "(string \<Rightarrow> bytes \<Rightarrow> bool \<Rightarrow> nat \<Rightarrow> string option) \<Rightarrow> ctx \<Rightarrow> form_values
     \<Rightarrow> toolsPageData response \<times> page_call list" where
  "ToolsPublish publish c f =
     (if not_admin c then (HttpError StatusForbidden ''forbidden'', [])
      else let form = \<lparr>pf_Topic = TrimSpace (f ''topic''), pf_Payload = f ''payload'', pf_QoS = 0,
                 pf_Retain = (f ''retain'' \<noteq> [])\<rparr>
           in (case Atoi (f ''qos'') of (qos, err) \<Rightarrow>
                 if err \<noteq> None \<or> qos < 0 \<or> qos > 2
                 then (renderToolsError c form (''QoS must be 0, 1, or 2.'', None), [])
                 else let form = form\<lparr>pf_QoS := qos\<rparr> in
                   if pf_Topic form = [] then (renderToolsError c form (''Topic is required.'', None), [])
                   else (case publish (pf_Topic form) (pf_Payload form) (pf_Retain form) (nat qos) of
                           Some e \<Rightarrow> (renderToolsError c form (''Publish failed: '', Some e),
                             [PublishCall (pf_Topic form) (pf_Payload form) (pf_Retain form) (nat qos)])
                         | None \<Rightarrow> (Render StatusOK \<lparr>tp_Flash = ''Published to '' @ pf_Topic form @ ''.'',
                             tp_Error = ([], None), tp_Form = empty_form, tp_Readonly = False\<rparr>,
                             [PublishCall (pf_Topic form) (pf_Payload form) (pf_Retain form) (nat qos)]))))"

section \<open>Clients\<close>

record clientRow =
  cr_ClientID :: string
  cr_Username :: string
  cr_Remote :: string
  cr_Keepalive :: nat
  cr_Subs :: int
  cr_Pending :: int

record clientsPageData =
  kp_Q :: string
  kp_Page :: "clientRow page_result"
  kp_TotalPages :: int
  kp_PrevQuery :: string
  kp_NextQuery :: string

definition pageQuery :: "Values \<Rightarrow> int \<Rightarrow> string" where
  "pageQuery q page = Encode (filter (\<lambda>(k, _). k \<noteq> ''page'') q @ [(''page'', itoa page)])"

definition clientRow_of :: "client \<Rightarrow> clientRow" where
  "clientRow_of cl = \<lparr>cr_ClientID = cl_ID cl, cr_Username = cl_Username cl, cr_Remote = cl_Remote cl,
     cr_Keepalive = cl_Keepalive cl, cr_Subs = int (length (cl_Subscriptions cl)),
     cr_Pending = int (cl_Inflight cl)\<rparr>"

text \<open>Division and remainder of non-negative numbers; the size is at least one.\<close>

definition total_pages :: "int \<Rightarrow> int \<Rightarrow> int" where
  "total_pages tot sz =
     (let n = tot div sz; n = (if tot mod sz > 0 then n + 1 else n) in if n < 1 then 1 else n)"

definition ClientsList ::
  "(string \<Rightarrow> string) \<Rightarrow> broker \<Rightarrow> Values \<Rightarrow> clientsPageData response option" where
  "ClientsList uni b vals =
     (let q = ToLower uni (Get vals ''q''); params = ParsePage (Get vals);
          all = map (clientRow_of \<circ> snd) (filter (\<lambda>(_, cl). matches uni q (cl_ID cl)) (bk_clients b))
      in map_option (\<lambda>page. Render StatusOK \<lparr>kp_Q = Get vals ''q'', kp_Page = page,
             kp_TotalPages = total_pages (pr_Total page) (pr_Size page),
             kp_PrevQuery = pageQuery vals (wrap64 (Page params - 1)),
             kp_NextQuery = pageQuery vals (wrap64 (Page params + 1))\<rparr>)
           (page_of (sort_key cr_ClientID all) params))"

section \<open>One client\<close>

record subscriptionRow =
  sw_Topic :: string
  sw_TopicEncoded :: string
  sw_QoS :: nat

record clientInfoSection =
  ci_Username :: string
  ci_Remote :: string
  ci_Listener :: string
  ci_ProtocolVersion :: nat
  ci_Keepalive :: nat
  ci_Inflight :: int
  ci_Clean :: bool

record clientDetailPageData =
  dp_ClientID :: string
  dp_Tab :: string
  dp_SubCount :: int
  dp_Info :: clientInfoSection
  dp_Subs :: "subscriptionRow list"
  dp_Readonly :: bool

definition ClientDetail :: "ctx \<Rightarrow> broker \<Rightarrow> string \<Rightarrow> form_values \<Rightarrow> clientDetailPageData response" where
  "ClientDetail c b cid query =
     (if cid = [] then HttpError StatusBadRequest ''client id required''
      else let tab = (if query ''tab'' = [] then ''info'' else query ''tab'') in
        case map_of (bk_clients b) cid of
          None \<Rightarrow> NotFound
        | Some cl \<Rightarrow> Render StatusOK \<lparr>dp_ClientID = cid, dp_Tab = tab,
            dp_SubCount = int (length (cl_Subscriptions cl)),
            dp_Info = \<lparr>ci_Username = cl_Username cl, ci_Remote = cl_Remote cl, ci_Listener = cl_Listener cl,
              ci_ProtocolVersion = cl_ProtocolVersion cl, ci_Keepalive = cl_Keepalive cl,
              ci_Inflight = int (cl_Inflight cl), ci_Clean = cl_Clean cl\<rparr>,
            dp_Subs = sort_key sw_Topic (map (\<lambda>(flt, sub). \<lparr>sw_Topic = flt,
              sw_TopicEncoded = PathEscape flt, sw_QoS = sub_Qos sub\<rparr>) (cl_Subscriptions cl)),
            dp_Readonly = (Role (UserFromContext c) \<noteq> RoleAdmin)\<rparr>)"

text \<open>\<open>cid\<close> and \<open>raw\<close> are the path values, which the router has unescaped once.\<close>

definition ClientUnsubscribe ::
  "ctx \<Rightarrow> broker \<Rightarrow> string \<Rightarrow> string \<Rightarrow> unit response \<times> page_call list" where
  "ClientUnsubscribe c b cid raw =
     (if not_admin c then (HttpError StatusForbidden ''forbidden'', [])
      else case PathUnescape raw of
        None \<Rightarrow> (HttpError StatusBadRequest ''missing or malformed id/topic'', [])
      | Some topic \<Rightarrow>
          if topic = [] \<or> cid = [] then (HttpError StatusBadRequest ''missing or malformed id/topic'', [])
          else case map_of (bk_clients b) cid of
            None \<Rightarrow> (NotFound, [])
          | Some cl \<Rightarrow>
              if map_of (cl_Subscriptions cl) topic = None then (NotFound, [])
              else (Redirect StatusFound (''/dashboard/clients/'' @ cid @ ''?tab=subs''),
                    [BrokerCall (TopicsUnsubscribe topic cid), BrokerCall (SubscriptionsDelete cid topic)]))"

section \<open>Subscriptions and topics\<close>

record subRow =
  sr_ClientID :: string
  sr_Topic :: string
  sr_QoS :: nat
  sr_NoLocal :: bool
  sr_RetainAsPublished :: bool

record subPageData =
  sp_Topic :: string
  sp_ClientID :: string
  sp_Page :: "subRow page_result"

definition subRow_of :: "client \<Rightarrow> string \<times> subscription \<Rightarrow> subRow" where
  "subRow_of cl = (\<lambda>(flt, sub). \<lparr>sr_ClientID = cl_ID cl, sr_Topic = flt, sr_QoS = sub_Qos sub,
     sr_NoLocal = sub_NoLocal sub, sr_RetainAsPublished = sub_RetainAsPublished sub\<rparr>)"

definition SubscriptionsList ::
  "(string \<Rightarrow> string) \<Rightarrow> broker \<Rightarrow> form_values \<Rightarrow> subPageData response option" where
  "SubscriptionsList uni b query =
     (let topicFilter = ToLower uni (query ''topic''); clientFilter = ToLower uni (query ''clientid'');
          all = concat (map (\<lambda>(_, cl).
            if \<not> matches uni clientFilter (cl_ID cl) then []
            else map (subRow_of cl) (filter (\<lambda>(flt, _). matches uni topicFilter flt) (cl_Subscriptions cl)))
            (bk_clients b))
      in map_option (\<lambda>page. Render StatusOK \<lparr>sp_Topic = query ''topic'', sp_ClientID = query ''clientid'', sp_Page = page\<rparr>)
           (page_of (sort_key (\<lambda>r. (sr_ClientID r, sr_Topic r)) all) (ParsePage query)))"

text \<open>
  \<open>topicTreeNode\<close> has the fields of the REST interface's \<open>topicNode\<close>, and \<open>insertTopicTree\<close> and
  \<open>sortTopicTree\<close> are copies of its functions.
\<close>

record topicsPageData =
  tt_Root :: topicNode
  tt_UniqueFilters :: int

definition insertTopicTree :: "topicNode \<Rightarrow> string \<Rightarrow> topicNode" where
  "insertTopicTree n flt = insert_segs (Split (CHR ''/'') flt) n"

definition TopicsTree :: "broker \<Rightarrow> topicsPageData response" where
  "TopicsTree b =
     (let filters = concat (map (\<lambda>(_, cl). map fst (cl_Subscriptions cl)) (bk_clients b)) in
      Render StatusOK \<lparr>tt_Root = sortTopicTree (fold (\<lambda>f t. insertTopicTree t f) filters empty_root),
        tt_UniqueFilters = int (length (remdups filters))\<rparr>)"

section \<open>Retained messages\<close>

text \<open>
  \<open>hex.Dump\<close>: lines of sixteen bytes with their offset, in hexadecimal and as characters.
\<close>

definition lowerhex :: "nat \<Rightarrow> char" where
  "lowerhex n = (if n < 10 then char_of (48 + n) else char_of (87 + n))"

definition hex2 :: "char \<Rightarrow> string" where
  "hex2 c = [lowerhex (of_char c div 16), lowerhex (of_char c mod 16)]"

definition hex8 :: "nat \<Rightarrow> string" where
  "hex8 n = concat (map (\<lambda>i. hex2 (char_of (n div 256 ^ i mod 256))) [3, 2, 1, 0])"

definition toChar :: "char \<Rightarrow> char" where
  "toChar c = (if (of_char c :: nat) < 32 \<or> (of_char c :: nat) > 126 then CHR ''.'' else c)"

definition dump_cell :: "nat \<Rightarrow> string \<Rightarrow> string" where
  "dump_cell i cell = cell @ (if i = 7 then ''  '' else if i = 15 then ''  |'' else '' '')"

definition dump_line :: "nat \<Rightarrow> bytes \<Rightarrow> string" where
  "dump_line off bs = hex8 off @ ''  ''
     @ concat (map (\<lambda>i. dump_cell i (if i < length bs then hex2 (bs ! i) else ''  '')) [0..<16])
     @ map toChar bs @ ''|'' @ [CHR 0x0A]"

function hexDump :: "nat \<Rightarrow> bytes \<Rightarrow> string" where
  "hexDump off bs = (if bs = [] then [] else dump_line off (take 16 bs) @ hexDump (off + 16) (drop 16 bs))"
  by pat_completeness auto
termination by (relation "measure (\<lambda>(_, bs). length bs)") auto

declare hexDump.simps [simp del]

definition retainedDashboardPayloadCap :: nat where
  "retainedDashboardPayloadCap = 4096"

record retainedRow =
  rr_Topic :: string
  rr_TopicEncoded :: string
  rr_QoS :: nat
  rr_Size :: int
  rr_StoredAt :: int
  rr_PayloadHex :: string

record retainedPageData =
  rp_Topic :: string
  rp_IncludeSys :: bool
  rp_Page :: "retainedRow page_result"
  rp_Readonly :: bool

definition retainedRow_of :: "string \<times> packet \<Rightarrow> retainedRow" where
  "retainedRow_of = (\<lambda>(topic, pk).
     let payload = (if length (pk_Payload pk) > retainedDashboardPayloadCap
                    then take retainedDashboardPayloadCap (pk_Payload pk) else pk_Payload pk)
     in \<lparr>rr_Topic = topic, rr_TopicEncoded = PathEscape topic, rr_QoS = pk_Qos pk,
         rr_Size = int (length (pk_Payload pk)), rr_StoredAt = pk_Created pk,
         rr_PayloadHex = hexDump 0 payload\<rparr>)"

definition RetainedList ::
  "(string \<Rightarrow> string) \<Rightarrow> ctx \<Rightarrow> broker \<Rightarrow> form_values \<Rightarrow> retainedPageData response option" where
  "RetainedList uni c b query =
     (let topicFilter = ToLower uni (query ''topic''); includeSys = (query ''include_sys'' = ''1'');
          all = map retainedRow_of (filter (\<lambda>(topic, _).
            (includeSys \<or> \<not> HasPrefix topic ''$SYS/'') \<and> matches uni topicFilter topic) (bk_retained b))
      in map_option (\<lambda>page. Render StatusOK \<lparr>rp_Topic = query ''topic'', rp_IncludeSys = includeSys,
             rp_Page = page, rp_Readonly = (Role (UserFromContext c) \<noteq> RoleAdmin)\<rparr>)
           (page_of (sort_key rr_Topic all) (ParsePage query)))"

definition RetainedClear :: "ctx \<Rightarrow> broker \<Rightarrow> string \<Rightarrow> unit response \<times> page_call list" where
  "RetainedClear c b raw =
     (if not_admin c then (HttpError StatusForbidden ''forbidden'', [])
      else case PathUnescape raw of
        None \<Rightarrow> (HttpError StatusBadRequest ''topic required'', [])
      | Some topic \<Rightarrow>
          if topic = [] then (HttpError StatusBadRequest ''topic required'', [])
          else if map_of (bk_retained b) topic = None then (NotFound, [])
          else (Redirect StatusFound ''/dashboard/retained'', [BrokerCall (RetainedDelete topic)]))"

section \<open>Sessions\<close>

record sessionRowDash =
  sd_ClientID :: string
  sd_Online :: bool
  sd_Remote :: string
  sd_Subs :: int
  sd_Inflight :: int

record sessionsPageData =
  sg_Online :: string
  sg_Page :: "sessionRowDash page_result"
  sg_Readonly :: bool

definition sessionRow_of :: "client \<Rightarrow> sessionRowDash" where
  "sessionRow_of cl = \<lparr>sd_ClientID = cl_ID cl, sd_Online = True, sd_Remote = cl_Remote cl,
     sd_Subs = int (length (cl_Subscriptions cl)), sd_Inflight = int (cl_Inflight cl)\<rparr>"

definition SessionsList :: "ctx \<Rightarrow> broker \<Rightarrow> form_values \<Rightarrow> sessionsPageData response option" where
  "SessionsList c b query =
     (let onlineParam = query ''online'';
          all = (if onlineParam \<noteq> ''false'' then map (sessionRow_of \<circ> snd) (bk_clients b) else [])
      in map_option (\<lambda>page. Render StatusOK \<lparr>sg_Online = onlineParam, sg_Page = page,
             sg_Readonly = (Role (UserFromContext c) \<noteq> RoleAdmin)\<rparr>)
           (page_of (sort_key sd_ClientID all) (ParsePage query)))"

definition SessionsClear :: "ctx \<Rightarrow> broker \<Rightarrow> string \<Rightarrow> unit response \<times> page_call list" where
  "SessionsClear c b cid =
     (if not_admin c then (HttpError StatusForbidden ''forbidden'', [])
      else if cid = [] then (HttpError StatusBadRequest ''id required'', [])
      else if map_of (bk_clients b) cid = None then (NotFound, [])
      else (Redirect StatusFound ''/dashboard/sessions'', [BrokerCall (DisconnectClient cid)]))"

section \<open>The lists are those of the REST interface\<close>

definition map_page :: "('a \<Rightarrow> 'b) \<Rightarrow> 'a page_result \<Rightarrow> 'b page_result" where
  "map_page f p = \<lparr>pr_Page = pr_Page p, pr_Size = pr_Size p, pr_Total = pr_Total p, pr_Items = map f (pr_Items p)\<rparr>"

lemma ApplyPagination_map: "ApplyPagination (map f xs) p = map_option (map f) (ApplyPagination xs p)"
  by (simp add: ApplyPagination_def slice_def Let_def take_map drop_map)

lemma page_of_map: "page_of (map f xs) p = map_option (map_page f) (page_of xs p)"
  by (simp add: page_of_def ApplyPagination_map option.map_comp o_def map_page_def)

lemma sort_key_map: "sort_key k (map f xs) = map f (sort_key (k \<circ> f) xs)"
proof (induction xs)
  case (Cons x xs)
  have "insort_key k (f x) (map f ys) = map f (insort_key (k \<circ> f) x ys)" for ys by (induction ys) simp_all
  with Cons show ?case by (simp add: o_def)
qed simp

lemma page_of_sorted_map:
  assumes "k \<circ> f = k'"
  shows "page_of (sort_key k (map f xs)) p = map_option (map_page f) (page_of (sort_key k' xs) p)"
  using assms by (simp add: sort_key_map page_of_map)

definition client_row :: "clientSummary \<Rightarrow> clientRow" where
  "client_row s = \<lparr>cr_ClientID = cs_ClientID s, cr_Username = cs_Username s, cr_Remote = cs_Remote s,
     cr_Keepalive = cs_Keepalive s, cr_Subs = cs_Subs s, cr_Pending = cs_Pending s\<rparr>"

definition sub_row :: "subscriptionSummary \<Rightarrow> subRow" where
  "sub_row s = \<lparr>sr_ClientID = ss_ClientID s, sr_Topic = ss_Topic s, sr_QoS = ss_QoS s,
     sr_NoLocal = ss_NoLocal s, sr_RetainAsPublished = ss_RetainAsPublished s\<rparr>"

fun body :: "'p response \<Rightarrow> 'p option" where
  "body (Render st p) = Some p"
| "body _ = None"

lemma clientRow_of_summary: "clientRow_of = client_row \<circ> clientSummary_of"
  by (simp add: fun_eq_iff clientRow_of_def client_row_def clientSummary_of_def)

lemma ClientsList_rest:
  "map_option (map_option kp_Page \<circ> body) (ClientsList uni b vals)
   = map_option (map_option (map_page client_row) \<circ> body) (listClients uni b (Get vals))"
proof -
  have k: "cr_ClientID \<circ> client_row = cs_ClientID" by (simp add: fun_eq_iff client_row_def)
  have r: "map (clientRow_of \<circ> snd) xs = map client_row (map (clientSummary_of \<circ> snd) xs)" for xs :: "(string \<times> client) list"
    by (simp add: clientRow_of_summary)
  show ?thesis
    unfolding ClientsList_def listClients_def client_rows_def ok_sorted_def Let_def r page_of_sorted_map [OF k]
    by (simp add: option.map_comp o_def)
qed

lemma SubscriptionsList_rest:
  "map_option (map_option sp_Page \<circ> body) (SubscriptionsList uni b query)
   = map_option (map_option (map_page sub_row) \<circ> body) (listSubscriptions uni b query)"
proof -
  have k: "(\<lambda>r. (sr_ClientID r, sr_Topic r)) \<circ> sub_row = (\<lambda>s. (ss_ClientID s, ss_Topic s))"
    by (simp add: fun_eq_iff sub_row_def)
  have e: "subRow_of cl = sub_row \<circ> subscriptionSummary_of cl" for cl
    by (auto simp: fun_eq_iff subRow_of_def sub_row_def subscriptionSummary_of_def)
  have r: "concat (map (\<lambda>(_, cl). if P cl then [] else map (subRow_of cl) (F cl)) xs)
      = map sub_row (concat (map (\<lambda>(_, cl). if P cl then [] else map (subscriptionSummary_of cl) (F cl)) xs))"
    for P F and xs :: "(string \<times> client) list"
    by (induction xs) (auto simp: e)
  show ?thesis
    unfolding SubscriptionsList_def listSubscriptions_def subscription_rows_def ok_sorted_def Let_def
      r page_of_sorted_map [OF k]
    by (simp add: option.map_comp o_def)
qed

lemma TopicsTree_rest: "map_option tt_Root (body (TopicsTree b)) = body (topicsTree b)"
proof -
  have "sortTopicTree t = sortTree t" for t
    by (induction t rule: sortTree.induct) simp
  moreover have "insertTopicTree = insertTopic" by (simp add: fun_eq_iff insertTopicTree_def insertTopic_def)
  ultimately show ?thesis by (simp add: TopicsTree_def topicsTree_def build_tree_def Let_def)
qed

section \<open>Deletion links\<close>

text \<open>The router hands a handler the path segment unescaped.\<close>

definition path_value :: "string \<Rightarrow> string" where
  "path_value seg = (case PathUnescape seg of Some v \<Rightarrow> v | None \<Rightarrow> seg)"

lemma path_value_PathEscape [simp]: "path_value (PathEscape s) = s"
  by (simp add: path_value_def)

lemma RetainedClear_at:
  "\<not> not_admin c \<Longrightarrow> topic \<noteq> [] \<Longrightarrow> map_of (bk_retained b) topic \<noteq> None \<Longrightarrow> PathUnescape raw = Some topic
   \<Longrightarrow> RetainedClear c b raw = (Redirect StatusFound ''/dashboard/retained'', [BrokerCall (RetainedDelete topic)])"
  by (simp add: RetainedClear_def)

section \<open>The blacklist as a set\<close>

datatype bl_request = BlAdd ctx form_values broker | BlRemove ctx string

fun bl_handle :: "bl_request \<Rightarrow> string list \<Rightarrow> string list" where
  "bl_handle (BlAdd c form b) bl = snd (snd (BlacklistAdd c form b bl))"
| "bl_handle (BlRemove c cid) bl = snd (BlacklistRemove c cid bl)"

fun bl_spec :: "bl_request \<Rightarrow> string set \<Rightarrow> string set" where
  "bl_spec (BlAdd c form b) s =
     (if not_admin c \<or> TrimSpace (form ''client_id'') = [] then s else insert (TrimSpace (form ''client_id'')) s)"
| "bl_spec (BlRemove c cid) s = (if not_admin c \<or> cid = [] then s else s - {cid})"

lemma bl_handle_refines:
  "distinct bl \<Longrightarrow> distinct (bl_handle r bl) \<and> set (bl_handle r bl) = bl_spec r (set bl)"
  by (cases r) (auto simp: BlacklistAdd_def BlacklistRemove_def Let_def)

text \<open>
  No page changes the broker for a visitor who is not an administrator: each handler answers 403,
  issues no call and leaves the blacklist alone, independently of the wrappers around it.
\<close>

lemma pages_need_admin:
  assumes "not_admin c"
  shows "BlacklistAdd c form b bl = (HttpError StatusForbidden ''forbidden'', [], bl)
    \<and> BlacklistRemove c cid bl = (HttpError StatusForbidden ''forbidden'', bl)
    \<and> ToolsPublish publish c form = (HttpError StatusForbidden ''forbidden'', [])
    \<and> ClientUnsubscribe c b cid raw = (HttpError StatusForbidden ''forbidden'', [])
    \<and> RetainedClear c b raw = (HttpError StatusForbidden ''forbidden'', [])
    \<and> SessionsClear c b cid = (HttpError StatusForbidden ''forbidden'', [])"
  using assms
  by (simp add: BlacklistAdd_def BlacklistRemove_def ToolsPublish_def ClientUnsubscribe_def RetainedClear_def
      SessionsClear_def)

section \<open>Properties\<close>

text \<open>
  C34. The dashboard shows what the REST interface serves: for every broker and every query, the
  client and subscription tables of the pages are the REST pages of the same query, row by row and
  with the same totals (and the page panics exactly where the endpoint does), and the topic tree is
  the REST tree.
\<close>

theorem pages_agree_with_rest:
  "map_option (map_option kp_Page \<circ> body) (ClientsList uni b vals)
     = map_option (map_option (map_page client_row) \<circ> body) (listClients uni b (Get vals))
   \<and> map_option (map_option sp_Page \<circ> body) (SubscriptionsList uni b query)
     = map_option (map_option (map_page sub_row) \<circ> body) (listSubscriptions uni b query)
   \<and> map_option tt_Root (body (TopicsTree b)) = body (topicsTree b)"
  using ClientsList_rest SubscriptionsList_rest TopicsTree_rest by blast

text \<open>
  The links between the pages of the client list keep the query: parsing the query string of a
  link gives back every parameter of the current query, with the page number replaced.
\<close>

theorem pageQuery_roundtrip:
  "Get (ParseQuery (pageQuery q n)) = (Get q)(''page'' := itoa n)"
proof
  fix k
  have "Get (ParseQuery (pageQuery q n)) k = Get (filter (\<lambda>(k, _). k \<noteq> ''page'') q @ [(''page'', itoa n)]) k"
    by (simp only: pageQuery_def ParseQuery_Encode Get_sort_key)
  also have "\<dots> = ((Get q)(''page'' := itoa n)) k"
    by (induction q) (auto simp: Get_def)
  finally show "Get (ParseQuery (pageQuery q n)) k = ((Get q)(''page'' := itoa n)) k" .
qed

text \<open>
  The delete link of a retained message works for a topic without a percent sign: the link of its
  row, decoded by the router and again by the handler, deletes that topic and nothing else. For a
  topic whose name is itself the escaped form of another retained topic, the second decoding makes
  the link delete the other one.
\<close>

theorem retained_links:
  assumes "\<not> not_admin c" "topic \<noteq> []" "map_of (bk_retained b) topic \<noteq> None"
  shows "(CHR ''%'' \<notin> set topic \<longrightarrow>
      snd (RetainedClear c b (path_value (rr_TopicEncoded (retainedRow_of (topic, pk))))) = [BrokerCall (RetainedDelete topic)])
    \<and> snd (RetainedClear c b (path_value (rr_TopicEncoded (retainedRow_of (PathEscape topic, pk)))))
        = [BrokerCall (RetainedDelete topic)]"
proof -
  have e: "rr_TopicEncoded (retainedRow_of (t, pk)) = PathEscape t" for t by (simp add: retainedRow_of_def Let_def)
  show ?thesis unfolding e path_value_PathEscape
    using RetainedClear_at [OF assms, of topic] RetainedClear_at [OF assms, of "PathEscape topic"]
      PathUnescape_plain [of topic] by simp
qed

definition admin_ctx :: ctx where
  "admin_ctx = Some (new_user ''root'' [] RoleAdmin 0)"

lemma admin_ctx [simp]: "\<not> not_admin admin_ctx"
  by (simp add: not_admin_def admin_ctx_def UserFromContext_def new_user_def)

definition one_retained :: "string \<Rightarrow> broker" where
  "one_retained topic = \<lparr>bk_clients = [], bk_retained = [(topic, \<lparr>pk_Qos = 0, pk_Payload = [], pk_Created = 0\<rparr>)],
     bk_stored = None\<rparr>"

theorem retained_links_witness:
  "snd (RetainedClear admin_ctx (one_retained ''a/b'') (path_value (rr_TopicEncoded (retainedRow_of
      (PathEscape ''a/b'', \<lparr>pk_Qos = 0, pk_Payload = [], pk_Created = 0\<rparr>))))) = [BrokerCall (RetainedDelete ''a/b'')]"
  using retained_links [of admin_ctx "''a/b''" "one_retained ''a/b''" "\<lparr>pk_Qos = 0, pk_Payload = [], pk_Created = 0\<rparr>"]
  by (simp add: one_retained_def)

text \<open>
  The blacklist page maintains a set: from a list without duplicates, any sequence of additions
  and removals leaves a list without duplicates whose elements are those of the set that the
  administrators' requests describe; requests of others and empty identifiers change nothing.
\<close>

theorem blacklist_refines_set:
  assumes "distinct bl"
  shows "distinct (fold bl_handle rs bl) \<and> set (fold bl_handle rs bl) = fold bl_spec rs (set bl)"
  using assms by (induction rs arbitrary: bl) (simp_all add: bl_handle_refines)

theorem blacklist_refines_set_witness:
  "set (fold bl_handle [BlRemove admin_ctx ''a''] [''a'', ''b'']) = {''b''}"
  using blacklist_refines_set [of "[''a'', ''b'']" "[BlRemove admin_ctx ''a'']"] by auto

end
