(* ===== verification/MqttAuth.thy ===== *)
theory MqttAuth
  imports Base64 Http Middleware
begin

text \<open>
  Management of the broker's own users and access rules, the shared part of \<open>mqttauth/\<close>: types,
  password hashing, the interface \<open>Backend\<close> as a record of operations, the contract its
  implementations share as a locale, and the two pages that use it
  (\<open>dashboard/handlers/mqtt_auth.go\<close>, \<open>mqtt_acl.go\<close>). The three enumerations of the source are
  \<open>uint8\<close>s; any value can occur, so they are natural numbers here.
\<close>

section \<open>Types\<close>

type_synonym AuthMode = nat
type_synonym HashType = nat
type_synonym Access = nat

definition AuthMode_String :: "AuthMode \<Rightarrow> string" where
  "AuthMode_String m =
     (if m = 0 then ''anonymous'' else if m = 1 then ''username'' else if m = 2 then ''clientid''
      else ''unknown'')"

definition HashType_String :: "HashType \<Rightarrow> string" where
  "HashType_String h =
     (if h = 0 then ''none'' else if h = 1 then ''bcrypt'' else if h = 2 then ''md5''
      else if h = 3 then ''sha1'' else if h = 4 then ''sha256'' else if h = 5 then ''sha512''
      else if h = 6 then ''hmac-sha1'' else if h = 7 then ''hmac-sha256''
      else if h = 8 then ''hmac-sha512'' else ''unknown'')"

definition Access_String :: "Access \<Rightarrow> string" where
  "Access_String a =
     (if a = 0 then ''deny'' else if a = 1 then ''subscribe'' else if a = 2 then ''publish''
      else if a = 3 then ''pubsub'' else ''unknown'')"

text \<open>The conversion of a Go \<open>int\<close> to \<open>uint8\<close>.\<close>

definition to_uint8 :: "int \<Rightarrow> nat" where
  "to_uint8 x = nat (x mod 256)"

record MqttUser =
  mu_Subject :: string
  mu_Allow :: bool

record ACLRule =
  ar_ID :: string
  ar_Subject :: string
  ar_Topic :: string
  ar_Access :: Access

datatype mqtt_error =
    ErrUnsupported
  | MErrNotFound
  | ErrConflict
  | ErrRequired string \<comment> \<open>a missing subject, topic or password\<close>
  | ErrInvalidID
  | ErrStorage \<comment> \<open>an error of the file system, of redis, of the database or of a decoder\<close>
  | ErrConfig string

section \<open>Configuration\<close>

record FileConfig =
  fc_Path :: string

record RedisConfig =
  rc_Addr :: string
  rc_Username :: string
  rc_Password :: string
  rc_DB :: int
  rc_AuthKeyPrefix :: string
  rc_ACLKeyPrefix :: string

record AuthTable =
  at_Table :: string
  at_UserColumn :: string
  at_PasswordColumn :: string
  at_AllowColumn :: string

record ACLTable =
  lt_Table :: string
  lt_UserColumn :: string
  lt_TopicColumn :: string
  lt_AccessColumn :: string

record SQLConfig =
  sq_Driver :: string
  sq_DSN :: string
  sq_Auth :: AuthTable
  sq_ACL :: ACLTable

record Config =
  cf_Kind :: string
  cf_Mode :: AuthMode
  cf_ACLMode :: AuthMode
  cf_HashType :: HashType
  cf_HashKey :: string
  cf_File :: "FileConfig option"
  cf_Redis :: "RedisConfig option"
  cf_SQL :: "SQLConfig option"

section \<open>Hashing\<close>

text \<open>The functions of \<open>comqtt/plugin/auth\<close> that hash a password, third-party code.\<close>

record hash_lib =
  pa_Bcrypt :: "string \<Rightarrow> string"
  pa_Md5 :: "string \<Rightarrow> string"
  pa_Sha1 :: "string \<Rightarrow> string"
  pa_Sha256 :: "string \<Rightarrow> string"
  pa_Sha512 :: "string \<Rightarrow> string"
  pa_HmacSha1 :: "string \<Rightarrow> string \<Rightarrow> string"
  pa_HmacSha256 :: "string \<Rightarrow> string \<Rightarrow> string"
  pa_HmacSha512 :: "string \<Rightarrow> string \<Rightarrow> string"
  pa_CompareHash :: "string \<Rightarrow> string \<Rightarrow> string \<Rightarrow> HashType \<Rightarrow> bool"

definition hashPassword :: "hash_lib \<Rightarrow> HashType \<Rightarrow> string \<Rightarrow> string \<Rightarrow> string" where
  "hashPassword L ht key plain =
     (if ht = 0 then plain
      else if ht = 1 then pa_Bcrypt L plain
      else if ht = 2 then pa_Md5 L plain
      else if ht = 3 then pa_Sha1 L plain
      else if ht = 4 then pa_Sha256 L plain
      else if ht = 5 then pa_Sha512 L plain
      else if ht = 6 then pa_HmacSha1 L plain key
      else if ht = 7 then pa_HmacSha256 L plain key
      else if ht = 8 then pa_HmacSha512 L plain key
      else plain)"

definition toUpstreamHash :: "HashType \<Rightarrow> HashType" where
  "toUpstreamHash h = h"

definition verifyPassword :: "hash_lib \<Rightarrow> HashType \<Rightarrow> string \<Rightarrow> string \<Rightarrow> string \<Rightarrow> bool" where
  "verifyPassword L ht key hashed plain =
     (if ht = 1 then pa_CompareHash L hashed plain key (toUpstreamHash ht)
      else hashed = hashPassword L ht key plain)"

section \<open>Rule identifiers\<close>

definition aclIDSep :: char where
  "aclIDSep = CHR 0x1F"

definition encodeACLID :: "string \<Rightarrow> string \<Rightarrow> string" where
  "encodeACLID subject topic = EncodeToString (subject @ aclIDSep # topic)"

definition decodeACLID :: "string \<Rightarrow> (string \<times> string) option" where
  "decodeACLID i =
     (case DecodeString i of
        None \<Rightarrow> None
      | Some raw \<Rightarrow>
          (case IndexByte raw aclIDSep of
             None \<Rightarrow> None
           | Some k \<Rightarrow> Some (take k raw, drop (k + 1) raw)))"

lemma decode_encodeACLID:
  "aclIDSep \<notin> set subject \<Longrightarrow> decodeACLID (encodeACLID subject topic) = Some (subject, topic)"
  by (simp add: decodeACLID_def encodeACLID_def)

section \<open>The interface\<close>

record 's Backend =
  Kind :: string
  Mode :: AuthMode
  BHashType :: HashType
  BUsers :: "'s \<Rightarrow> (mqtt_error, MqttUser list) result"
  BGetUser :: "string \<Rightarrow> 's \<Rightarrow> (mqtt_error, MqttUser) result"
  BPutUser :: "MqttUser \<Rightarrow> string \<Rightarrow> 's \<Rightarrow> (mqtt_error, unit) result \<times> 's"
  BDeleteUser :: "string \<Rightarrow> 's \<Rightarrow> (mqtt_error, unit) result \<times> 's"
  BRules :: "string \<Rightarrow> 's \<Rightarrow> (mqtt_error, ACLRule list) result"
  BPutRule :: "ACLRule \<Rightarrow> 's \<Rightarrow> (mqtt_error, string) result \<times> 's"
  BDeleteRule :: "string \<Rightarrow> 's \<Rightarrow> (mqtt_error, unit) result \<times> 's"

text \<open>
  The contract. A backend holds users (whether they may connect, and their stored password) and
  rules (with an access value that is a \<open>uint8\<close>) under keys \<open>'k\<close>, with \<open>resolve\<close> the key an identifier names. \<open>clean\<close> restricts the
  subjects for which the backend's identifiers are unambiguous.
\<close>

type_synonym rule = "string \<times> string \<times> Access"

locale mqtt_backend =
  fixes B :: "'s Backend"
    and users :: "'s \<Rightarrow> string \<rightharpoonup> bool \<times> string"
    and rules :: "'s \<Rightarrow> 'k \<rightharpoonup> rule"
    and resolve :: "string \<Rightarrow> 'k option"
    and clean :: "string \<Rightarrow> bool"
    and hash :: "string \<Rightarrow> string"
    and inv :: "'s \<Rightarrow> bool"
  assumes Users_Inr: "inv s \<Longrightarrow> BUsers B s = Inr us \<Longrightarrow>
        distinct (map mu_Subject us) \<and> set us = {\<lparr>mu_Subject = n, mu_Allow = fst v\<rparr> | n v. users s n = Some v}"
    and GetUser_Inr: "inv s \<Longrightarrow> BGetUser B n s = Inr u \<Longrightarrow>
        \<exists>pw. users s n = Some (mu_Allow u, pw) \<and> mu_Subject u = n"
    and PutUser_Inr: "inv s \<Longrightarrow> clean (mu_Subject u) \<Longrightarrow> BPutUser B u pw s = (Inr (), s') \<Longrightarrow>
        inv s' \<and> mu_Subject u \<noteq> [] \<and> (users s (mu_Subject u) = None \<longrightarrow> pw \<noteq> [])
        \<and> users s' = (users s)(mu_Subject u \<mapsto>
             (mu_Allow u, if pw \<noteq> [] then hash pw else snd (the (users s (mu_Subject u)))))
        \<and> rules s' = rules s"
    and DeleteUser_Inr: "inv s \<Longrightarrow> BDeleteUser B n s = (Inr (), s') \<Longrightarrow>
        inv s' \<and> users s n \<noteq> None \<and> users s' = (users s)(n := None)
        \<and> rules s' = (\<lambda>k. case rules s k of None \<Rightarrow> None | Some r \<Rightarrow> if fst r = n then None else Some r)"
    and Rules_Inr: "inv s \<Longrightarrow> BRules B n s = Inr rs \<Longrightarrow>
        sorted (map (\<lambda>r. (ar_Subject r, ar_Topic r)) rs)
        \<and> distinct (map (\<lambda>r. resolve (ar_ID r)) rs)
        \<and> (\<lambda>r. (resolve (ar_ID r), ar_Subject r, ar_Topic r, ar_Access r)) ` set rs
            = {(Some k, v) | k v. rules s k = Some v \<and> (n = [] \<or> fst v = n)}"
    and PutRule_Inr: "inv s \<Longrightarrow> clean (ar_Subject r) \<Longrightarrow> ar_ID r = [] \<Longrightarrow> ar_Access r < 256 \<Longrightarrow>
        BPutRule B r s = (Inr i, s') \<Longrightarrow>
        inv s' \<and> users s' = users s
        \<and> (\<exists>k. resolve i = Some k
             \<and> rules s' = (rules s)(k \<mapsto> (ar_Subject r, ar_Topic r, ar_Access r)))"
    and DeleteRule_Inr: "inv s \<Longrightarrow> BDeleteRule B i s = (Inr (), s') \<Longrightarrow>
        inv s' \<and> users s' = users s
        \<and> (\<exists>k. resolve i = Some k \<and> rules s k \<noteq> None \<and> rules s' = (rules s)(k := None))"
begin

text \<open>A rule that was just written is listed under the returned identifier, and deleting that
  identifier removes it again.\<close>

lemma PutRule_listed:
  assumes "inv s" "clean (ar_Subject r)" "ar_ID r = []" "ar_Access r < 256" "BPutRule B r s = (Inr i, s')"
    and "BRules B [] s' = Inr rs"
  shows "\<exists>x \<in> set rs. resolve (ar_ID x) = resolve i \<and> ar_Subject x = ar_Subject r
    \<and> ar_Topic x = ar_Topic r \<and> ar_Access x = ar_Access r"
proof -
  obtain k where k: "inv s'" "resolve i = Some k"
    "rules s' = (rules s)(k \<mapsto> (ar_Subject r, ar_Topic r, ar_Access r))"
    using PutRule_Inr [OF assms(1-5)] by blast
  then have "(Some k, ar_Subject r, ar_Topic r, ar_Access r) \<in>
      {(Some k, v) | k v. rules s' k = Some v \<and> ([] = [] \<or> fst v = [])}" by auto
  then have "(Some k, ar_Subject r, ar_Topic r, ar_Access r) \<in>
      (\<lambda>r. (resolve (ar_ID r), ar_Subject r, ar_Topic r, ar_Access r)) ` set rs"
    using Rules_Inr [OF k(1) assms(6)] by auto
  then show ?thesis using k(2) by force
qed

lemma PutRule_DeleteRule:
  assumes "inv s" "clean (ar_Subject r)" "ar_ID r = []" "ar_Access r < 256" "BPutRule B r s = (Inr i, s')"
    and "BDeleteRule B i s' = (Inr (), s'')"
  shows "\<exists>k. resolve i = Some k \<and> rules s'' = (rules s)(k := None) \<and> users s'' = users s"
proof -
  obtain k where k: "inv s'" "users s' = users s" "resolve i = Some k"
    "rules s' = (rules s)(k \<mapsto> (ar_Subject r, ar_Topic r, ar_Access r))"
    using PutRule_Inr [OF assms(1-5)] by blast
  then show ?thesis using DeleteRule_Inr [OF k(1) assms(6)] by auto
qed

text \<open>A user that was deleted leaves no rule behind.\<close>

lemma DeleteUser_no_rules:
  assumes "inv s" "BDeleteUser B n s = (Inr (), s')" "BRules B [] s' = Inr rs"
  shows "\<forall>x \<in> set rs. ar_Subject x \<noteq> n"
proof
  fix x assume x: "x \<in> set rs"
  have d: "inv s'" "rules s' = (\<lambda>k. case rules s k of None \<Rightarrow> None | Some r \<Rightarrow> if fst r = n then None else Some r)"
    using DeleteUser_Inr [OF assms(1,2)] by auto
  have "(resolve (ar_ID x), ar_Subject x, ar_Topic x, ar_Access x) \<in>
      {(Some k, v) | k v. rules s' k = Some v \<and> ([] = [] \<or> fst v = [])}"
    using Rules_Inr [OF d(1) assms(3)] x by blast
  then show "ar_Subject x \<noteq> n" using d(2) by (auto split: option.splits if_splits)
qed

end

end
