(* ===== verification/MqttFile.thy ===== *)
theory MqttFile
  imports MqttAuth
begin

text \<open>
  The file backend, \<open>mqttauth/file.go\<close>: a ledger in one YAML file, modelled as the decoded
  document. \<open>auth.Ledger\<close> is a struct of the broker; its \<open>Auth\<close> and \<open>ACL\<close> slices, which the backend
  reads and writes back unchanged, are the opaque field \<open>lg_rest\<close>. A nil map is \<open>None\<close>. The file is
  replaced by a rename, so a save either succeeds or leaves the old file. Methods hold the mutex
  from load to save.
\<close>

record UserRule =
  rl_Username :: string
  rl_Password :: string
  rl_ACL :: "(string \<times> Access) list option"
  rl_Disallow :: bool

definition zero_UserRule :: UserRule where
  "zero_UserRule = \<lparr>rl_Username = [], rl_Password = [], rl_ACL = None, rl_Disallow = False\<rparr>"

record 'x Ledger =
  lg_Users :: "(string \<times> UserRule) list option"
  lg_rest :: 'x

datatype 'x ledger_doc = LAbsent | LUnreadable | LGarbage | LDoc "'x Ledger"

text \<open>\<open>mf_empty\<close> is the zero value of the opaque part; \<open>mf_save_ok\<close> whether a save gets through.\<close>

record 'x mfile =
  mf_doc :: "'x ledger_doc"
  mf_empty :: 'x
  mf_save_ok :: bool

text \<open>\<open>stat\<close>: \<open>None\<close> when \<open>os.Stat\<close> fails for another reason than a missing file.\<close>

definition newFileBackend :: "unit option \<Rightarrow> Config \<Rightarrow> (mqtt_error, Config) result" where
  "newFileBackend stat cfg =
     (case cf_File cfg of
        None \<Rightarrow> Inl (ErrConfig ''mqttauth file: Config.File.Path required'')
      | Some f \<Rightarrow>
          if fc_Path f = [] then Inl (ErrConfig ''mqttauth file: Config.File.Path required'')
          else if stat = None then Inl ErrStorage
          else Inr cfg)"

definition mf_load :: "'x mfile \<Rightarrow> (mqtt_error, (string \<times> UserRule) list \<times> 'x) result" where
  "mf_load s =
     (case mf_doc s of
        LAbsent \<Rightarrow> Inr ([], mf_empty s)
      | LUnreadable \<Rightarrow> Inl ErrStorage
      | LGarbage \<Rightarrow> Inl ErrStorage
      | LDoc l \<Rightarrow> Inr (case lg_Users l of None \<Rightarrow> [] | Some us \<Rightarrow> us, lg_rest l))"

definition mf_save ::
  "(string \<times> UserRule) list \<times> 'x \<Rightarrow> 'x mfile \<Rightarrow> (mqtt_error, unit) result \<times> 'x mfile" where
  "mf_save l s =
     (if mf_save_ok s
      then (Inr (), s\<lparr>mf_doc := LDoc \<lparr>lg_Users = Some (fst l), lg_rest = snd l\<rparr>\<rparr>)
      else (Inl ErrStorage, s))"

definition mf_Users :: "'x mfile \<Rightarrow> (mqtt_error, MqttUser list) result" where
  "mf_Users s =
     (case mf_load s of
        Inl e \<Rightarrow> Inl e
      | Inr (us, _) \<Rightarrow>
          Inr (sort_key mu_Subject
            (map (\<lambda>(subject, rule). \<lparr>mu_Subject = subject, mu_Allow = \<not> rl_Disallow rule\<rparr>) us)))"

definition mf_GetUser :: "string \<Rightarrow> 'x mfile \<Rightarrow> (mqtt_error, MqttUser) result" where
  "mf_GetUser subject s =
     (case mf_load s of
        Inl e \<Rightarrow> Inl e
      | Inr (us, _) \<Rightarrow>
          (case map_of us subject of
             None \<Rightarrow> Inl MErrNotFound
           | Some rule \<Rightarrow> Inr \<lparr>mu_Subject = subject, mu_Allow = \<not> rl_Disallow rule\<rparr>))"

definition mf_PutUser ::
  "hash_lib \<Rightarrow> Config \<Rightarrow> MqttUser \<Rightarrow> string \<Rightarrow> 'x mfile \<Rightarrow> (mqtt_error, unit) result \<times> 'x mfile" where
  "mf_PutUser L cfg u plaintext s =
     (if mu_Subject u = [] then (Inl (ErrRequired ''PutUser: Subject required''), s)
      else case mf_load s of
        Inl e \<Rightarrow> (Inl e, s)
      | Inr (us, rest) \<Rightarrow>
          (let existing = map_of us (mu_Subject u) in
           if existing = None \<and> plaintext = []
           then (Inl (ErrRequired ''PutUser: plaintextPassword required for new user''), s)
           else let rule = (case existing of None \<Rightarrow> zero_UserRule | Some r \<Rightarrow> r);
                    rule = rule\<lparr>rl_Username := mu_Subject u, rl_Disallow := \<not> mu_Allow u\<rparr>;
                    rule = (if plaintext \<noteq> []
                      then rule\<lparr>rl_Password := hashPassword L (cf_HashType cfg) (cf_HashKey cfg) plaintext\<rparr>
                      else rule)
                in mf_save (AList.update (mu_Subject u) rule us, rest) s))"

definition mf_DeleteUser :: "string \<Rightarrow> 'x mfile \<Rightarrow> (mqtt_error, unit) result \<times> 'x mfile" where
  "mf_DeleteUser subject s =
     (case mf_load s of
        Inl e \<Rightarrow> (Inl e, s)
      | Inr (us, rest) \<Rightarrow>
          if map_of us subject = None then (Inl MErrNotFound, s)
          else mf_save (AList.delete subject us, rest) s)"

text \<open>The rows \<open>collect\<close> appends for one user.\<close>

definition mf_collect :: "string \<times> UserRule \<Rightarrow> ACLRule list" where
  "mf_collect = (\<lambda>(subject, rule).
     map (\<lambda>(flt, access). \<lparr>ar_ID = encodeACLID subject flt, ar_Subject = subject, ar_Topic = flt,
            ar_Access = access\<rparr>)
       (case rl_ACL rule of None \<Rightarrow> [] | Some acl \<Rightarrow> acl))"

definition mf_Rules :: "string \<Rightarrow> 'x mfile \<Rightarrow> (mqtt_error, ACLRule list) result" where
  "mf_Rules subject s =
     (case mf_load s of
        Inl e \<Rightarrow> Inl e
      | Inr (us, _) \<Rightarrow>
          Inr (sort_key (\<lambda>r. (ar_Subject r, ar_Topic r))
            (if subject = [] then concat (map mf_collect us)
             else case map_of us subject of None \<Rightarrow> [] | Some rule \<Rightarrow> mf_collect (subject, rule))))"

definition mf_PutRule :: "ACLRule \<Rightarrow> 'x mfile \<Rightarrow> (mqtt_error, string) result \<times> 'x mfile" where
  "mf_PutRule r s =
     (if ar_Subject r = [] \<or> ar_Topic r = []
      then (Inl (ErrRequired ''PutRule: Subject and Topic required''), s)
      else case mf_load s of
        Inl e \<Rightarrow> (Inl e, s)
      | Inr (us, rest) \<Rightarrow>
          (case map_of us (ar_Subject r) of
             None \<Rightarrow> (Inl MErrNotFound, s)
           | Some user \<Rightarrow>
               let acl = (case rl_ACL user of None \<Rightarrow> [] | Some acl \<Rightarrow> acl);
                   user = user\<lparr>rl_ACL := Some (AList.update (ar_Topic r) (ar_Access r) acl)\<rparr>
               in (case mf_save (AList.update (ar_Subject r) user us, rest) s of
                     (Inl e, s') \<Rightarrow> (Inl e, s')
                   | (Inr _, s') \<Rightarrow> (Inr (encodeACLID (ar_Subject r) (ar_Topic r)), s'))))"

definition mf_DeleteRule :: "string \<Rightarrow> 'x mfile \<Rightarrow> (mqtt_error, unit) result \<times> 'x mfile" where
  "mf_DeleteRule i s =
     (case decodeACLID i of
        None \<Rightarrow> (Inl ErrInvalidID, s)
      | Some (subject, topic) \<Rightarrow>
          (case mf_load s of
             Inl e \<Rightarrow> (Inl e, s)
           | Inr (us, rest) \<Rightarrow>
               (case map_of us subject of
                  None \<Rightarrow> (Inl MErrNotFound, s)
                | Some user \<Rightarrow>
                    (case rl_ACL user of
                       None \<Rightarrow> (Inl MErrNotFound, s)
                     | Some acl \<Rightarrow>
                         if map_of acl topic = None then (Inl MErrNotFound, s)
                         else mf_save (AList.update subject
                                (user\<lparr>rl_ACL := Some (AList.delete topic acl)\<rparr>) us, rest) s))))"

definition fileBackend :: "hash_lib \<Rightarrow> Config \<Rightarrow> 'x mfile Backend" where
  "fileBackend L cfg = \<lparr>Kind = ''file'', Mode = cf_Mode cfg, BHashType = cf_HashType cfg,
     BUsers = mf_Users, BGetUser = mf_GetUser, BPutUser = mf_PutUser L cfg,
     BDeleteUser = mf_DeleteUser, BRules = mf_Rules, BPutRule = mf_PutRule,
     BDeleteRule = mf_DeleteRule\<rparr>"

section \<open>The ledger as the contract sees it\<close>

definition clean_subject :: "string \<Rightarrow> bool" where
  "clean_subject n \<longleftrightarrow> aclIDSep \<notin> set n"

text \<open>The users of the file; an unreadable file shows none.\<close>

definition ledger :: "'x mfile \<Rightarrow> (string \<times> UserRule) list" where
  "ledger s = (case mf_load s of Inl _ \<Rightarrow> [] | Inr (us, _) \<Rightarrow> us)"

definition acl_of :: "UserRule \<Rightarrow> (string \<times> Access) list" where
  "acl_of rule = (case rl_ACL rule of None \<Rightarrow> [] | Some acl \<Rightarrow> acl)"

definition mf_users :: "'x mfile \<Rightarrow> string \<rightharpoonup> bool \<times> string" where
  "mf_users s n = map_option (\<lambda>r. (\<not> rl_Disallow r, rl_Password r)) (map_of (ledger s) n)"

definition mf_rules :: "'x mfile \<Rightarrow> string \<times> string \<rightharpoonup> rule" where
  "mf_rules s = (\<lambda>(n, t).
     case map_of (ledger s) n of
       None \<Rightarrow> None
     | Some r \<Rightarrow> map_option (\<lambda>a. (n, t, a)) (map_of (acl_of r) t))"

definition ledger_wf :: "(string \<times> UserRule) list \<Rightarrow> bool" where
  "ledger_wf us \<longleftrightarrow> distinct (map fst us)
     \<and> (\<forall>(n, r) \<in> set us. clean_subject n \<and> distinct (map fst (acl_of r)))"

definition mf_inv :: "'x mfile \<Rightarrow> bool" where
  "mf_inv s \<longleftrightarrow> ledger_wf (ledger s)"

lemma mf_load_Inr: "mf_load s = Inr (us, rest) \<Longrightarrow> ledger s = us"
  by (simp add: ledger_def)

lemma mf_save_Inr: "mf_save (us, rest) s = (Inr (), s') \<Longrightarrow> ledger s' = us"
  by (auto simp: mf_save_def ledger_def mf_load_def split: if_splits)

lemma ledger_wf_update:
  assumes "ledger_wf us" "clean_subject n" "distinct (map fst (acl_of r))"
  shows "ledger_wf (AList.update n r us)"
  unfolding ledger_wf_def
proof (intro conjI ballI)
  show "distinct (map fst (AList.update n r us))"
    using assms(1) by (simp add: ledger_wf_def distinct_update)
next
  fix x assume "x \<in> set (AList.update n r us)"
  then show "case x of (m, r') \<Rightarrow> clean_subject m \<and> distinct (map fst (acl_of r'))"
    using assms set_alist_update [of "fst x" "snd x" n r us] by (auto simp: ledger_wf_def)
qed

lemma ledger_wf_delete: "ledger_wf us \<Longrightarrow> ledger_wf (AList.delete n us)"
  by (auto simp: ledger_wf_def set_alist_delete distinct_delete)

lemma ledger_wf_lookup:
  "ledger_wf us \<Longrightarrow> map_of us n = Some r \<Longrightarrow> clean_subject n \<and> distinct (map fst (acl_of r))"
  by (auto simp: ledger_wf_def dest: map_of_SomeD)

lemma ledger_wf_mem:
  "ledger_wf us \<Longrightarrow> (n, r) \<in> set us \<Longrightarrow> clean_subject n \<and> distinct (map fst (acl_of r))"
  by (auto simp: ledger_wf_def)

lemma collect_acl: "mf_collect (n, r) = map (\<lambda>(t, a). \<lparr>ar_ID = encodeACLID n t, ar_Subject = n,
    ar_Topic = t, ar_Access = a\<rparr>) (acl_of r)"
  by (simp add: mf_collect_def acl_of_def)

lemma collect_keys:
  assumes "ledger_wf us"
  shows "map (\<lambda>r. decodeACLID (ar_ID r)) (concat (map mf_collect us)) =
      map (\<lambda>r. Some (ar_Subject r, ar_Topic r)) (concat (map mf_collect us))"
  by (auto simp: collect_acl clean_subject_def intro!: decode_encodeACLID dest!: ledger_wf_mem [OF assms])

lemma collect_distinct:
  assumes "ledger_wf us"
  shows "distinct (map (\<lambda>r. (ar_Subject r, ar_Topic r)) (concat (map mf_collect us)))"
  using assms
proof (induction us)
  case (Cons u us)
  obtain n r where u: "u = (n, r)" by force
  have "distinct (map fst (acl_of r))" using Cons.prems u by (simp add: ledger_wf_def)
  then have "distinct (map (\<lambda>t. (n, t)) (map fst (acl_of r)))"
    by (simp only: distinct_map [of "\<lambda>t. (n, t)"]) (auto simp: inj_on_def)
  then have "distinct (map (\<lambda>r. (ar_Subject r, ar_Topic r)) (mf_collect u))"
    by (simp add: u collect_acl o_def case_prod_unfold)
  moreover have "n \<notin> fst ` set us" "ledger_wf us" using Cons.prems u by (auto simp: ledger_wf_def)
  then have "\<forall>x \<in> set (concat (map mf_collect us)). ar_Subject x \<noteq> n"
    by (auto simp: mf_collect_def rev_image_eqI)
  then have "n \<notin> fst ` set (map (\<lambda>r. (ar_Subject r, ar_Topic r)) (concat (map mf_collect us)))"
    unfolding set_map image_image fst_conv by blast
  moreover have "fst ` set (map (\<lambda>r. (ar_Subject r, ar_Topic r)) (mf_collect u)) \<subseteq> {n}"
    by (auto simp: u collect_acl)
  ultimately show ?case using Cons.IH [OF \<open>ledger_wf us\<close>]
    by (simp only: list.map concat.simps map_append distinct_append) blast
qed simp

lemma collect_rules:
  assumes "ledger_wf us"
  shows "(\<lambda>r. (Some (ar_Subject r, ar_Topic r), ar_Subject r, ar_Topic r, ar_Access r)) `
      set (concat (map mf_collect us)) =
    {(Some (n, t), n, t, a) | n t a. \<exists>r. map_of us n = Some r \<and> map_of (acl_of r) t = Some a}"
proof -
  have d: "distinct (map fst us)" using assms by (simp add: ledger_wf_def)
  have "map_of (acl_of r) t = Some a \<longleftrightarrow> (t, a) \<in> set (acl_of r)" if "(n, r) \<in> set us" for n r t a
    using assms that by (intro map_of_eq_Some_iff) (auto simp: ledger_wf_def)
  then have "{(Some (n, t), n, t, a) | n t a. \<exists>r. map_of us n = Some r \<and> map_of (acl_of r) t = Some a} =
      {(Some (n, t), n, t, a) | n t a. \<exists>r. (n, r) \<in> set us \<and> (t, a) \<in> set (acl_of r)}"
    by (auto simp: map_of_eq_Some_iff [OF d]) blast+
  also have "\<dots> = (\<lambda>r. (Some (ar_Subject r, ar_Topic r), ar_Subject r, ar_Topic r, ar_Access r)) `
      set (concat (map mf_collect us))"
    by (auto simp: collect_acl image_iff) (force simp: collect_acl, blast)
  finally show ?thesis by simp
qed

subsection \<open>The file backend implements the contract\<close>

lemma mf_PutUser_Inr:
  assumes "mf_inv s" "clean_subject (mu_Subject u)" "mf_PutUser L cfg u pw s = (Inr (), s')"
  shows "mf_inv s' \<and> mu_Subject u \<noteq> [] \<and> (mf_users s (mu_Subject u) = None \<longrightarrow> pw \<noteq> [])
    \<and> mf_users s' = (mf_users s)(mu_Subject u \<mapsto> (mu_Allow u,
         if pw \<noteq> [] then hashPassword L (cf_HashType cfg) (cf_HashKey cfg) pw
         else snd (the (mf_users s (mu_Subject u)))))
    \<and> mf_rules s' = mf_rules s"
proof -
  let ?n = "mu_Subject u"
  obtain us rest where l: "mf_load s = Inr (us, rest)"
    using assms(3) by (auto simp: mf_PutUser_def split: if_splits sum.splits)
  note us = mf_load_Inr [OF l]
  let ?e = "case map_of us ?n of None \<Rightarrow> zero_UserRule | Some r \<Rightarrow> r"
  let ?r1 = "?e\<lparr>rl_Username := ?n, rl_Disallow := \<not> mu_Allow u\<rparr>"
  let ?r = "if pw \<noteq> [] then ?r1\<lparr>rl_Password := hashPassword L (cf_HashType cfg) (cf_HashKey cfg) pw\<rparr> else ?r1"
  have sv: "mf_save (AList.update ?n ?r us, rest) s = (Inr (), s')"
    and g: "?n \<noteq> []" "\<not> (map_of us ?n = None \<and> pw = [])"
    using assms(3) l by (auto simp: mf_PutUser_def Let_def split: if_splits)
  have us': "ledger s' = AList.update ?n ?r us" by (rule mf_save_Inr [OF sv])
  have "acl_of ?r = acl_of ?e" by (simp add: acl_of_def)
  moreover have "distinct (map fst (acl_of ?e))"
    using ledger_wf_lookup [of us ?n] assms(1) us
    by (auto simp: mf_inv_def acl_of_def zero_UserRule_def split: option.splits)
  ultimately have "mf_inv s'"
    unfolding mf_inv_def us' using assms(1,2) us by (intro ledger_wf_update) (simp_all add: mf_inv_def)
  moreover have "mf_rules s' = mf_rules s"
    by (auto simp: fun_eq_iff mf_rules_def us' us update_conv' \<open>acl_of ?r = acl_of ?e\<close>)
      (auto simp: acl_of_def zero_UserRule_def split: option.splits)
  moreover have "mf_users s' = (mf_users s)(?n \<mapsto> (mu_Allow u,
         if pw \<noteq> [] then hashPassword L (cf_HashType cfg) (cf_HashKey cfg) pw
         else snd (the (mf_users s ?n))))"
    using g by (auto simp: fun_eq_iff mf_users_def us' us update_conv' split: option.splits)
  ultimately show ?thesis using g us by (auto simp: mf_users_def)
qed

lemma mf_DeleteUser_Inr:
  assumes "mf_inv s" "mf_DeleteUser n s = (Inr (), s')"
  shows "mf_inv s' \<and> mf_users s n \<noteq> None \<and> mf_users s' = (mf_users s)(n := None)
    \<and> mf_rules s' = (\<lambda>k. case mf_rules s k of None \<Rightarrow> None | Some r \<Rightarrow> if fst r = n then None else Some r)"
proof -
  obtain us rest where l: "mf_load s = Inr (us, rest)" and g: "map_of us n \<noteq> None"
    and sv: "mf_save (AList.delete n us, rest) s = (Inr (), s')"
    using assms(2) by (auto simp: mf_DeleteUser_def split: if_splits sum.splits)
  note us = mf_load_Inr [OF l] and us' = mf_save_Inr [OF sv]
  have "mf_inv s'" unfolding mf_inv_def us' using assms(1) us by (simp add: mf_inv_def ledger_wf_delete)
  moreover have "mf_users s' = (mf_users s)(n := None)"
    by (auto simp: fun_eq_iff mf_users_def us us' delete_conv')
  moreover have "mf_rules s' = (\<lambda>k. case mf_rules s k of None \<Rightarrow> None | Some r \<Rightarrow> if fst r = n then None else Some r)"
    by (auto simp: fun_eq_iff mf_rules_def us us' delete_conv' split: option.splits)
  ultimately show ?thesis using g us by (simp add: mf_users_def)
qed

lemma mf_PutRule_Inr:
  assumes "mf_inv s" "clean_subject (ar_Subject r)" "mf_PutRule r s = (Inr i, s')"
  shows "mf_inv s' \<and> mf_users s' = mf_users s \<and> (\<exists>k. decodeACLID i = Some k
    \<and> mf_rules s' = (mf_rules s)(k \<mapsto> (ar_Subject r, ar_Topic r, ar_Access r)))"
proof -
  let ?n = "ar_Subject r" and ?t = "ar_Topic r"
  obtain us rest u where l: "mf_load s = Inr (us, rest)" and u: "map_of us ?n = Some u"
    and sv: "mf_save (AList.update ?n (u\<lparr>rl_ACL := Some (AList.update ?t (ar_Access r) (acl_of u))\<rparr>) us, rest) s
      = (Inr (), s')" and i: "i = encodeACLID ?n ?t"
    using assms(3) by (auto simp: mf_PutRule_def Let_def acl_of_def [symmetric]
        split: if_splits sum.splits option.splits prod.splits)
  note us = mf_load_Inr [OF l] and us' = mf_save_Inr [OF sv]
  have "distinct (map fst (acl_of u))" using ledger_wf_lookup [OF _ u] assms(1) us by (simp add: mf_inv_def)
  then have "mf_inv s'"
    unfolding mf_inv_def us' using assms(1,2) us
    by (intro ledger_wf_update) (simp_all add: mf_inv_def acl_of_def distinct_update)
  moreover have "mf_users s' = mf_users s"
    using u by (auto simp: fun_eq_iff mf_users_def us us' update_conv')
  moreover have "mf_rules s' = (mf_rules s)((?n, ?t) \<mapsto> (?n, ?t, ar_Access r))"
    using u by (auto simp: fun_eq_iff mf_rules_def us us' update_conv' acl_of_def [of "_\<lparr>rl_ACL := _\<rparr>"])
  ultimately show ?thesis using assms(2) by (auto simp: i decode_encodeACLID clean_subject_def)
qed

lemma mf_DeleteRule_Inr:
  assumes "mf_inv s" "mf_DeleteRule i s = (Inr (), s')"
  shows "mf_inv s' \<and> mf_users s' = mf_users s \<and> (\<exists>k. decodeACLID i = Some k \<and> mf_rules s k \<noteq> None
    \<and> mf_rules s' = (mf_rules s)(k := None))"
proof -
  obtain n t us rest u acl where k: "decodeACLID i = Some (n, t)" and l: "mf_load s = Inr (us, rest)"
    and u: "map_of us n = Some u" "rl_ACL u = Some acl" "map_of acl t \<noteq> None"
    and sv: "mf_save (AList.update n (u\<lparr>rl_ACL := Some (AList.delete t acl)\<rparr>) us, rest) s = (Inr (), s')"
    using assms(2) by (auto simp: mf_DeleteRule_def split: if_splits sum.splits option.splits prod.splits)
  note us = mf_load_Inr [OF l] and us' = mf_save_Inr [OF sv]
  have acl: "acl_of u = acl" using u(2) by (simp add: acl_of_def)
  have wf: "clean_subject n" "distinct (map fst acl)"
    using ledger_wf_lookup [OF _ u(1)] assms(1) us acl by (auto simp: mf_inv_def)
  then have "mf_inv s'"
    unfolding mf_inv_def us' using assms(1) us
    by (intro ledger_wf_update) (simp_all add: mf_inv_def acl_of_def distinct_delete)
  moreover have "mf_users s' = mf_users s"
    using u by (auto simp: fun_eq_iff mf_users_def us us' update_conv')
  moreover have "mf_rules s' = (mf_rules s)((n, t) := None)"
    using u(1) acl by (auto simp: fun_eq_iff mf_rules_def us us' update_conv' delete_conv' acl_of_def [of "_\<lparr>rl_ACL := _\<rparr>"])
  moreover have "mf_rules s (n, t) \<noteq> None" using u acl by (simp add: mf_rules_def us)
  ultimately show ?thesis using k by blast
qed

lemma mf_Rules_rows:
  assumes "mf_Rules n s = Inr rs" "mf_inv s"
  obtains us where "ledger_wf us" "rs = sort_key (\<lambda>r. (ar_Subject r, ar_Topic r)) (concat (map mf_collect us))"
    "map_of us = (if n = [] then map_of (ledger s) else (map_of (ledger s)) |` {n})"
proof -
  obtain us rest where l: "mf_load s = Inr (us, rest)"
    using assms(1) by (auto simp: mf_Rules_def split: sum.splits)
  note us = mf_load_Inr [OF l]
  have wf: "ledger_wf us" using assms(2) us by (simp add: mf_inv_def)
  show ?thesis
  proof (cases "n = []")
    case True
    then show ?thesis using that [of us] assms(1) l us wf by (simp add: mf_Rules_def)
  next
    case False
    show ?thesis
    proof (cases "map_of us n")
      case None
      with False show ?thesis
        using that [of "[]"] assms(1) l us
        by (auto simp: mf_Rules_def ledger_wf_def fun_eq_iff restrict_map_def)
    next
      case (Some rule)
      with False show ?thesis
        using that [of "[(n, rule)]"] assms(1) l us ledger_wf_lookup [OF wf Some]
        by (auto simp: mf_Rules_def ledger_wf_def fun_eq_iff restrict_map_def)
    qed
  qed
qed

lemma mf_Rules_Inr:
  assumes "mf_inv s" "mf_Rules n s = Inr rs"
  shows "sorted (map (\<lambda>r. (ar_Subject r, ar_Topic r)) rs)
    \<and> distinct (map (\<lambda>r. decodeACLID (ar_ID r)) rs)
    \<and> (\<lambda>r. (decodeACLID (ar_ID r), ar_Subject r, ar_Topic r, ar_Access r)) ` set rs
        = {(Some k, v) | k v. mf_rules s k = Some v \<and> (n = [] \<or> fst v = n)}"
proof -
  obtain us where us: "ledger_wf us" "map_of us = (if n = [] then map_of (ledger s) else (map_of (ledger s)) |` {n})"
    and rs: "rs = sort_key (\<lambda>r. (ar_Subject r, ar_Topic r)) (concat (map mf_collect us))"
    by (rule mf_Rules_rows [OF assms(2,1)])
  let ?rows = "concat (map mf_collect us)"
  have key: "\<forall>r \<in> set ?rows. decodeACLID (ar_ID r) = Some (ar_Subject r, ar_Topic r)"
    using collect_keys [OF us(1)] by (simp only: map_eq_conv)
  then have key': "\<forall>r \<in> set rs. decodeACLID (ar_ID r) = Some (ar_Subject r, ar_Topic r)" by (simp add: rs)
  have "distinct (map (\<lambda>r. (ar_Subject r, ar_Topic r)) rs)"
    unfolding rs distinct_map_sort_key by (rule collect_distinct [OF us(1)])
  then have "distinct (map Some (map (\<lambda>r. (ar_Subject r, ar_Topic r)) rs))" by (simp only: distinct_map [of Some]) simp
  moreover have "map (\<lambda>r. decodeACLID (ar_ID r)) rs = map Some (map (\<lambda>r. (ar_Subject r, ar_Topic r)) rs)"
    using key' by simp
  ultimately have d: "distinct (map (\<lambda>r. decodeACLID (ar_ID r)) rs)" by (simp only:)
  have "(\<lambda>r. (decodeACLID (ar_ID r), ar_Subject r, ar_Topic r, ar_Access r)) ` set rs =
      (\<lambda>r. (Some (ar_Subject r, ar_Topic r), ar_Subject r, ar_Topic r, ar_Access r)) ` set ?rows"
    unfolding rs set_sort by (rule image_cong [OF refl]) (use key in metis)
  also have "\<dots> = {(Some k, v) | k v. mf_rules s k = Some v \<and> (n = [] \<or> fst v = n)}"
    unfolding collect_rules [OF us(1)] us(2)
    by (auto simp: mf_rules_def restrict_map_def split: option.splits if_splits)
  finally show ?thesis using d by (simp add: rs)
qed

lemma fileBackend_sel [simp]:
  "BUsers (fileBackend L cfg) = mf_Users" "BGetUser (fileBackend L cfg) = mf_GetUser"
  "BPutUser (fileBackend L cfg) = mf_PutUser L cfg" "BDeleteUser (fileBackend L cfg) = mf_DeleteUser"
  "BRules (fileBackend L cfg) = mf_Rules" "BPutRule (fileBackend L cfg) = mf_PutRule"
  "BDeleteRule (fileBackend L cfg) = mf_DeleteRule"
  by (simp_all add: fileBackend_def)

lemma mf_Users_Inr:
  assumes "mf_inv s" "mf_Users s = Inr us"
  shows "distinct (map mu_Subject us) \<and> set us = {\<lparr>mu_Subject = n, mu_Allow = fst v\<rparr> | n v. mf_users s n = Some v}"
proof -
  obtain l rest where l: "mf_load s = Inr (l, rest)"
    and us: "us = sort_key mu_Subject (map (\<lambda>(n, r). \<lparr>mu_Subject = n, mu_Allow = \<not> rl_Disallow r\<rparr>) l)"
    using assms(2) by (auto simp: mf_Users_def split: sum.splits)
  have d: "distinct (map fst l)" using assms(1) mf_load_Inr [OF l] by (simp add: mf_inv_def ledger_wf_def)
  have "mu_Subject \<circ> (\<lambda>(n, r). \<lparr>mu_Subject = n, mu_Allow = \<not> rl_Disallow r\<rparr>) =
      (fst :: string \<times> UserRule \<Rightarrow> string)" by auto
  then have "distinct (map mu_Subject us)" using d by (simp add: us)
  moreover have "set us = {\<lparr>mu_Subject = n, mu_Allow = fst v\<rparr> | n v. mf_users s n = Some v}"
    by (force simp: us mf_users_def mf_load_Inr [OF l] map_of_eq_Some_iff [OF d])
  ultimately show ?thesis by simp
qed

interpretation mf: mqtt_backend "fileBackend L cfg" mf_users mf_rules decodeACLID clean_subject
  "hashPassword L (cf_HashType cfg) (cf_HashKey cfg)" mf_inv for L cfg
proof (unfold_locales, unfold fileBackend_sel, goal_cases)
  case 2
  then show ?case
    by (auto simp: mf_GetUser_def mf_users_def ledger_def split: sum.splits option.splits)
next
  case 6
  then show ?case by (intro mf_PutRule_Inr)
qed (fact mf_Users_Inr mf_PutUser_Inr mf_DeleteUser_Inr mf_Rules_Inr mf_DeleteRule_Inr)+

text \<open>What a method can do to the file: nothing, or one save of new users with the old rest.\<close>

definition writes :: "'x mfile \<Rightarrow> 'x mfile \<Rightarrow> bool" where
  "writes s s' \<longleftrightarrow> s' = s \<or> (\<exists>us0 us rest. mf_load s = Inr (us0, rest) \<and> s' = snd (mf_save (us, rest) s))"

lemma writes_rest:
  "writes s s' \<Longrightarrow> mf_doc s = LDoc l \<Longrightarrow> \<exists>l'. mf_doc s' = LDoc l' \<and> lg_rest l' = lg_rest l"
  by (auto simp: writes_def mf_save_def mf_load_def)

lemma writes_refl [simp]: "writes s s"
  by (simp add: writes_def)

lemma writes_save: "mf_load s = Inr (us0, rest) \<Longrightarrow> writes s (snd (mf_save (us, rest) s))"
  by (auto simp: writes_def)

text \<open>Passing on the outcome of a save with another result value.\<close>

lemma relay:
  "snd (case x of (Inl e, s') \<Rightarrow> (Inl e, s') | (Inr u, s') \<Rightarrow> (Inr i, s')) = snd x"
  "isl (fst (case x of (Inl e, s') \<Rightarrow> (Inl e, s') | (Inr u, s') \<Rightarrow> (Inr i, s'))) = isl (fst x)"
  by (auto split: prod.splits sum.splits)

lemma writes_ops:
  "writes s (snd (mf_PutUser L cfg u pw s))" "writes s (snd (mf_DeleteUser n s))"
  "writes s (snd (mf_PutRule r s))" "writes s (snd (mf_DeleteRule i s))"
  by (cases "mf_load s"; auto simp: mf_PutUser_def mf_DeleteUser_def mf_PutRule_def mf_DeleteRule_def
      Let_def relay intro!: writes_save split: option.split)+

lemma failed_save: "isl (fst (mf_save l s)) \<Longrightarrow> snd (mf_save l s) = s"
  "fst (mf_save l s) \<noteq> Inr () \<Longrightarrow> snd (mf_save l s) = s"
  by (auto simp: mf_save_def split: if_splits)

lemma failed_op_keeps:
  "fst (mf_PutUser L cfg u pw s) \<noteq> Inr () \<Longrightarrow> snd (mf_PutUser L cfg u pw s) = s"
  "fst (mf_DeleteUser n s) \<noteq> Inr () \<Longrightarrow> snd (mf_DeleteUser n s) = s"
  "isl (fst (mf_PutRule r s)) \<Longrightarrow> snd (mf_PutRule r s) = s"
  "fst (mf_DeleteRule i s) \<noteq> Inr () \<Longrightarrow> snd (mf_DeleteRule i s) = s"
  by (cases "mf_load s"; auto simp: mf_PutUser_def mf_DeleteUser_def mf_PutRule_def mf_DeleteRule_def
      Let_def relay failed_save split: option.splits if_splits)+

section \<open>Properties\<close>

text \<open>
  A rule written through the file backend can be found and deleted again by the identifier the
  write returned: for a subject without the separator byte, the listing after the write contains
  the rule, and deleting the returned identifier restores the rules as they were without it.
\<close>

theorem file_rule_roundtrip:
  assumes "mf_inv s" "clean_subject (ar_Subject r)" "ar_ID r = []" "ar_Access r < 256"
    and "mf_PutRule r s = (Inr i, s')"
    and "mf_Rules [] s' = Inr rs" "mf_DeleteRule i s' = (Inr (), s'')"
  shows "(\<exists>x \<in> set rs. decodeACLID (ar_ID x) = decodeACLID i \<and> ar_Subject x = ar_Subject r
      \<and> ar_Topic x = ar_Topic r \<and> ar_Access x = ar_Access r)
    \<and> (\<exists>k. decodeACLID i = Some k \<and> mf_rules s'' = (mf_rules s)(k := None) \<and> mf_users s'' = mf_users s)"
  using mf.PutRule_listed [OF assms(1-4), simplified, OF assms(5,6)]
    mf.PutRule_DeleteRule [OF assms(1-4), simplified, OF assms(5,7)] by blast

definition demo_file :: "unit mfile" where
  "demo_file = \<lparr>mf_doc = LDoc \<lparr>lg_Users = Some [(''u'', \<lparr>rl_Username = ''u'', rl_Password = ''pw'',
     rl_ACL = None, rl_Disallow = False\<rparr>)], lg_rest = ()\<rparr>, mf_empty = (), mf_save_ok = True\<rparr>"

definition demo_rule :: ACLRule where
  "demo_rule = \<lparr>ar_ID = [], ar_Subject = ''u'', ar_Topic = ''a/b'', ar_Access = 1\<rparr>"

theorem file_rule_roundtrip_witness:
  "mf_rules (snd (mf_DeleteRule (encodeACLID ''u'' ''a/b'') (snd (mf_PutRule demo_rule demo_file))))
     = (mf_rules demo_file)((''u'', ''a/b'') := None)"
proof -
  have d: "decodeACLID (encodeACLID ''u'' ''a/b'') = Some (''u'', ''a/b'')"
    by (rule decode_encodeACLID) (simp add: aclIDSep_def)
  have inv: "mf_inv demo_file" "clean_subject (ar_Subject demo_rule)" "ar_ID demo_rule = []" "ar_Access demo_rule < 256"
    by (simp_all add: mf_inv_def demo_file_def ledger_def mf_load_def ledger_wf_def clean_subject_def
        aclIDSep_def acl_of_def demo_rule_def)
  let ?s' = "snd (mf_PutRule demo_rule demo_file)"
  have p: "mf_PutRule demo_rule demo_file = (Inr (encodeACLID ''u'' ''a/b''), ?s')"
    "\<exists>rs. mf_Rules [] ?s' = Inr rs"
    "mf_DeleteRule (encodeACLID ''u'' ''a/b'') ?s' = (Inr (), snd (mf_DeleteRule (encodeACLID ''u'' ''a/b'') ?s'))"
    by (simp_all add: mf_PutRule_def mf_Rules_def mf_DeleteRule_def d demo_rule_def demo_file_def mf_load_def mf_save_def Let_def)
  obtain rs where rs: "mf_Rules [] ?s' = Inr rs" using p(2) by blast
  from file_rule_roundtrip [OF inv p(1) rs p(3)] d show ?thesis by auto
qed



text \<open>
  The identifier of a rule is ambiguous when a subject holds the separator byte 0x1F: the rule
  of one subject and topic and the rule of another subject and topic get the same identifier, and
  the delete request for the first acts on the second.
\<close>

theorem rule_id_collision:
  "encodeACLID (a @ aclIDSep # b) t = encodeACLID a (b @ aclIDSep # t)
   \<and> (aclIDSep \<notin> set a \<longrightarrow> decodeACLID (encodeACLID (a @ aclIDSep # b) t) = Some (a, b @ aclIDSep # t))"
proof -
  have e: "encodeACLID (a @ aclIDSep # b) t = encodeACLID a (b @ aclIDSep # t)" by (simp add: encodeACLID_def)
  show ?thesis unfolding e by (simp add: decode_encodeACLID)
qed

theorem rule_id_collision_witness:
  "decodeACLID (encodeACLID (''a'' @ aclIDSep # ''b'') ''t'') = Some (''a'', ''b'' @ aclIDSep # ''t'')"
  by (rule rule_id_collision [THEN conjunct2, rule_format]) (simp add: aclIDSep_def)

end
