(* ===== verification/MqttPages.thy ===== *)
theory MqttPages
  imports MqttFile
begin

text \<open>
  The pages for the broker's users and access rules, \<open>dashboard/handlers/mqtt_auth.go\<close> and
  \<open>mqtt_acl.go\<close>, over any backend; \<open>None\<close> is the nil backend of a broker without managed
  authentication. An error message is a fixed text and, where the source appends one, the error.
  The page data is the part that depends on the request and the backend.
\<close>

type_synonym page_error = "string \<times> mqtt_error option"

definition no_error :: page_error where
  "no_error = ([], None)"

record mqttAuthPageData =
  ap_Error :: page_error
  ap_Configured :: bool
  ap_BackendKind :: string
  ap_Mode :: string
  ap_HashType :: string
  ap_Items :: "MqttUser list" \<comment> \<open>\<open>mqttUserRow\<close> has the two fields of a user\<close>

definition renderMQTTAuthPage ::
  "'s Backend option \<Rightarrow> 's \<Rightarrow> page_error \<Rightarrow> mqttAuthPageData response" where
  "renderMQTTAuthPage B s errMsg =
     (case B of
        None \<Rightarrow> Render StatusOK \<lparr>ap_Error = errMsg, ap_Configured = False, ap_BackendKind = [],
                  ap_Mode = [], ap_HashType = [], ap_Items = []\<rparr>
      | Some b \<Rightarrow>
          let page = \<lparr>ap_Error = errMsg, ap_Configured = True, ap_BackendKind = Kind b,
                ap_Mode = AuthMode_String (Mode b), ap_HashType = HashType_String (BHashType b),
                ap_Items = []\<rparr>
          in (case BUsers b s of
                Inl e \<Rightarrow> Render StatusOK (page\<lparr>ap_Error := (''List failed: '', Some e)\<rparr>)
              | Inr users \<Rightarrow>
                  Render StatusOK (page\<lparr>ap_Items :=
                    map (\<lambda>u. \<lparr>mu_Subject = mu_Subject u, mu_Allow = mu_Allow u\<rparr>) users\<rparr>)))"

definition MQTTAuthList :: "'s Backend option \<Rightarrow> 's \<Rightarrow> mqttAuthPageData response" where
  "MQTTAuthList B s = renderMQTTAuthPage B s no_error"

definition MQTTAuthCreate ::
  "'s Backend option \<Rightarrow> form_values \<Rightarrow> 's \<Rightarrow> mqttAuthPageData response \<times> 's" where
  "MQTTAuthCreate B form s =
     (case B of
        None \<Rightarrow> (renderMQTTAuthPage B s (''Backend not configured.'', None), s)
      | Some b \<Rightarrow>
          let subject = TrimSpace (form ''subject''); password = form ''password'';
              allow = (form ''allow'' = ''on'')
          in if subject = [] \<or> password = []
             then (renderMQTTAuthPage B s (''Subject and password are required.'', None), s)
             else (case BPutUser b \<lparr>mu_Subject = subject, mu_Allow = allow\<rparr> password s of
                     (Inl e, s') \<Rightarrow> (renderMQTTAuthPage B s' (''Create failed: '', Some e), s')
                   | (Inr _, s') \<Rightarrow> (Redirect StatusFound ''/dashboard/mqtt-auth'', s')))"

text \<open>The text of an internal error response is the error itself and not kept.\<close>

definition MQTTAuthToggle ::
  "'s Backend option \<Rightarrow> string \<Rightarrow> 's \<Rightarrow> mqttAuthPageData response \<times> 's" where
  "MQTTAuthToggle B subject s =
     (case B of
        None \<Rightarrow> (HttpError StatusServiceUnavailable ''backend not configured'', s)
      | Some b \<Rightarrow>
          if subject = [] then (HttpError StatusBadRequest ''subject required'', s)
          else (case BGetUser b subject s of
                  Inl MErrNotFound \<Rightarrow> (NotFound, s)
                | Inl e \<Rightarrow> (HttpError StatusInternalServerError [], s)
                | Inr u \<Rightarrow>
                    (case BPutUser b \<lparr>mu_Subject = subject, mu_Allow = \<not> mu_Allow u\<rparr> [] s of
                       (Inl e, s') \<Rightarrow> (HttpError StatusInternalServerError [], s')
                     | (Inr _, s') \<Rightarrow> (Redirect StatusFound ''/dashboard/mqtt-auth'', s'))))"

definition MQTTAuthDelete ::
  "'s Backend option \<Rightarrow> string \<Rightarrow> 's \<Rightarrow> mqttAuthPageData response \<times> 's" where
  "MQTTAuthDelete B subject s =
     (case B of
        None \<Rightarrow> (HttpError StatusServiceUnavailable ''backend not configured'', s)
      | Some b \<Rightarrow>
          if subject = [] then (HttpError StatusBadRequest ''subject required'', s)
          else (case BDeleteUser b subject s of
                  (Inl MErrNotFound, s') \<Rightarrow> (NotFound, s')
                | (Inl e, s') \<Rightarrow> (HttpError StatusInternalServerError [], s')
                | (Inr _, s') \<Rightarrow> (Redirect StatusFound ''/dashboard/mqtt-auth'', s')))"

record mqttACLRow =
  aw_ID :: string
  aw_Subject :: string
  aw_Topic :: string
  aw_Access :: string
  aw_AccessN :: int

record mqttACLPageData =
  lp_Error :: page_error
  lp_Configured :: bool
  lp_BackendKind :: string
  lp_ACLMode :: string
  lp_SubjectFilter :: string
  lp_Items :: "mqttACLRow list"

definition renderMQTTACLPage ::
  "'s Backend option \<Rightarrow> form_values \<Rightarrow> 's \<Rightarrow> page_error \<Rightarrow> mqttACLPageData response" where
  "renderMQTTACLPage B query s errMsg =
     (let subjectFilter = TrimSpace (query ''subject'') in
      case B of
        None \<Rightarrow> Render StatusOK \<lparr>lp_Error = errMsg, lp_Configured = False, lp_BackendKind = [],
                  lp_ACLMode = [], lp_SubjectFilter = subjectFilter, lp_Items = []\<rparr>
      | Some b \<Rightarrow>
          let page = \<lparr>lp_Error = errMsg, lp_Configured = True, lp_BackendKind = Kind b,
                lp_ACLMode = AuthMode_String (Mode b), lp_SubjectFilter = subjectFilter,
                lp_Items = []\<rparr>
          in (case BRules b subjectFilter s of
                Inl e \<Rightarrow> Render StatusOK (page\<lparr>lp_Error := (''List failed: '', Some e)\<rparr>)
              | Inr rules \<Rightarrow>
                  Render StatusOK (page\<lparr>lp_Items :=
                    map (\<lambda>ru. \<lparr>aw_ID = ar_ID ru, aw_Subject = ar_Subject ru, aw_Topic = ar_Topic ru,
                           aw_Access = Access_String (ar_Access ru), aw_AccessN = int (ar_Access ru)\<rparr>)
                      rules\<rparr>)))"

definition MQTTACLList :: "'s Backend option \<Rightarrow> form_values \<Rightarrow> 's \<Rightarrow> mqttACLPageData response" where
  "MQTTACLList B query s = renderMQTTACLPage B query s no_error"

definition MQTTACLCreate ::
  "'s Backend option \<Rightarrow> form_values \<Rightarrow> form_values \<Rightarrow> 's \<Rightarrow> mqttACLPageData response \<times> 's" where
  "MQTTACLCreate B query form s =
     (case B of
        None \<Rightarrow> (renderMQTTACLPage B query s (''Backend not configured.'', None), s)
      | Some b \<Rightarrow>
          let subject = TrimSpace (form ''subject''); topic = TrimSpace (form ''topic'')
          in (case Atoi (form ''access'') of
                (access, err) \<Rightarrow>
                  if err \<noteq> None \<or> access < 0 \<or> access > 3
                  then (renderMQTTACLPage B query s (''Invalid access value (must be 0-3).'', None), s)
                  else if subject = [] \<or> topic = []
                  then (renderMQTTACLPage B query s (''Subject and topic are required.'', None), s)
                  else (case BPutRule b \<lparr>ar_ID = [], ar_Subject = subject, ar_Topic = topic,
                              ar_Access = to_uint8 access\<rparr> s of
                          (Inl e, s') \<Rightarrow>
                            (renderMQTTACLPage B query s' (''Create failed: '', Some e), s')
                        | (Inr _, s') \<Rightarrow> (Redirect StatusFound ''/dashboard/mqtt-acl'', s'))))"

definition MQTTACLDelete ::
  "'s Backend option \<Rightarrow> string \<Rightarrow> 's \<Rightarrow> mqttACLPageData response \<times> 's" where
  "MQTTACLDelete B i s =
     (case B of
        None \<Rightarrow> (HttpError StatusServiceUnavailable ''backend not configured'', s)
      | Some b \<Rightarrow>
          if i = [] then (HttpError StatusBadRequest ''id required'', s)
          else (case BDeleteRule b i s of
                  (Inl MErrNotFound, s') \<Rightarrow> (NotFound, s')
                | (Inl e, s') \<Rightarrow> (HttpError StatusInternalServerError [], s')
                | (Inr _, s') \<Rightarrow> (Redirect StatusFound ''/dashboard/mqtt-acl'', s')))"

section \<open>What the pages do to a backend\<close>

context mqtt_backend
begin

lemma toggle_effect:
  assumes "inv s" "clean n" "MQTTAuthToggle (Some B) n s = (Redirect code url, s')"
  shows "\<exists>a pw. users s n = Some (a, pw) \<and> users s' = (users s)(n \<mapsto> (\<not> a, pw)) \<and> rules s' = rules s \<and> inv s'"
proof -
  obtain u where u: "BGetUser B n s = Inr u"
    and p: "BPutUser B \<lparr>mu_Subject = n, mu_Allow = \<not> mu_Allow u\<rparr> [] s = (Inr (), s')"
    using assms(3)
    by (auto simp: MQTTAuthToggle_def split: if_splits sum.splits prod.splits mqtt_error.splits)
  obtain pw where "users s n = Some (mu_Allow u, pw)" using GetUser_Inr [OF assms(1) u] by blast
  with PutUser_Inr [OF assms(1) _ p] assms(2) show ?thesis by auto
qed

lemma delete_user_effect:
  assumes "inv s" "MQTTAuthDelete (Some B) n s = (Redirect code url, s')"
  shows "users s' n = None \<and> (\<forall>m. m \<noteq> n \<longrightarrow> users s' m = users s m)
    \<and> (\<forall>k v. rules s' k = Some v \<longrightarrow> fst v \<noteq> n) \<and> (\<forall>k v. rules s k = Some v \<and> fst v \<noteq> n \<longrightarrow> rules s' k = Some v)"
proof -
  have "BDeleteUser B n s = (Inr (), s')"
    using assms(2) by (auto simp: MQTTAuthDelete_def split: if_splits sum.splits prod.splits mqtt_error.splits)
  from DeleteUser_Inr [OF assms(1) this] show ?thesis by (auto split: option.splits if_splits)
qed

lemma create_rule_effect:
  assumes "inv s" "clean (TrimSpace (form ''subject''))" "MQTTACLCreate (Some B) query form s = (Redirect code url, s')"
  shows "\<exists>k a. 0 \<le> a \<and> a \<le> 3 \<and> Atoi (form ''access'') = (a, None)
    \<and> rules s' = (rules s)(k \<mapsto> (TrimSpace (form ''subject''), TrimSpace (form ''topic''), nat a))
    \<and> users s' = users s \<and> inv s'"
proof -
  obtain a i where a: "Atoi (form ''access'') = (a, None)" "0 \<le> a" "a \<le> 3"
    and p: "BPutRule B \<lparr>ar_ID = [], ar_Subject = TrimSpace (form ''subject''),
      ar_Topic = TrimSpace (form ''topic''), ar_Access = to_uint8 a\<rparr> s = (Inr i, s')"
    using assms(3)
    by (auto simp: MQTTACLCreate_def Let_def renderMQTTACLPage_def not_less
        split: if_splits sum.splits prod.splits)
  moreover have "to_uint8 a = nat a" "nat a < 256" using a by (simp_all add: to_uint8_def)
  ultimately show ?thesis using PutRule_Inr [OF assms(1) _ _ _ p] assms(2) by auto
qed

end

section \<open>Properties\<close>

text \<open>
  Disabling a user does not touch the password: over any backend that meets the contract, a
  successful toggle of a subject changes that subject's right to connect to its opposite and nothing
  else: the stored password, all other users and all access rules stay as they are.
\<close>

theorem mqtt_toggle_keeps_password:
  assumes "mqtt_backend B users rules resolve clean hash ok" "ok s" "clean n"
    and "MQTTAuthToggle (Some B) n s = (Redirect code url, s')"
  shows "\<exists>a pw. users s n = Some (a, pw) \<and> users s' = (users s)(n \<mapsto> (\<not> a, pw)) \<and> rules s' = rules s"
  using mqtt_backend.toggle_effect [OF assms] by blast

definition demo_ledger :: "unit mfile" where
  "demo_ledger = \<lparr>mf_doc = LDoc \<lparr>lg_Users = Some [(''dev1'', \<lparr>rl_Username = ''dev1'', rl_Password = ''pw'',
     rl_ACL = Some [(''a/b'', 3)], rl_Disallow = False\<rparr>)], lg_rest = ()\<rparr>, mf_empty = (), mf_save_ok = True\<rparr>"

definition demo_config :: Config where
  "demo_config = \<lparr>cf_Kind = ''file'', cf_Mode = 1, cf_ACLMode = 1, cf_HashType = 0, cf_HashKey = [],
     cf_File = Some \<lparr>fc_Path = ''/l.yml''\<rparr>, cf_Redis = None, cf_SQL = None\<rparr>"

definition demo_lib :: hash_lib where
  "demo_lib = \<lparr>pa_Bcrypt = (\<lambda>p. p), pa_Md5 = (\<lambda>p. p), pa_Sha1 = (\<lambda>p. p), pa_Sha256 = (\<lambda>p. p),
     pa_Sha512 = (\<lambda>p. p), pa_HmacSha1 = (\<lambda>p k. k @ p), pa_HmacSha256 = (\<lambda>p k. k @ p),
     pa_HmacSha512 = (\<lambda>p k. k @ p), pa_CompareHash = (\<lambda>h p k t. h = p)\<rparr>"

lemma demo_ledger_inv: "mf_inv demo_ledger" "clean_subject ''dev1''"
  by (simp_all add: mf_inv_def demo_ledger_def ledger_def mf_load_def ledger_wf_def clean_subject_def
      aclIDSep_def acl_of_def)

theorem mqtt_toggle_keeps_password_witness:
  "\<exists>a pw. mf_users demo_ledger ''dev1'' = Some (a, pw)
     \<and> mf_users (snd (MQTTAuthToggle (Some (fileBackend demo_lib demo_config)) ''dev1'' demo_ledger))
       = (mf_users demo_ledger)(''dev1'' \<mapsto> (\<not> a, pw))"
proof -
  let ?r = "MQTTAuthToggle (Some (fileBackend demo_lib demo_config)) ''dev1'' demo_ledger"
  have "fst ?r = Redirect StatusFound ''/dashboard/mqtt-auth''"
    by (simp add: MQTTAuthToggle_def mf_GetUser_def mf_PutUser_def mf_save_def mf_load_def demo_ledger_def Let_def)
  then have "?r = (Redirect StatusFound ''/dashboard/mqtt-auth'', snd ?r)" by (simp add: prod_eq_iff)
  from mqtt_toggle_keeps_password [OF mf.mqtt_backend_axioms demo_ledger_inv this] show ?thesis by blast
qed



text \<open>
  The access page writes what it was given: over any backend that meets the contract, a form
  accepted by \<open>MQTTACLCreate\<close> had an access value from 0 to 3, and the backend then holds exactly one
  more or one changed rule, with the trimmed subject, the trimmed topic and that value.
\<close>

theorem mqtt_create_rule_correct:
  assumes "mqtt_backend B users rules resolve clean hash ok" "ok s" "clean (TrimSpace (form ''subject''))"
    and "MQTTACLCreate (Some B) query form s = (Redirect code url, s')"
  shows "\<exists>k a. 0 \<le> a \<and> a \<le> 3 \<and> Atoi (form ''access'') = (a, None)
    \<and> rules s' = (rules s)(k \<mapsto> (TrimSpace (form ''subject''), TrimSpace (form ''topic''), nat a))
    \<and> users s' = users s"
  using mqtt_backend.create_rule_effect [OF assms] by blast

definition demo_form :: form_values where
  "demo_form k = (if k = ''subject'' then ''dev1'' else if k = ''topic'' then ''x'' else if k = ''access'' then ''2'' else [])"

theorem mqtt_create_rule_correct_witness:
  "\<exists>k. mf_rules (snd (MQTTACLCreate (Some (fileBackend demo_lib demo_config)) (\<lambda>_. []) demo_form demo_ledger))
     = (mf_rules demo_ledger)(k \<mapsto> (''dev1'', ''x'', 2))"
proof -
  let ?r = "MQTTACLCreate (Some (fileBackend demo_lib demo_config)) (\<lambda>_. []) demo_form demo_ledger"
  have t: "TrimSpace (demo_form ''subject'') = ''dev1''" "TrimSpace (demo_form ''topic'') = ''x''"
    by (simp_all add: demo_form_def TrimSpace_id visible_def)
  have t': "Atoi (demo_form ''access'') = (2, None)" by code_simp
  have "fst ?r = Redirect StatusFound ''/dashboard/mqtt-acl''"
    using t t' by (simp add: MQTTACLCreate_def mf_PutRule_def mf_save_def mf_load_def demo_ledger_def Let_def)
  then have r: "?r = (Redirect StatusFound ''/dashboard/mqtt-acl'', snd ?r)" by (simp add: prod_eq_iff)
  have "clean_subject (TrimSpace (demo_form ''subject''))" unfolding t(1) by (rule demo_ledger_inv(2))
  from mqtt_create_rule_correct [OF mf.mqtt_backend_axioms demo_ledger_inv(1) this r] t t' show ?thesis by auto
qed

end
