(* ===== verification/RedisCluster.thy ===== *)
theory RedisCluster
  imports RedisStore Users
begin

text \<open>
  What several nodes on one redis get from \<open>RedisStore\<close> and \<open>EnsureSecret\<close>.
\<close>

text \<open>An empty server.\<close>

definition mem_empty :: mem_state where
  "mem_empty = \<lparr>ms_hash = [], ms_plain = []\<rparr>"

definition demo_env :: auth_env where
  "demo_env = \<lparr>clock = 0, bcrypt_generate = Some, bcrypt_compare = (=), initial_password = [],
     rand_bytes = (\<lambda>n. Some (replicate n (CHR ''a'')))\<rparr>"

section \<open>Two nodes seeding at once\<close>

text \<open>Both nodes have found the hash empty before either writes.\<close>

definition seed_race ::
  "'s RedisStore \<Rightarrow> (User \<Rightarrow> bytes) \<Rightarrow> auth_env \<Rightarrow> auth_env \<Rightarrow> string \<Rightarrow> 's
     \<Rightarrow> (auth_error, string) result \<times> (auth_error, string) result \<times> 's" where
  "seed_race r enc e1 e2 username s =
     (let (x1, s1) = rs_seed_write r enc e1 username s; (x2, s2) = rs_seed_write r enc e2 username s1
      in (x1, x2, s2))"

context redis_accounts
begin

lemma rs_seed_write_ok:
  assumes "rinv s" "rs_seed_write r enc e n s = (Inr pw, s')"
  obtains h where "rinv s'" "bcrypt_generate e pw = Some h"
    "rview s' = (rview s)(n \<mapsto> new_user n h RoleAdmin (Unix (clock e)))"
proof -
  obtain h where g: "bcrypt_generate e pw = Some h"
    and w: "hset_result (HSet (rs_Client r) (usersKey r) n (enc (new_user n h RoleAdmin (Unix (clock e)))) s) = (Inr (), s')"
    using assms(2) by (auto simp: rs_seed_write_def Let_def split: sum.splits option.splits prod.splits if_splits)
  from rview_write [OF assms(1) w] that g show ?thesis by (auto simp: new_user_def)
qed

lemmas rs_Authenticate_ok = Authenticate_Inr [unfolded RedisStore_sel]

end

context reliable_redis
begin

lemmas requests_keep_admin = account_run_keeps_admin

end

text \<open>A server with the account \<open>root\<close>, an administrator.\<close>

definition demo_redis :: mem_state where
  "demo_redis = mem_empty\<lparr>ms_hash := [(usersKey mem_store, [(''root'', plain_enc (new_user ''root'' ''hash'' RoleAdmin 0))])]\<rparr>"

lemma demo_redis_view:
  "rs_inv mem_store ms_hashes plain_dec demo_redis"
  "admins (rs_view mem_store ms_hashes plain_dec demo_redis) \<noteq> {}"
  by (auto simp: rs_inv_def rs_view_def admins_def ms_hashes_def ms_lookup_def demo_redis_def plain_dec_enc new_user_def
      split: if_splits)

section \<open>Properties\<close>

text \<open>
  C10. Every node ends up with the same session secret: in any interleaving of the commands of any
  number of nodes running \<open>EnsureSecret\<close> on one redis (failing commands included), two nodes that
  return a secret return the same one, the one already stored if there was one, and it is the
  secret in redis, so that a later call that succeeds returns it too.
\<close>

theorem secret_agreement:
  assumes "redis_server R hash plain" "secret_run R buf key s0 pcs s"
    and "pcs i = SecretDone (Inr a)"
  shows "(\<forall>j b. pcs j = SecretDone (Inr b) \<longrightarrow> b = a)
    \<and> (\<forall>w. plain s0 key = Some w \<longrightarrow> w = a)
    \<and> (\<forall>fresh c s'. EnsureSecret (Some R) fresh key s = (Inr c, s') \<longrightarrow> c = a \<and> s' = s)"
proof -
  have ag: "plain s key = Some b" if "pcs j = SecretDone (Inr b)" for j b
    using redis_server.secret_run_agrees [OF assms(1,2)] that by blast
  then have pa: "plain s key = Some a" using assms(3) by blast
  have "c = a \<and> s' = s" if "EnsureSecret (Some R) fresh key s = (Inr c, s')" for fresh c s'
    using that pa redis_server.Get_ok [OF assms(1), of key s] redis_server.Get_nil [OF assms(1), of key s]
    by (auto simp: EnsureSecret_def split: if_splits reply.splits)
  then show ?thesis using ag pa redis_server.secret_run_agrees [OF assms(1,2)] by fastforce
qed

text \<open>Two nodes, both of which find no secret before the first one writes.\<close>

definition race_state :: mem_state where
  "race_state = \<lparr>ms_hash = [], ms_plain = [(''k'', ''B'')]\<rparr>"

lemma secret_race_run:
  "secret_run mem_redis (\<lambda>i. Some (if i = 0 then ''A'' else ''B'')) ''k'' mem_empty
     ((\<lambda>_. SecretStart)(0 := SecretAbsent, 1 := SecretAbsent, 1 := SecretDone (Inr ''B''),
       0 := SecretLost, 0 := SecretDone (Inr ''B''))) race_state"
proof -
  let ?buf = "\<lambda>i::nat. Some (if i = 0 then ''A'' else ''B'')"
  let ?c = "\<lambda>i. secret_command mem_redis (?buf i) ''k''"
  have 1: "?c i SecretStart mem_empty = (SecretAbsent, mem_empty)"
    "?c 1 SecretAbsent mem_empty = (SecretDone (Inr ''B''), race_state)"
    "?c 0 SecretAbsent race_state = (SecretLost, race_state)"
    "?c 0 SecretLost race_state = (SecretDone (Inr ''B''), race_state)" for i
    by (simp_all add: mem_redis_def mem_empty_def race_state_def)
  have "secret_run mem_redis ?buf ''k'' mem_empty ((\<lambda>_. SecretStart)(0 := SecretAbsent)) mem_empty"
    using secret_run.command [OF secret_run.start, of mem_redis ?buf 0 "''k''" mem_empty SecretAbsent mem_empty] 1(1) [of 0]
    by simp
  from secret_run.command [OF this, of 1] 1
  have "secret_run mem_redis ?buf ''k'' mem_empty ((\<lambda>_. SecretStart)(0 := SecretAbsent, 1 := SecretAbsent)) mem_empty"
    by simp
  from secret_run.command [OF this, of 1] 1
  have "secret_run mem_redis ?buf ''k'' mem_empty
      ((\<lambda>_. SecretStart)(0 := SecretAbsent, 1 := SecretAbsent, 1 := SecretDone (Inr ''B''))) race_state"
    by simp
  from secret_run.command [OF this, of 0] 1
  have "secret_run mem_redis ?buf ''k'' mem_empty
      ((\<lambda>_. SecretStart)(0 := SecretAbsent, 1 := SecretAbsent, 1 := SecretDone (Inr ''B''), 0 := SecretLost)) race_state"
    by simp
  from secret_run.command [OF this, of 0] 1 show ?thesis by simp
qed

theorem secret_agreement_witness:
  "\<exists>c. EnsureSecret (Some mem_redis) None ''k'' race_state = (Inr c, race_state) \<and> c = ''B''"
proof -
  obtain c where "EnsureSecret (Some mem_redis) None ''k'' race_state = (Inr c, race_state)"
    by (simp add: EnsureSecret_def mem_redis_def race_state_def)
  with secret_agreement [OF mem.redis_server_axioms secret_race_run, of 0 "''B''"] show ?thesis by simp
qed

section \<open>Nodes get their secret\<close>

text \<open>A schedule is the list of the nodes that run a command, in order.\<close>

fun secret_schedule ::
  "'s redis \<Rightarrow> (nat \<Rightarrow> bytes option) \<Rightarrow> string \<Rightarrow> nat list \<Rightarrow> (nat \<Rightarrow> secret_pc) \<Rightarrow> 's \<Rightarrow> (nat \<Rightarrow> secret_pc) \<times> 's" where
  "secret_schedule R buf key [] pcs s = (pcs, s)"
| "secret_schedule R buf key (i # is) pcs s =
     (case secret_command R (buf i) key (pcs i) s of
        (p, s') \<Rightarrow> secret_schedule R buf key is (pcs(i := p)) s')"

text \<open>How many commands a node has left at most.\<close>

fun commands_left :: "secret_pc \<Rightarrow> nat" where
  "commands_left SecretStart = 3"
| "commands_left SecretAbsent = 2"
| "commands_left SecretLost = 1"
| "commands_left (SecretDone x) = 0"

definition on_track :: "bytes option \<Rightarrow> secret_pc \<Rightarrow> bool" where
  "on_track stored p = (case p of SecretLost \<Rightarrow> stored \<noteq> None | SecretDone x \<Rightarrow> (\<exists>b. x = Inr b \<and> stored = Some b) | _ \<Rightarrow> True)"

lemma secret_command_on_track:
  assumes "redis_server R hash plain" "RGet R key s \<noteq> RErr" "\<And>b. \<exists>ok. fst (SetNX R key b s) = ROk ok" "rand \<noteq> None"
    and "secret_command R rand key p s = (p', s')" "on_track (plain s key) p"
  shows "on_track (plain s' key) p'" "commands_left p' \<le> commands_left p - 1"
proof -
  note get = redis_server.Get_ok [OF assms(1)] redis_server.Get_nil [OF assms(1)]
  note set = redis_server.SetNX_true [OF assms(1)] redis_server.SetNX_false [OF assms(1)]
  have "on_track (plain s' key) p' \<and> commands_left p' \<le> commands_left p - 1"
  proof (cases p)
    case SecretStart
    then show ?thesis using assms(2,5) get [of key s] by (auto simp: on_track_def split: reply.splits)
  next
    case SecretAbsent
    obtain b where b: "rand = Some b" using assms(4) by blast
    obtain ok where x: "SetNX R key b s = (ROk ok, s')" and p': "p' = (if ok then SecretDone (Inr b) else SecretLost)"
      using assms(3) [of b] assms(5) SecretAbsent b by (auto split: reply.splits prod.splits)
    then show ?thesis using set [of key b s s'] SecretAbsent by (cases ok) (auto simp: on_track_def)
  next
    case SecretLost
    then show ?thesis using assms(2,5,6) get [of key s] by (auto simp: on_track_def split: reply.splits)
  next
    case (SecretDone x)
    then show ?thesis using assms(5,6) by auto
  qed
  then show "on_track (plain s' key) p'" "commands_left p' \<le> commands_left p - 1" by simp_all
qed

lemma on_track_stored:
  "on_track stored p \<Longrightarrow> (\<And>w. stored = Some w \<Longrightarrow> stored' = Some w) \<Longrightarrow> on_track stored' p"
  by (auto simp: on_track_def split: secret_pc.splits)

lemma secret_schedule_left:
  assumes "redis_server R hash plain" "\<And>s. RGet R key s \<noteq> RErr" "\<And>b s. \<exists>ok. fst (SetNX R key b s) = ROk ok"
    and "\<And>j. rand j \<noteq> None" "secret_schedule R rand key is pcs s = (pcs', s')" "\<And>j. on_track (plain s key) (pcs j)"
  shows "on_track (plain s' key) (pcs' i) \<and> commands_left (pcs' i) \<le> commands_left (pcs i) - count_list is i"
  using assms(5,6)
proof (induction "is" arbitrary: pcs s)
  case (Cons j js)
  obtain p s1 where c: "secret_command R (rand j) key (pcs j) s = (p, s1)" by force
  note step = secret_command_on_track [OF assms(1,2,3,4) c Cons.prems(2)]
  have keep: "plain s key = Some w \<Longrightarrow> plain s1 key = Some w" for w
    using redis_server.secret_command_keeps [OF assms(1) c] .
  have sch: "secret_schedule R rand key js (pcs(j := p)) s1 = (pcs', s')" using Cons.prems(1) c by simp
  have tr: "on_track (plain s1 key) ((pcs(j := p)) k)" for k
    using step(1) on_track_stored [OF Cons.prems(2) keep] by simp
  from Cons.IH [OF sch tr] show ?case using step(2) by (auto split: if_splits)
qed simp

text \<open>
  C11. Every node gets its secret. On a redis that answers, and with random bytes at hand, a node that
  has run three of its own commands is done and returns a secret, however the commands of all the
  nodes are interleaved; no node can hold it up, even one that stops half way. All such nodes return
  the secret that redis then holds.
\<close>

theorem secret_reached:
  assumes "redis_server R hash plain" "\<And>s. RGet R key s \<noteq> RErr" "\<And>b s. \<exists>ok. fst (SetNX R key b s) = ROk ok"
    and "\<And>j. rand j \<noteq> None" "secret_schedule R rand key is (\<lambda>_. SecretStart) s0 = (pcs, s)" "count_list is i \<ge> 3"
  shows "\<exists>b. pcs i = SecretDone (Inr b) \<and> plain s key = Some b
    \<and> (\<forall>j. count_list is j \<ge> 3 \<longrightarrow> pcs j = SecretDone (Inr b))"
proof -
  have fin: "\<exists>b. pcs j = SecretDone (Inr b) \<and> plain s key = Some b" if "count_list is j \<ge> 3" for j
  proof -
    have "on_track (plain s key) (pcs j) \<and> commands_left (pcs j) \<le> 3 - count_list is j"
      using secret_schedule_left [OF assms(1-5), of j] by (simp add: on_track_def)
    then show ?thesis using that by (cases "pcs j") (auto simp: on_track_def)
  qed
  show ?thesis using fin [OF assms(6)] fin by fastforce
qed

theorem secret_reached_witness:
  "\<exists>b. fst (secret_schedule mem_redis (\<lambda>i. Some [char_of i]) ''k'' [0, 1, 0, 2, 0, 1, 1] (\<lambda>_. SecretStart) mem_empty) 1
     = SecretDone (Inr b)"
proof -
  let ?r = "secret_schedule mem_redis (\<lambda>i. Some [char_of i]) ''k'' [0, 1, 0, 2, 0, 1, 1] (\<lambda>_. SecretStart) mem_empty"
  have 1: "RGet mem_redis ''k'' s \<noteq> RErr" "\<exists>ok. fst (SetNX mem_redis ''k'' b s) = ROk ok" for b s
    by (auto simp: mem_redis_def split: option.splits)
  obtain pcs s where "?r = (pcs, s)" by force
  from secret_reached [OF mem.redis_server_axioms 1 _ this, of 1] this show ?thesis by auto
qed



text \<open>
  \<open>Seed\<close> is not atomic: when two nodes find the hash empty and then both write, both return a
  password to be logged, but only the second one is stored. The first one authenticates only where
  it matches the hash made of the second.
\<close>

theorem seed_race_loses_password:
  assumes "redis_accounts r hash plain enc dec" "rs_inv r hash dec s"
    and "seed_race r enc e1 e2 n s = (Inr pw1, Inr pw2, s')"
    and "rs_Authenticate r dec e n pw s' = Inr u"
  shows "\<exists>h2. bcrypt_generate e2 pw2 = Some h2 \<and> Hash u = h2 \<and> bcrypt_compare e h2 pw"
proof -
  obtain s1 where w: "rs_seed_write r enc e1 n s = (Inr pw1, s1)" "rs_seed_write r enc e2 n s1 = (Inr pw2, s')"
    using assms(3) by (auto simp: seed_race_def Let_def split: prod.splits)
  have i1: "rs_inv r hash dec s1" using redis_accounts.rs_seed_write_ok [OF assms(1,2) w(1)] by blast
  obtain h2 where h2: "rs_inv r hash dec s'" "bcrypt_generate e2 pw2 = Some h2"
    "rs_view r hash dec s' n = Some (new_user n h2 RoleAdmin (Unix (clock e2)))"
    using redis_accounts.rs_seed_write_ok [OF assms(1) i1 w(2)] by (metis fun_upd_same)
  from redis_accounts.rs_Authenticate_ok [OF assms(1) h2(1) assms(4)] h2(2,3)
  show ?thesis by (auto simp: new_user_def)
qed

text \<open>An empty server, seeded by a node with the password \<open>aaaa\<close> and by one with \<open>bbbb\<close>.\<close>

definition race_env :: "string \<Rightarrow> auth_env" where
  "race_env pw = demo_env\<lparr>initial_password := pw\<rparr>"

definition seeded :: "string \<Rightarrow> mem_state" where
  "seeded pw = mem_empty\<lparr>ms_hash := [(usersKey mem_store,
     [(''admin'', plain_enc (new_user ''admin'' pw RoleAdmin (Unix 0)))])]\<rparr>"

lemma rs_seed_write_mem:
  assumes "pw \<noteq> []" "s = mem_empty \<or> (\<exists>pw'. s = seeded pw')"
  shows "rs_seed_write mem_store plain_enc (race_env pw) ''admin'' s = (Inr pw, seeded pw)"
  using assms by (auto simp: rs_seed_write_def race_env_def demo_env_def randomPassword_def hset_result_def
      mem_redis_def seeded_def mem_empty_def ms_lookup_def)

lemma mem_empty_inv: "rs_inv mem_store ms_hashes plain_dec mem_empty"
  by (simp add: rs_inv_def ms_hashes_def ms_lookup_def mem_empty_def)

lemma seed_race_mem:
  "seed_race mem_store plain_enc (race_env ''aaaa'') (race_env ''bbbb'') ''admin'' mem_empty
     = (Inr ''aaaa'', Inr ''bbbb'', seeded ''bbbb'')"
proof -
  have "rs_seed_write mem_store plain_enc (race_env ''aaaa'') ''admin'' mem_empty = (Inr ''aaaa'', seeded ''aaaa'')"
    "rs_seed_write mem_store plain_enc (race_env ''bbbb'') ''admin'' (seeded ''aaaa'') = (Inr ''bbbb'', seeded ''bbbb'')"
    using rs_seed_write_mem [of "''aaaa''" mem_empty] rs_seed_write_mem [of "''bbbb''" "seeded ''aaaa''"] by blast+
  then show ?thesis by (simp add: seed_race_def)
qed

lemma seeded_Authenticate:
  "rs_Authenticate mem_store plain_dec (demo_env\<lparr>clock := 62135596800000000000\<rparr>) ''admin'' pw (seeded pw) = Inr (new_user ''admin'' pw RoleAdmin (Unix 0))"
  by (simp add: rs_Authenticate_def rs_GetUser_def mem_redis_def ms_lookup_def seeded_def plain_dec_enc
      new_user_def zero_User_def demo_env_def Unix_def)

theorem seed_race_loses_password_witness:
  "\<exists>h2. bcrypt_generate (race_env ''bbbb'') ''bbbb'' = Some h2 \<and> bcrypt_compare (demo_env\<lparr>clock := 62135596800000000000\<rparr>) h2 ''bbbb''"
  using seed_race_loses_password [OF memr.redis_accounts_axioms mem_empty_inv seed_race_mem seeded_Authenticate [of "''bbbb''"]]
  by blast

end
