(* ===== verification/Events.thy ===== *)
theory Events
  imports Sse Http Overview Html
begin

text \<open>
  The event stream page, \<open>dashboard/handlers/events.go\<close>: what the handler writes to a browser for
  the events its channel delivers, as one \<open>text/event-stream\<close> frame each, and the fragment of HTML
  in a frame. \<open>json.Unmarshal\<close> into \<open>map[string]any\<close> is a parameter; its error is ignored by the
  code, so it is a total function to the entries the map then has, with an absent key for nil.
\<close>

section \<open>One event\<close>

datatype any = AStr string | ANum rat | AOther

definition strOf :: "(string \<rightharpoonup> any) \<Rightarrow> string \<Rightarrow> string" where
  "strOf m k = (case m k of Some (AStr v) \<Rightarrow> v | _ \<Rightarrow> [])"

text \<open>The type assertion \<open>v, _ := m[k].(float64)\<close>.\<close>

definition floatOf :: "(string \<rightharpoonup> any) \<Rightarrow> string \<Rightarrow> rat" where
  "floatOf m k = (case m k of Some (ANum v) \<Rightarrow> v | _ \<Rightarrow> 0)"

definition eventIcon :: "string \<Rightarrow> string" where
  "eventIcon t =
     (if t = ''client.connected'' then ''+''
      else if t = ''client.disconnected'' then ''-''
      else if t = ''message.published'' then ''>''
      else if t = ''subscription.added'' then ''*''
      else if t = ''subscription.removed'' then ''~''
      else ''.'')"

definition eventTone :: "string \<Rightarrow> string" where
  "eventTone t =
     (if t = ''client.connected'' \<or> t = ''subscription.added'' then ''text-emerald-700 dark:text-emerald-300''
      else if t = ''client.disconnected'' \<or> t = ''subscription.removed'' then ''text-rose-700 dark:text-rose-300''
      else [])"

definition eventHeadline :: "string \<Rightarrow> (string \<rightharpoonup> any) \<Rightarrow> string" where
  "eventHeadline t p =
     (if t = ''client.connected'' then strOf p ''client_id'' @ '' connected''
      else if t = ''client.disconnected'' then strOf p ''client_id'' @ '' disconnected''
      else if t = ''message.published'' then strOf p ''client_id'' @ '' -> '' @ strOf p ''topic''
      else if t = ''subscription.added'' then strOf p ''client_id'' @ '' sub '' @ strOf p ''topic''
      else if t = ''subscription.removed'' then strOf p ''client_id'' @ '' unsub '' @ strOf p ''topic''
      else t)"

text \<open>The verb \<open>%d\<close> of \<open>fmt\<close> prints in decimal; \<open>int(v)\<close> truncates (Go leaves it open what it gives
  outside the range of \<open>int\<close>, which no quality of service and no payload size has).\<close>

definition eventDetail :: "string \<Rightarrow> (string \<rightharpoonup> any) \<Rightarrow> string" where
  "eventDetail t p =
     (if t = ''client.connected'' then strOf p ''remote''
      else if t = ''client.disconnected'' then
        (let reason = strOf p ''reason'' in if reason \<noteq> [] then reason else [])
      else if t = ''message.published'' then
        (let size = floatOf p ''payload_size''; qos = floatOf p ''qos''
         in ''qos='' @ FormatInt (trunc qos) @ '' size='' @ FormatInt (trunc size) @ ''B'')
      else [])"

definition renderEventHTML :: "(bytes \<Rightarrow> string \<rightharpoonup> any) \<Rightarrow> Event \<Rightarrow> string" where
  "renderEventHTML unmarshal ev =
     (let summary = unmarshal (Payload ev);
          icon = eventIcon (Type ev);
          tone = eventTone (Type ev);
          headline = EscapeString (eventHeadline (Type ev) summary);
          detail = EscapeString (eventDetail (Type ev) summary);
          node = EscapeString (Node ev);
          ts = FormatInt (TS ev)
      in ''<li class='' @ dq @ ''px-3 py-2 text-xs flex items-start gap-2 '' @ tone @ dq @ ''>''
         @ ''<span class='' @ dq @ ''font-mono'' @ dq @ ''>'' @ icon @ ''</span>''
         @ ''<span class='' @ dq @ ''flex-1'' @ dq @ ''><span class='' @ dq @ ''font-medium'' @ dq @ ''>'' @ headline
         @ ''</span> <span class='' @ dq @ ''text-slate-500 dark:text-slate-400'' @ dq @ ''>'' @ detail @ ''</span></span>''
         @ ''<span class='' @ dq @ ''text-slate-400'' @ dq @ '' title='' @ dq @ ''ts='' @ ts @ '' node='' @ node @ dq @ ''>''
         @ node @ ''</span>''
         @ ''</li>'')"

section \<open>The stream\<close>

abbreviation LF :: char where
  "LF \<equiv> CHR 0x0A"

abbreviation CR :: char where
  "CR \<equiv> CHR 0x0D"

definition stream_greeting :: string where
  "stream_greeting = '': comqtt dashboard events'' @ [LF, LF]"

definition event_frame :: "bool \<Rightarrow> (Event \<Rightarrow> string) \<Rightarrow> (bytes \<Rightarrow> string \<rightharpoonup> any) \<Rightarrow> Event \<Rightarrow> string" where
  "event_frame asJSON marshal unmarshal ev =
     (let payload = (if asJSON then marshal ev else renderEventHTML unmarshal ev)
      in ''id: '' @ FormatInt (Seq ev) @ [LF] @ ''event: '' @ Type ev @ [LF] @ ''data: '' @ payload @ [LF, LF])"

text \<open>
  The handler while it runs: what it has written, its channel, and whether it has returned. The loop
  takes one of its two cases in a round; an open, empty channel blocks. Returning runs the deferred
  \<open>Unsubscribe\<close>. A response that cannot be flushed is refused before anything is subscribed.
\<close>

record stream =
  es_out :: string
  es_ch :: nat
  es_done :: bool

definition Events_start :: "bool \<Rightarrow> Hub \<Rightarrow> unit response + stream \<times> Hub" where
  "Events_start flusher h =
     (if \<not> flusher then Inl (HttpError StatusInternalServerError ''streaming unsupported'')
      else let (ch, h') = Subscribe h
           in Inr (\<lparr>es_out = stream_greeting, es_ch = ch, es_done = False\<rparr>, h'))"

definition Events_round ::
  "bool \<Rightarrow> (Event \<Rightarrow> string) \<Rightarrow> (bytes \<Rightarrow> string \<rightharpoonup> any) \<Rightarrow> bool \<Rightarrow> stream \<Rightarrow> Hub \<Rightarrow> stream \<times> Hub" where
  "Events_round asJSON marshal unmarshal ctxDone st h =
     (if es_done st then (st, h)
      else if ctxDone then (st\<lparr>es_done := True\<rparr>, Unsubscribe (es_ch st) h)
      else case buf (chans h (es_ch st)) of
        ev # _ \<Rightarrow> (st\<lparr>es_out := es_out st @ event_frame asJSON marshal unmarshal ev\<rparr>, receive (es_ch st) h)
      | [] \<Rightarrow> if isopen (chans h (es_ch st)) then (st, h)
             else (st\<lparr>es_done := True\<rparr>, Unsubscribe (es_ch st) h))"

section \<open>What a browser reads\<close>

lemma html_value_eventTone [simp]: "html_text InValue (eventTone y @ t) = html_text InValue t"
  by (rule html_value_skip) (auto simp: eventTone_def)

lemma html_text_eventIcon [simp]: "html_text InText (eventIcon y @ t) = eventIcon y @ html_text InText t"
  by (simp add: eventIcon_def)

text \<open>
  Whatever an event carries, a browser shows of its fragment exactly the icon, the headline, the
  detail and the node, character for character: nothing in a client identifier, a topic, a reason or
  a node name is taken for markup, and the quotes of the attributes are those of the code.
\<close>

theorem event_html_text:
  "html_text InText (renderEventHTML unmarshal ev) =
     eventIcon (Type ev) @ eventHeadline (Type ev) (unmarshal (Payload ev)) @ '' ''
     @ eventDetail (Type ev) (unmarshal (Payload ev)) @ Node ev"
  by (simp add: renderEventHTML_def Let_def)

text \<open>
  The parser of \<open>text/event-stream\<close> in a browser, from the HTML standard: lines end with CR LF, LF
  or CR, an unfinished line is dropped; a line that starts with a colon is a comment; a field's value
  loses one leading space; a blank line dispatches the message unless it has no data.
\<close>

fun sse_lines :: "bool \<Rightarrow> string \<Rightarrow> string \<Rightarrow> string list" where
  "sse_lines cr cur [] = []"
| "sse_lines cr cur (c # s) =
     (if c = LF then if cr then sse_lines False cur s else rev cur # sse_lines False [] s
      else if c = CR then rev cur # sse_lines True [] s
      else sse_lines False (c # cur) s)"

record message =
  m_id :: string
  m_event :: string
  m_data :: string

definition sse_field :: "string \<Rightarrow> string \<times> string" where
  "sse_field l =
     (case IndexByte l (CHR '':'') of
        None \<Rightarrow> (l, [])
      | Some i \<Rightarrow> (take i l, case drop (Suc i) l of CHR '' '' # v \<Rightarrow> v | v \<Rightarrow> v))"

definition sse_line :: "string \<Rightarrow> message \<Rightarrow> message" where
  "sse_line l b =
     (case sse_field l of (f, v) \<Rightarrow>
        if f = ''id'' then b\<lparr>m_id := v\<rparr>
        else if f = ''event'' then b\<lparr>m_event := v\<rparr>
        else if f = ''data'' then b\<lparr>m_data := m_data b @ v @ [LF]\<rparr>
        else b)"

fun sse_messages :: "message \<Rightarrow> string list \<Rightarrow> message list" where
  "sse_messages b [] = []"
| "sse_messages b (l # ls) =
     (if l = [] then
        (let b' = b\<lparr>m_event := [], m_data := []\<rparr> in
         if m_data b = [] then sse_messages b' ls
         else b\<lparr>m_event := (if m_event b = [] then ''message'' else m_event b), m_data := butlast (m_data b)\<rparr>
              # sse_messages b' ls)
      else sse_messages (sse_line l b) ls)"

definition browser_reads :: "string \<Rightarrow> message list" where
  "browser_reads s = sse_messages \<lparr>m_id = [], m_event = [], m_data = []\<rparr> (sse_lines False [] s)"

definition one_line :: "string \<Rightarrow> bool" where
  "one_line s \<longleftrightarrow> LF \<notin> set s \<and> CR \<notin> set s"

lemma one_line_simps [simp]:
  "one_line []" "one_line (c # s) \<longleftrightarrow> c \<noteq> LF \<and> c \<noteq> CR \<and> one_line s"
  "one_line (s @ t) \<longleftrightarrow> one_line s \<and> one_line t"
  by (auto simp: one_line_def)

lemma one_line_FormatInt [simp]: "one_line (FormatInt v)"
  by (auto simp: one_line_def is_digit_def dest: FormatInt_chars)

lemma one_line_EscapeString [simp]: "one_line (EscapeString s) \<longleftrightarrow> one_line s"
  by (induction s) (auto simp: EscapeString_def escape_char_def)

lemma sse_lines_line:
  "one_line s \<Longrightarrow> sse_lines False cur (s @ LF # t) = (rev cur @ s) # sse_lines False [] t"
  by (induction s arbitrary: cur) auto

lemma sse_lines_frame:
  assumes "one_line (Type ev)" "one_line (if asJSON then marshal ev else renderEventHTML unmarshal ev)"
  shows "sse_lines False [] (event_frame asJSON marshal unmarshal ev @ t) =
    [''id: '' @ FormatInt (Seq ev), ''event: '' @ Type ev,
     ''data: '' @ (if asJSON then marshal ev else renderEventHTML unmarshal ev), []] @ sse_lines False [] t"
  using assms by (cases asJSON) (simp_all add: event_frame_def Let_def sse_lines_line)

lemma sse_messages_frame:
  assumes "t \<noteq> []"
  shows "sse_messages \<lparr>m_id = i, m_event = [], m_data = []\<rparr>
      ([''id: '' @ n, ''event: '' @ t, ''data: '' @ v, []] @ ls) =
    \<lparr>m_id = n, m_event = t, m_data = v\<rparr> # sse_messages \<lparr>m_id = n, m_event = [], m_data = []\<rparr> ls"
  using assms by (simp add: sse_line_def sse_field_def Let_def)

text \<open>The message of an event, and that frames carry exactly their events.\<close>

definition message_of :: "bool \<Rightarrow> (Event \<Rightarrow> string) \<Rightarrow> (bytes \<Rightarrow> string \<rightharpoonup> any) \<Rightarrow> Event \<Rightarrow> message" where
  "message_of asJSON marshal unmarshal ev =
     \<lparr>m_id = FormatInt (Seq ev), m_event = Type ev,
      m_data = (if asJSON then marshal ev else renderEventHTML unmarshal ev)\<rparr>"

definition frame_safe :: "bool \<Rightarrow> (Event \<Rightarrow> string) \<Rightarrow> (bytes \<Rightarrow> string \<rightharpoonup> any) \<Rightarrow> Event \<Rightarrow> bool" where
  "frame_safe asJSON marshal unmarshal ev \<longleftrightarrow> Type ev \<noteq> [] \<and> one_line (Type ev)
     \<and> (if asJSON then one_line (marshal ev)
        else one_line (eventHeadline (Type ev) (unmarshal (Payload ev)))
          \<and> one_line (eventDetail (Type ev) (unmarshal (Payload ev))) \<and> one_line (Node ev))"

lemma one_line_tags [simp]: "one_line (eventTone t)" "one_line (eventIcon t)"
  by (simp_all add: eventTone_def eventIcon_def)

lemma frame_safe_one_line:
  assumes "frame_safe asJSON marshal unmarshal ev"
  shows "one_line (if asJSON then marshal ev else renderEventHTML unmarshal ev)"
  using assms by (simp add: frame_safe_def renderEventHTML_def Let_def)

lemma sse_messages_frames:
  assumes "\<forall>ev \<in> set evs. frame_safe asJSON marshal unmarshal ev"
  shows "sse_messages \<lparr>m_id = i, m_event = [], m_data = []\<rparr>
      (sse_lines False [] (concat (map (event_frame asJSON marshal unmarshal) evs))) =
    map (message_of asJSON marshal unmarshal) evs"
  using assms
proof (induction evs arbitrary: i)
  case (Cons ev evs)
  have "one_line (Type ev)" "Type ev \<noteq> []" using Cons.prems by (auto simp: frame_safe_def)
  with Cons.prems Cons.IH [of "FormatInt (Seq ev)"] show ?case
    by (simp add: sse_lines_frame frame_safe_one_line sse_messages_frame message_of_def del: append_Cons)
qed simp

lemma nat_digits_inject: "nat_digits m = nat_digits n \<Longrightarrow> m = n"
  by (metis digits_val_nat_digits of_nat_eq_iff)

lemma inj_FormatInt: "inj FormatInt"
proof (rule injI)
  fix v w assume e: "FormatInt v = FormatInt w"
  have "hd (nat_digits n) \<noteq> CHR ''-''" for n using hd_nat_digits [of n] by (auto simp: is_digit_def)
  then have n: "CHR ''-'' # s \<noteq> nat_digits n" for n s by (metis list.sel(1))
  show "v = w"
  proof (cases "v < 0"; cases "w < 0")
    assume "v < 0" "w < 0"
    with e show ?thesis by (auto simp: FormatInt_def dest: nat_digits_inject)
  next
    assume "\<not> v < 0" "\<not> w < 0"
    with e show ?thesis by (auto simp: FormatInt_def dest: nat_digits_inject)
  next
    assume "v < 0" "\<not> w < 0"
    with e have "CHR ''-'' # nat_digits (nat (- v)) = nat_digits (nat w)" by (simp add: FormatInt_def)
    with n show ?thesis by blast
  next
    assume "\<not> v < 0" "w < 0"
    with e have "CHR ''-'' # nat_digits (nat (- w)) = nat_digits (nat v)" unfolding FormatInt_def by metis
    with n show ?thesis by blast
  qed
qed

section \<open>The page on a running hub\<close>

text \<open>
  The handler beside every other goroutine of the hub: it starts on a reachable state, the others
  step, except that nobody else reads the handler's channel, and it takes rounds of its loop. To
  subscribe or return it needs the lock of the hub.
\<close>

inductive page_reach ::
  "nat \<Rightarrow> bool \<Rightarrow> (Event \<Rightarrow> string) \<Rightarrow> (bytes \<Rightarrow> string \<rightharpoonup> any) \<Rightarrow> stream \<Rightarrow> system \<Rightarrow> bool"
  for n asJSON marshal unmarshal where
  start: "hub_reach n \<sigma> \<Longrightarrow> \<not> read_locked \<sigma> \<Longrightarrow> Events_start True (hub \<sigma>) = Inr (st, h) \<Longrightarrow>
    page_reach n asJSON marshal unmarshal st (\<sigma>\<lparr>hub := h\<rparr>)"
| other: "page_reach n asJSON marshal unmarshal st \<sigma> \<Longrightarrow> hub_step \<sigma> \<sigma>' \<Longrightarrow>
    consumed (chans (hub \<sigma>') (es_ch st)) = consumed (chans (hub \<sigma>) (es_ch st)) \<Longrightarrow>
    page_reach n asJSON marshal unmarshal st \<sigma>'"
| round: "page_reach n asJSON marshal unmarshal st \<sigma> \<Longrightarrow>
    Events_round asJSON marshal unmarshal ctxDone st (hub \<sigma>) = (st', h) \<Longrightarrow>
    es_done st' \<longrightarrow> es_done st \<or> \<not> read_locked \<sigma> \<Longrightarrow>
    page_reach n asJSON marshal unmarshal st' (\<sigma>\<lparr>hub := h\<rparr>)"

lemma Events_round_cases:
  assumes "Events_round asJSON marshal unmarshal ctxDone st h = (st', h')"
  obtains (idle) "st' = st" "h' = h"
  | (stop) "st' = st\<lparr>es_done := True\<rparr>" "\<not> es_done st" "h' = Unsubscribe (es_ch st) h"
  | (event) ev evs where "buf (chans h (es_ch st)) = ev # evs" "h' = receive (es_ch st) h"
      "st' = st\<lparr>es_out := es_out st @ event_frame asJSON marshal unmarshal ev\<rparr>"
proof (cases "es_done st \<or> (\<not> ctxDone \<and> buf (chans h (es_ch st)) = [] \<and> isopen (chans h (es_ch st)))")
  case True
  then show ?thesis using assms by (intro idle) (auto simp: Events_round_def split: if_splits)
next
  case no: False
  show ?thesis
  proof (cases "ctxDone \<or> buf (chans h (es_ch st)) = []")
    case True
    then show ?thesis using no assms by (intro stop) (auto simp: Events_round_def split: if_splits)
  next
    case False
    then obtain ev evs where b: "buf (chans h (es_ch st)) = ev # evs" by (cases "buf (chans h (es_ch st))") auto
    show ?thesis by (rule event [OF b]) (use no False assms b in \<open>auto simp: Events_round_def\<close>)
  qed
qed

lemma fold_close_chan_consumed:
  "consumed (chans (fold close_chan cs h) c) = consumed (chans h c)"
proof (induction cs arbitrary: h)
  case (Cons d cs)
  then show ?case by (simp add: close_chan_def)
qed simp

lemma Unsubscribe_consumed: "consumed (chans (Unsubscribe ch h) c) = consumed (chans h c)"
  by (simp add: Unsubscribe_def Let_def fold_close_chan_consumed)

lemma page_reach_inv:
  assumes "page_reach n asJSON marshal unmarshal st \<sigma>"
  shows "hub_reach n \<sigma> \<and> es_out st = stream_greeting @
    concat (map (event_frame asJSON marshal unmarshal) (consumed (chans (hub \<sigma>) (es_ch st))))"
  using assms
proof induction
  case (start \<sigma> st h)
  then have "h = snd (Subscribe (hub \<sigma>))" by (auto simp: Events_start_def split: prod.splits)
  with start show ?case
    using hub_reach.step [OF start(1) hub_step.subscribe] by (auto simp: Events_start_def Subscribe_def Let_def)
next
  case (other st \<sigma> \<sigma>')
  then show ?case by (auto intro: hub_reach.step)
next
  case (round st \<sigma> ctxDone st' h)
  from round.hyps(2) show ?case
  proof (cases rule: Events_round_cases)
    case stop
    with round have "hub_step \<sigma> (\<sigma>\<lparr>hub := h\<rparr>)" by (auto intro: hub_step.unsubscribe)
    with round.IH stop show ?thesis by (auto simp: Unsubscribe_consumed intro: hub_reach.step)
  next
    case (event ev evs)
    then have "hub_step \<sigma> (\<sigma>\<lparr>hub := h\<rparr>)" by (auto intro: hub_step.recv)
    with round.IH event show ?thesis by (auto simp: receive_def intro: hub_reach.step)
  qed (use round.IH in simp)
qed


text \<open>A run: the page opens on a new hub, one event is published, and the handler writes it.\<close>

lemma page_run:
  fixes e :: Event
  defines "ev \<equiv> e\<lparr>Seq := 1\<rparr>"
  shows "\<exists>st \<sigma>. page_reach 1 asJSON marshal unmarshal st \<sigma> \<and> es_ch st = 0
    \<and> es_out st = stream_greeting @ event_frame asJSON marshal unmarshal ev
    \<and> consumed (chans (hub \<sigma>) 0) = [ev]"
proof -
  let ?P = "page_reach 1 asJSON marshal unmarshal"
  let ?h = "snd (Subscribe (NewHub 1))"
  let ?st = "\<lparr>es_out = stream_greeting, es_ch = 0, es_done = False\<rparr>"
  have 0: "?P ?st \<lparr>hub = ?h, pubs = [], closing = 0\<rparr>"
    using page_reach.start [OF hub_reach.init, of 1 ?st ?h asJSON marshal unmarshal]
    by (simp add: read_locked_def Events_start_def Subscribe_def NewHub_def)
  have 1: "?P ?st \<lparr>hub = ?h, pubs = [Checked e], closing = 0\<rparr>"
    using page_reach.other [OF 0 hub_step.check [of _ e]] by (simp add: Subscribe_def NewHub_def)
  have 2: "?P ?st \<lparr>hub = ?h\<lparr>seq := 1\<rparr>, pubs = [Stamped ev], closing = 0\<rparr>"
    using page_reach.other [OF 1 hub_step.stamp [of _ "[]" e "[]"]] by (simp add: Subscribe_def NewHub_def ev_def)
  have 3: "?P ?st \<lparr>hub = ?h\<lparr>seq := 1\<rparr>, pubs = [Sending ev [0]], closing = 0\<rparr>"
    using page_reach.other [OF 2 hub_step.rlock [of _ "[]" ev "[]"]] by (simp add: Subscribe_def NewHub_def)
  have 4: "?P ?st \<lparr>hub = try_send ev 0 (?h\<lparr>seq := 1\<rparr>), pubs = [Sending ev []], closing = 0\<rparr>"
    using page_reach.other [OF 3 hub_step.send [of _ "[]" ev 0 "[]" "[]"]]
    by (simp add: Subscribe_def NewHub_def try_send_def)
  show ?thesis
    using page_reach.round [OF 4, of False]
    by (fastforce simp: Events_round_def try_send_def receive_def Subscribe_def NewHub_def)
qed


section \<open>The end of the stream\<close>

text \<open>
  The rounds of one handler. Before a round other goroutines may have worked on the hub: a round is
  whether its context is done and what the others did. A closed channel is out of the hub's table:
  nobody sends on it, and only its handler receives from it.
\<close>

fun Events_rounds ::
  "bool \<Rightarrow> (Event \<Rightarrow> string) \<Rightarrow> (bytes \<Rightarrow> string \<rightharpoonup> any) \<Rightarrow> (bool \<times> (Hub \<Rightarrow> Hub)) list
     \<Rightarrow> stream \<Rightarrow> Hub \<Rightarrow> stream \<times> Hub" where
  "Events_rounds asJSON marshal unmarshal [] st h = (st, h)"
| "Events_rounds asJSON marshal unmarshal ((ctxDone, others) # cs) st h =
     (case Events_round asJSON marshal unmarshal ctxDone st (others h) of
        (st', h') \<Rightarrow> Events_rounds asJSON marshal unmarshal cs st' h')"

definition leaves_closed :: "nat \<Rightarrow> (Hub \<Rightarrow> Hub) \<Rightarrow> bool" where
  "leaves_closed ch g \<longleftrightarrow> (\<forall>h. \<not> isopen (chans h ch) \<longrightarrow> chans (g h) ch = chans h ch)"

lemma fold_close_chan_closed:
  "\<not> isopen (chans h ch) \<Longrightarrow> chans (fold close_chan cs h) ch = chans h ch"
proof (induction cs arbitrary: h)
  case (Cons c cs)
  have "chans (close_chan c h) ch = chans h ch" using Cons.prems by (auto simp: close_chan_def)
  then show ?case using Cons.IH [of "close_chan c h"] Cons.prems by simp
qed simp

text \<open>What the others can do to the hub leaves a closed channel alone.\<close>

lemma hub_ops_leave_closed:
  "leaves_closed ch (Unsubscribe c)" "leaves_closed ch (try_send e c)" "leaves_closed ch Close"
  "c \<noteq> ch \<Longrightarrow> leaves_closed ch (receive c)"
  by (auto simp: leaves_closed_def Unsubscribe_def try_send_def Close_def receive_def Let_def fold_close_chan_closed
      split: list.splits)

lemma Events_rounds_done: "es_done st \<Longrightarrow> fst (Events_rounds asJSON marshal unmarshal cs st h) = st"
  by (induction cs arbitrary: h) (auto simp: Events_round_def)

lemma Events_rounds_out:
  assumes "\<not> isopen (chans h (es_ch st))" "\<forall>(c, g) \<in> set cs. \<not> c \<and> leaves_closed (es_ch st) g"
    and "length (buf (chans h (es_ch st))) < length cs" "\<not> es_done st"
  shows "fst (Events_rounds asJSON marshal unmarshal cs st h) = st\<lparr>es_done := True,
     es_out := es_out st @ concat (map (event_frame asJSON marshal unmarshal) (buf (chans h (es_ch st))))\<rparr>"
  using assms
proof (induction cs arbitrary: st h)
  case (Cons r cs)
  obtain g where r: "r = (False, g)" using Cons.prems(2) by (cases r) auto
  have g: "chans (g h) (es_ch st) = chans h (es_ch st)" using Cons.prems(1,2) r by (simp add: leaves_closed_def)
  show ?case
  proof (cases "buf (chans h (es_ch st))")
    case Nil
    then show ?thesis
      using Cons.prems(1,4) g by (simp add: r Events_round_def Events_rounds_done)
  next
    case (Cons ev evs)
    let ?st = "st\<lparr>es_out := es_out st @ event_frame asJSON marshal unmarshal ev\<rparr>"
    let ?h = "receive (es_ch st) (g h)"
    have "buf (chans ?h (es_ch ?st)) = evs" "\<not> isopen (chans ?h (es_ch ?st))"
      using Cons Cons.prems(1) g by (simp_all add: receive_def)
    then show ?thesis
      using Cons.IH [of ?h ?st] Cons.prems Cons g by (simp add: r Events_round_def)
  qed
qed simp

lemma Events_rounds_returns:
  assumes "\<forall>(c, g) \<in> set cs. leaves_closed (es_ch st) g"
    and "(\<exists>g. (True, g) \<in> set cs) \<or> \<not> isopen (chans h (es_ch st)) \<and> length (buf (chans h (es_ch st))) < length cs"
  shows "es_done (fst (Events_rounds asJSON marshal unmarshal cs st h))"
  using assms
proof (induction cs arbitrary: st h)
  case (Cons r cs)
  obtain c g where r: "r = (c, g)" by (cases r)
  obtain st' h' where s: "Events_round asJSON marshal unmarshal c st (g h) = (st', h')" by force
  have g: "\<not> isopen (chans h (es_ch st)) \<Longrightarrow> chans (g h) (es_ch st) = chans h (es_ch st)"
    using Cons.prems(1) r by (simp add: leaves_closed_def)
  show ?case
  proof (cases "es_done st'")
    case True
    then show ?thesis by (simp add: r s Events_rounds_done)
  next
    case False
    have c: "\<not> c" "es_ch st' = es_ch st"
      using s False by (auto simp: Events_round_def split: if_splits list.splits)
    have d: "\<not> isopen (chans h' (es_ch st')) \<and> length (buf (chans h' (es_ch st'))) < length cs"
      if "\<not> isopen (chans h (es_ch st))" "length (buf (chans h (es_ch st))) < length (r # cs)"
    proof -
      have ch: "chans (g h) (es_ch st) = chans h (es_ch st)" using g [OF that(1)] .
      have no: "\<not> isopen (chans h (es_ch st))" "length (buf (chans h (es_ch st))) < length (r # cs)" by (rule that)+
      have "\<not> es_done st" using s False by (auto simp: Events_round_def)
      obtain ev evs where b: "buf (chans h (es_ch st)) = ev # evs" and h': "h' = receive (es_ch st) (g h)"
        using s False c(1) ch no(1) \<open>\<not> es_done st\<close>
        by (cases "buf (chans h (es_ch st))") (auto simp: Events_round_def)
      have "chans h' (es_ch st) = (chans h (es_ch st))\<lparr>buf := evs, consumed := consumed (chans h (es_ch st)) @ [ev]\<rparr>"
        unfolding h' receive_def ch by (simp add: b)
      then show ?thesis using no b unfolding c(2) by simp
    qed
    have "\<forall>(c, g) \<in> set cs. leaves_closed (es_ch st') g" using Cons.prems(1) c(2) by simp
    moreover have "(\<exists>g. (True, g) \<in> set cs) \<or> \<not> isopen (chans h' (es_ch st')) \<and> length (buf (chans h' (es_ch st'))) < length cs"
      using Cons.prems(2) d c(1) by (simp only: r list.set insert_iff prod.inject) blast
    ultimately show ?thesis using Cons.IH [of st' h'] by (simp add: r s)
  qed
qed auto



text \<open>
  The line break matters: a client identifier with a line break in it ends the line and can write a
  message of its own. Here one event of the hub reaches the browser as two messages, the second
  with the identifier, type and data the client chose.
\<close>

definition forged_id :: string where
  "forged_id = ''c'' @ [LF, LF] @ ''id: 7'' @ [LF] @ ''event: message.published'' @ [LF] @ ''data: forged''"

theorem events_forged_message:
  "\<exists>m. browser_reads (event_frame False marshal (\<lambda>_. [''client_id'' \<mapsto> AStr forged_id])
      \<lparr>Type = ''subscription.added'', Node = ''n1'', TS = 5, Seq = 1, Payload = []\<rparr>) =
    [m, \<lparr>m_id = ''7'', m_event = ''message.published'',
       m_data = ''forged sub </span> <span class='' @ dq @ ''text-slate-500 dark:text-slate-400'' @ dq @ ''></span></span>''
         @ ''<span class='' @ dq @ ''text-slate-400'' @ dq @ '' title='' @ dq @ ''ts=5 node=n1'' @ dq @ ''>n1</span></li>''\<rparr>]"
proof -
  have "FormatInt 1 = ''1''" "FormatInt 5 = ''5''" by code_simp+
  then show ?thesis
    by (simp add: browser_reads_def event_frame_def renderEventHTML_def Let_def forged_id_def eventHeadline_def
        eventDetail_def eventTone_def eventIcon_def strOf_def EscapeString_def escape_char_def sse_line_def sse_field_def)
qed

end
