(* ===== verification/MqttRedis.thy ===== *)
theory MqttRedis
  imports Redis MqttPages
begin

text \<open>
  The redis backend for the broker's users and rules, \<open>mqttauth/redis.go\<close>, over the redis commands
  of theory \<open>Redis\<close>. \<open>json.Marshal\<close> and \<open>json.Unmarshal\<close> of the broker's \<open>auth.AuthRule\<close> are
  parameters; the fields of that record the backend does not touch are opaque. The backend meets the
  contract of \<open>MqttAuth\<close> on a server whose SCAN repeats no key and whose DEL succeeds.
\<close>

section \<open>The backend\<close>

record 'x AuthRule =
  au_Allow :: bool
  au_Password :: string
  au_rest :: 'x

record 'x rule_codec =
  rk_lib :: hash_lib
  rk_zero :: 'x \<comment> \<open>the zero value of the other fields\<close>
  rk_marshal :: "'x AuthRule \<Rightarrow> bytes option"
  rk_unmarshal :: "bytes \<Rightarrow> 'x AuthRule option"

definition defaultRedisAuthPrefix :: string where
  "defaultRedisAuthPrefix = ''comqtt:auth''"

definition defaultRedisACLPrefix :: string where
  "defaultRedisACLPrefix = ''comqtt:acl''"

record redisBackend =
  rb_cfg :: Config
  rb_authKey :: string
  rb_aclPrefix :: string

definition defaultIfEmpty :: "string \<Rightarrow> string \<Rightarrow> string" where
  "defaultIfEmpty v fallback = (if v = [] then fallback else v)"

definition newRedisBackend :: "Config \<Rightarrow> (mqtt_error, redisBackend) result" where
  "newRedisBackend cfg =
     (case cf_Redis cfg of
        None \<Rightarrow> Inl (ErrConfig ''mqttauth redis: Config.Redis required'')
      | Some r \<Rightarrow>
          if rc_Addr r = [] then Inl (ErrConfig ''mqttauth redis: Config.Redis.Addr required'')
          else Inr \<lparr>rb_cfg = cfg,
                 rb_authKey = defaultIfEmpty (rc_AuthKeyPrefix r) defaultRedisAuthPrefix,
                 rb_aclPrefix = defaultIfEmpty (rc_ACLKeyPrefix r) defaultRedisACLPrefix\<rparr>)"

definition mr_aclKey :: "redisBackend \<Rightarrow> string \<Rightarrow> string" where
  "mr_aclKey b subject = rb_aclPrefix b @ '':'' @ subject"

definition mr_Users ::
  "'s redis \<Rightarrow> 'x rule_codec \<Rightarrow> redisBackend \<Rightarrow> 's \<Rightarrow> (mqtt_error, MqttUser list) result" where
  "mr_Users R K b s =
     (case HGetAll R (rb_authKey b) s of
        ROk everyone \<Rightarrow>
          Inr (sort_key mu_Subject (List.map_filter (\<lambda>(subject, raw).
            map_option (\<lambda>ar. \<lparr>mu_Subject = subject, mu_Allow = au_Allow ar\<rparr>) (rk_unmarshal K raw)) everyone))
      | _ \<Rightarrow> Inl ErrStorage)"

definition mr_GetUser ::
  "'s redis \<Rightarrow> 'x rule_codec \<Rightarrow> redisBackend \<Rightarrow> string \<Rightarrow> 's \<Rightarrow> (mqtt_error, MqttUser) result" where
  "mr_GetUser R K b subject s =
     (case HGet R (rb_authKey b) subject s of
        RNil \<Rightarrow> Inl MErrNotFound
      | RErr \<Rightarrow> Inl ErrStorage
      | ROk raw \<Rightarrow>
          (case rk_unmarshal K raw of
             None \<Rightarrow> Inl ErrStorage
           | Some ar \<Rightarrow> Inr \<lparr>mu_Subject = subject, mu_Allow = au_Allow ar\<rparr>))"

text \<open>The part of \<open>PutUser\<close> after the lookup: the new record is built from \<open>rule\<close> and written.\<close>

definition mr_put ::
  "'s redis \<Rightarrow> 'x rule_codec \<Rightarrow> redisBackend \<Rightarrow> MqttUser \<Rightarrow> string \<Rightarrow> 'x AuthRule \<Rightarrow> 's \<Rightarrow> (mqtt_error, unit) result \<times> 's" where
  "mr_put R K b u plaintextPassword rule s =
     (let rule = rule\<lparr>au_Allow := mu_Allow u\<rparr>;
          rule = (if plaintextPassword \<noteq> [] then
                    rule\<lparr>au_Password := hashPassword (rk_lib K) (cf_HashType (rb_cfg b)) (cf_HashKey (rb_cfg b)) plaintextPassword\<rparr>
                  else rule)
      in case rk_marshal K rule of
           None \<Rightarrow> (Inl ErrStorage, s)
         | Some encoded \<Rightarrow>
             (case HSet R (rb_authKey b) (mu_Subject u) encoded s of
                (ROk _, s') \<Rightarrow> (Inr (), s')
              | (_, s') \<Rightarrow> (Inl ErrStorage, s')))"

definition mr_PutUser ::
  "'s redis \<Rightarrow> 'x rule_codec \<Rightarrow> redisBackend \<Rightarrow> MqttUser \<Rightarrow> string \<Rightarrow> 's \<Rightarrow> (mqtt_error, unit) result \<times> 's" where
  "mr_PutUser R K b u plaintextPassword s =
     (if mu_Subject u = [] then (Inl (ErrRequired ''PutUser: Subject required''), s)
      else case HGet R (rb_authKey b) (mu_Subject u) s of
        RErr \<Rightarrow> (Inl ErrStorage, s)
      | RNil \<Rightarrow>
          if plaintextPassword = []
          then (Inl (ErrRequired ''PutUser: plaintextPassword required for new user''), s)
          else mr_put R K b u plaintextPassword \<lparr>au_Allow = False, au_Password = [], au_rest = rk_zero K\<rparr> s
      | ROk existingRaw \<Rightarrow>
          (case rk_unmarshal K existingRaw of
             None \<Rightarrow> (Inl ErrStorage, s)
           | Some rule \<Rightarrow> mr_put R K b u plaintextPassword rule s))"

definition mr_DeleteUser ::
  "'s redis \<Rightarrow> redisBackend \<Rightarrow> string \<Rightarrow> 's \<Rightarrow> (mqtt_error, unit) result \<times> 's" where
  "mr_DeleteUser R b subject s =
     (case HDel R (rb_authKey b) subject s of
        (ROk deleted, s') \<Rightarrow>
          if deleted = 0 then (Inl MErrNotFound, s')
          else (Inr (), snd (Del R (mr_aclKey b subject) s'))
      | (_, s') \<Rightarrow> (Inl ErrStorage, s'))"

text \<open>The closure \<open>collect\<close>: the rows of one subject, or an error.\<close>

definition mr_collect ::
  "'s redis \<Rightarrow> redisBackend \<Rightarrow> 's \<Rightarrow> string \<Rightarrow> (mqtt_error, ACLRule list) result" where
  "mr_collect R b s subject =
     (case HGetAll R (mr_aclKey b subject) s of
        ROk filters \<Rightarrow>
          Inr (List.map_filter (\<lambda>(topic, accessStr).
            (case Atoi accessStr of
               (access, None) \<Rightarrow> Some \<lparr>ar_ID = encodeACLID subject topic, ar_Subject = subject,
                  ar_Topic = topic, ar_Access = to_uint8 access\<rparr>
             | _ \<Rightarrow> None)) filters)
      | _ \<Rightarrow> Inl ErrStorage)"

text \<open>The loop over the keys of the iteration; the subject is what follows the prefix and the colon.\<close>

fun mr_collect_keys ::
  "'s redis \<Rightarrow> redisBackend \<Rightarrow> 's \<Rightarrow> string list \<Rightarrow> (mqtt_error, ACLRule list) result" where
  "mr_collect_keys R b s [] = Inr []"
| "mr_collect_keys R b s (key # keys) =
     (case mr_collect R b s (drop (length (rb_aclPrefix b) + 1) key) of
        Inl e \<Rightarrow> Inl e
      | Inr rows \<Rightarrow> (case mr_collect_keys R b s keys of Inl e \<Rightarrow> Inl e | Inr rest \<Rightarrow> Inr (rows @ rest)))"

definition mr_Rules ::
  "'s redis \<Rightarrow> redisBackend \<Rightarrow> string \<Rightarrow> 's \<Rightarrow> (mqtt_error, ACLRule list) result" where
  "mr_Rules R b subject s =
     (let out = (if subject \<noteq> [] then mr_collect R b s subject
                 else case Scan R (rb_aclPrefix b @ '':*'') s of
                   ROk keys \<Rightarrow> mr_collect_keys R b s keys
                 | _ \<Rightarrow> Inl ErrStorage)
      in case out of Inl e \<Rightarrow> Inl e | Inr rows \<Rightarrow> Inr (sort_key (\<lambda>r. (ar_Subject r, ar_Topic r)) rows))"

definition mr_PutRule ::
  "'s redis \<Rightarrow> redisBackend \<Rightarrow> ACLRule \<Rightarrow> 's \<Rightarrow> (mqtt_error, string) result \<times> 's" where
  "mr_PutRule R b r s =
     (if ar_Subject r = [] \<or> ar_Topic r = []
      then (Inl (ErrRequired ''PutRule: Subject and Topic required''), s)
      else case HSet R (mr_aclKey b (ar_Subject r)) (ar_Topic r) (FormatInt (int (ar_Access r))) s of
        (ROk _, s') \<Rightarrow> (Inr (encodeACLID (ar_Subject r) (ar_Topic r)), s')
      | (_, s') \<Rightarrow> (Inl ErrStorage, s'))"

definition mr_DeleteRule ::
  "'s redis \<Rightarrow> redisBackend \<Rightarrow> string \<Rightarrow> 's \<Rightarrow> (mqtt_error, unit) result \<times> 's" where
  "mr_DeleteRule R b i s =
     (case decodeACLID i of
        None \<Rightarrow> (Inl ErrInvalidID, s)
      | Some (subject, topic) \<Rightarrow>
          (case HDel R (mr_aclKey b subject) topic s of
             (ROk deleted, s') \<Rightarrow> (if deleted = 0 then Inl MErrNotFound else Inr (), s')
           | (_, s') \<Rightarrow> (Inl ErrStorage, s')))"

definition redis_Backend :: "'s redis \<Rightarrow> 'x rule_codec \<Rightarrow> redisBackend \<Rightarrow> 's Backend" where
  "redis_Backend R K b = \<lparr>Kind = ''redis'', Mode = cf_Mode (rb_cfg b), BHashType = cf_HashType (rb_cfg b),
     BUsers = mr_Users R K b, BGetUser = mr_GetUser R K b, BPutUser = mr_PutUser R K b,
     BDeleteUser = mr_DeleteUser R b, BRules = mr_Rules R b, BPutRule = mr_PutRule R b,
     BDeleteRule = mr_DeleteRule R b\<rparr>"

section \<open>What the keys hold\<close>

text \<open>The users and rules in the hashes \<open>H\<close> of a server, and when every record can be read.\<close>

definition mr_users :: "(string \<Rightarrow> string \<rightharpoonup> bytes) \<Rightarrow> 'x rule_codec \<Rightarrow> redisBackend \<Rightarrow> string \<rightharpoonup> bool \<times> string" where
  "mr_users H K b n =
     Option.bind (H (rb_authKey b) n) (\<lambda>raw. map_option (\<lambda>ar. (au_Allow ar, au_Password ar)) (rk_unmarshal K raw))"

definition mr_rules :: "(string \<Rightarrow> string \<rightharpoonup> bytes) \<Rightarrow> redisBackend \<Rightarrow> string \<times> string \<rightharpoonup> rule" where
  "mr_rules H b = (\<lambda>(n, t). Option.bind (H (mr_aclKey b n) t)
     (\<lambda>a. case Atoi a of (v, None) \<Rightarrow> Some (n, t, to_uint8 v) | _ \<Rightarrow> None))"

definition mr_inv :: "(string \<Rightarrow> string \<rightharpoonup> bytes) \<Rightarrow> 'x rule_codec \<Rightarrow> redisBackend \<Rightarrow> bool" where
  "mr_inv H K b \<longleftrightarrow> (\<forall>n raw. H (rb_authKey b) n = Some raw \<longrightarrow> rk_unmarshal K raw \<noteq> None)
     \<and> (\<forall>n t a. H (mr_aclKey b n) t = Some a \<longrightarrow> snd (Atoi a) = None \<and> clean_subject n)"

lemma mr_rules_Some:
  "mr_rules H b (n, t) = Some r \<longleftrightarrow> (\<exists>a v. H (mr_aclKey b n) t = Some a \<and> Atoi a = (v, None) \<and> r = (n, t, to_uint8 v))"
proof (cases "H (mr_aclKey b n) t")
  case (Some a)
  then show ?thesis by (cases "Atoi a"; cases "snd (Atoi a)") (auto simp: mr_rules_def)
qed (simp add: mr_rules_def)

lemma mr_rules_fst: "mr_rules H b k = Some r \<Longrightarrow> fst r = fst k"
  by (cases k) (auto simp: mr_rules_Some)

lemma mr_aclKey_inject [simp]: "mr_aclKey b n = mr_aclKey b m \<longleftrightarrow> n = m"
  by (simp add: mr_aclKey_def)

lemma mr_aclKey_prefix: "HasPrefix k (rb_aclPrefix b @ '':'') \<longleftrightarrow> (\<exists>n. k = mr_aclKey b n)"
  by (auto simp: HasPrefix_iff mr_aclKey_def)

lemma mr_aclKey_drop [simp]:
  "drop (length (rb_aclPrefix b) + 1) (mr_aclKey b n) = n" "drop (Suc (length (rb_aclPrefix b))) (mr_aclKey b n) = n"
  by (simp_all add: mr_aclKey_def)

lemma mr_collect_keys_Inr:
  assumes "mr_collect_keys R b s ks = Inr rows" "\<forall>k \<in> set ks. \<exists>n. k = mr_aclKey b n"
  obtains f where "rows = concat (map f ks)" "\<And>n. mr_aclKey b n \<in> set ks \<Longrightarrow> mr_collect R b s n = Inr (f (mr_aclKey b n))"
proof -
  let ?f = "\<lambda>k. projr (mr_collect R b s (drop (length (rb_aclPrefix b) + 1) k))"
  have "rows = concat (map ?f ks) \<and> (\<forall>n. mr_aclKey b n \<in> set ks \<longrightarrow> mr_collect R b s n = Inr (?f (mr_aclKey b n)))"
    using assms
  proof (induction ks arbitrary: rows)
    case (Cons k ks)
    then obtain n where k: "k = mr_aclKey b n" by auto
    obtain r1 r2 where "mr_collect R b s n = Inr r1" "mr_collect_keys R b s ks = Inr r2" "rows = r1 @ r2"
      using Cons.prems(1) unfolding k mr_collect_keys.simps mr_aclKey_drop by (auto split: sum.splits)
    with Cons.IH [of r2] Cons.prems(2) k show ?case by auto
  qed simp
  then show ?thesis using that [of ?f] by blast
qed

section \<open>The contract\<close>

text \<open>
  What the backend needs beyond redis itself: the codec reads what it wrote, the prefix of the rules
  has no pattern characters, the key of the users is not a key of rules, SCAN repeats no key, and the
  DEL after the deletion of a user, whose error the code ignores, succeeds.
\<close>

locale mqtt_redis = redis_server R hash plain
  for R :: "'s redis" and hash plain +
  fixes K :: "'x rule_codec" and b :: redisBackend
  assumes codec: "rk_marshal K r = Some e \<Longrightarrow> rk_unmarshal K e = Some r"
    and prefix: "no_glob (rb_aclPrefix b)"
    and separate: "\<not> HasPrefix (rb_authKey b) (rb_aclPrefix b @ '':'')"
    and Scan_distinct: "Scan R p s = ROk ks \<Longrightarrow> distinct ks"
    and Del_succeeds: "\<exists>u. fst (Del R k s) = ROk u"
begin

lemma authKey_not_acl [simp]: "rb_authKey b \<noteq> mr_aclKey b n" "mr_aclKey b n \<noteq> rb_authKey b"
  using separate mr_aclKey_prefix [of "rb_authKey b" b] by metis+

lemma Users_law:
  assumes "mr_Users R K b s = Inr us"
  shows "distinct (map mu_Subject us) \<and> set us = {\<lparr>mu_Subject = n, mu_Allow = fst v\<rparr> | n v. mr_users (hash s) K b n = Some v}"
proof -
  obtain xs where x: "HGetAll R (rb_authKey b) s = ROk xs"
    and us: "us = sort_key mu_Subject (List.map_filter (\<lambda>(subject, raw).
        map_option (\<lambda>ar. \<lparr>mu_Subject = subject, mu_Allow = au_Allow ar\<rparr>) (rk_unmarshal K raw)) xs)"
    using assms by (auto simp: mr_Users_def split: reply.splits)
  have d: "distinct (map fst xs)" and m: "hash s (rb_authKey b) = map_of xs" using HGetAll_ok [OF x] by auto
  have "distinct (map mu_Subject us)"
    unfolding us distinct_map_sort_key by (rule distinct_map_option_filter [OF d]) auto
  moreover have "set us = {\<lparr>mu_Subject = n, mu_Allow = fst v\<rparr> | n v. mr_users (hash s) K b n = Some v}"
    using d by (force simp: us mr_users_def m set_map_filter bind_eq_Some_conv map_of_eq_Some_iff)
  ultimately show ?thesis ..
qed

lemma GetUser_law:
  assumes "mr_GetUser R K b n s = Inr u"
  shows "\<exists>pw. mr_users (hash s) K b n = Some (mu_Allow u, pw) \<and> mu_Subject u = n"
  using assms
  by (auto simp: mr_GetUser_def mr_users_def dest!: HGet_ok split: reply.splits option.splits)

lemma put_law:
  assumes "mr_inv (hash s) K b" "mr_put R K b u pw rule s = (Inr (), s')"
  shows "mr_inv (hash s') K b \<and> mr_users (hash s') K b = (mr_users (hash s) K b)(mu_Subject u \<mapsto>
      (mu_Allow u, if pw \<noteq> [] then hashPassword (rk_lib K) (cf_HashType (rb_cfg b)) (cf_HashKey (rb_cfg b)) pw
                   else au_Password rule))
    \<and> mr_rules (hash s') b = mr_rules (hash s) b"
proof -
  obtain e x rl where m: "rk_marshal K rl = Some e" "au_Allow rl = mu_Allow u"
      "au_Password rl = (if pw \<noteq> [] then hashPassword (rk_lib K) (cf_HashType (rb_cfg b)) (cf_HashKey (rb_cfg b)) pw
                   else au_Password rule)"
    and h: "HSet R (rb_authKey b) (mu_Subject u) e s = (ROk x, s')"
    using assms(2) by (auto simp: mr_put_def Let_def split: option.splits prod.splits reply.splits if_splits)
  have "rk_unmarshal K e = Some rl" using m(1) by (rule codec)
  moreover have "hash s' = (hash s)(rb_authKey b := (hash s (rb_authKey b))(mu_Subject u \<mapsto> e))"
    using HSet_ok [OF h] by simp
  ultimately show ?thesis using assms(1) m(2,3)
    by (auto simp: mr_inv_def mr_users_def mr_rules_def fun_eq_iff)
qed

lemma PutUser_law:
  assumes "mr_inv (hash s) K b" "mr_PutUser R K b u pw s = (Inr (), s')"
  shows "mr_inv (hash s') K b \<and> mu_Subject u \<noteq> [] \<and> (mr_users (hash s) K b (mu_Subject u) = None \<longrightarrow> pw \<noteq> [])
    \<and> mr_users (hash s') K b = (mr_users (hash s) K b)(mu_Subject u \<mapsto>
      (mu_Allow u, if pw \<noteq> [] then hashPassword (rk_lib K) (cf_HashType (rb_cfg b)) (cf_HashKey (rb_cfg b)) pw
                   else snd (the (mr_users (hash s) K b (mu_Subject u)))))
    \<and> mr_rules (hash s') b = mr_rules (hash s) b"
proof (cases "HGet R (rb_authKey b) (mu_Subject u) s")
  case RNil
  with assms(2) have "mu_Subject u \<noteq> []" "pw \<noteq> []"
    "mr_put R K b u pw \<lparr>au_Allow = False, au_Password = [], au_rest = rk_zero K\<rparr> s = (Inr (), s')"
    by (auto simp: mr_PutUser_def split: if_splits)
  then show ?thesis using put_law [OF assms(1)] by auto
next
  case (ROk raw)
  with assms(2) obtain rl where "mu_Subject u \<noteq> []" and r: "rk_unmarshal K raw = Some rl"
    and p: "mr_put R K b u pw rl s = (Inr (), s')"
    by (auto simp: mr_PutUser_def split: if_splits option.splits)
  moreover have "mr_users (hash s) K b (mu_Subject u) = Some (au_Allow rl, au_Password rl)"
    using HGet_ok [OF ROk] r by (simp add: mr_users_def)
  ultimately show ?thesis using put_law [OF assms(1) p] by auto
qed (use assms(2) in \<open>auto simp: mr_PutUser_def split: if_splits\<close>)

lemma DeleteUser_law:
  assumes "mr_inv (hash s) K b" "mr_DeleteUser R b n s = (Inr (), s')"
  shows "mr_inv (hash s') K b \<and> mr_users (hash s) K b n \<noteq> None
    \<and> mr_users (hash s') K b = (mr_users (hash s) K b)(n := None)
    \<and> mr_rules (hash s') b = (\<lambda>k. case mr_rules (hash s) b k of None \<Rightarrow> None | Some r \<Rightarrow> if fst r = n then None else Some r)"
proof -
  obtain m s1 where h: "HDel R (rb_authKey b) n s = (ROk m, s1)" "m \<noteq> 0" and s': "s' = snd (Del R (mr_aclKey b n) s1)"
    using assms(2) by (auto simp: mr_DeleteUser_def split: prod.splits reply.splits if_splits)
  obtain u where "Del R (mr_aclKey b n) s1 = (ROk u, s')"
    using Del_succeeds [of "mr_aclKey b n" s1] s' by (auto simp: prod_eq_iff)
  then have e: "hash s' = (hash s)(rb_authKey b := (hash s (rb_authKey b))(n := None), mr_aclKey b n := Map.empty)"
    using HDel_ok [OF h(1)] Del_ok by metis
  have "hash s (rb_authKey b) n \<noteq> None" using HDel_ok [OF h(1)] h(2) by (metis)
  then have "mr_users (hash s) K b n \<noteq> None" using assms(1) by (auto simp: mr_users_def mr_inv_def)
  moreover have "mr_rules (hash s') b k =
      (case mr_rules (hash s) b k of None \<Rightarrow> None | Some r \<Rightarrow> if fst r = n then None else Some r)" for k
  proof (cases "fst k = n")
    case True
    then have "mr_rules (hash s') b k = None" by (cases k) (simp add: e mr_rules_def)
    with True show ?thesis by (auto split: option.split dest: mr_rules_fst)
  next
    case False
    then have "mr_rules (hash s') b k = mr_rules (hash s) b k" by (cases k) (simp add: e mr_rules_def)
    with False show ?thesis by (auto split: option.split dest: mr_rules_fst)
  qed
  ultimately show ?thesis using assms(1)
    by (auto simp: e mr_inv_def mr_users_def fun_eq_iff)
qed

lemma collect_law:
  assumes "mr_collect R b s n = Inr rows"
  shows "distinct (map ar_Topic rows)"
    and "r \<in> set rows \<Longrightarrow> ar_Subject r = n \<and> ar_ID r = encodeACLID n (ar_Topic r)"
    and "(\<lambda>r. (ar_Subject r, ar_Topic r, ar_Access r)) ` set rows = {v. \<exists>t. mr_rules (hash s) b (n, t) = Some v}"
proof -
  let ?row = "\<lambda>(topic, accessStr). case Atoi accessStr of
      (access, None) \<Rightarrow> Some \<lparr>ar_ID = encodeACLID n topic, ar_Subject = n, ar_Topic = topic, ar_Access = to_uint8 access\<rparr>
    | _ \<Rightarrow> None"
  obtain xs where x: "HGetAll R (mr_aclKey b n) s = ROk xs" and rows: "rows = List.map_filter ?row xs"
    using assms by (auto simp: mr_collect_def split: reply.splits)
  have d: "distinct (map fst xs)" and m: "hash s (mr_aclKey b n) = map_of xs" using HGetAll_ok [OF x] by auto
  have row: "?row (t, a) = Some y \<longleftrightarrow> (\<exists>v. Atoi a = (v, None) \<and>
      y = \<lparr>ar_ID = encodeACLID n t, ar_Subject = n, ar_Topic = t, ar_Access = to_uint8 v\<rparr>)" for t a y
    by (cases "Atoi a"; cases "snd (Atoi a)") auto
  show "distinct (map ar_Topic rows)"
    unfolding rows by (rule distinct_map_option_filter [OF d]) (auto simp only: row split_paired_all fst_conv ACLRule.select_convs)
  have set: "r \<in> set rows \<longleftrightarrow> (\<exists>t a v. map_of xs t = Some a \<and> Atoi a = (v, None) \<and>
      r = \<lparr>ar_ID = encodeACLID n t, ar_Subject = n, ar_Topic = t, ar_Access = to_uint8 v\<rparr>)" for r
    unfolding rows set_map_filter using row by (fastforce simp del: split_paired_Ex simp: map_of_eq_Some_iff [OF d])
  then show "r \<in> set rows \<Longrightarrow> ar_Subject r = n \<and> ar_ID r = encodeACLID n (ar_Topic r)" by auto
  show "(\<lambda>r. (ar_Subject r, ar_Topic r, ar_Access r)) ` set rows = {v. \<exists>t. mr_rules (hash s) b (n, t) = Some v}"
    by (auto simp: mr_rules_Some m image_iff) (force simp: set)+
qed

lemma Rules_rows:
  assumes "mr_Rules R b n s = Inr rs"
  obtains f ns where "distinct ns" "\<And>m. m \<in> set ns \<Longrightarrow> mr_collect R b s m = Inr (f m)"
    "\<And>k v. mr_rules (hash s) b k = Some v \<Longrightarrow> n = [] \<or> fst v = n \<Longrightarrow> fst k \<in> set ns"
    "\<And>m. m \<in> set ns \<Longrightarrow> n = [] \<or> m = n"
    "rs = sort_key (\<lambda>r. (ar_Subject r, ar_Topic r)) (concat (map f ns))"
proof (cases "n = []")
  case False
  then obtain rows where "mr_collect R b s n = Inr rows" "rs = sort_key (\<lambda>r. (ar_Subject r, ar_Topic r)) rows"
    using assms by (auto simp: mr_Rules_def split: sum.splits)
  with False show ?thesis by (intro that [of "[n]" "\<lambda>_. rows"]) (auto simp del: split_paired_All dest: mr_rules_fst)
next
  case True
  then obtain ks rows where ks: "Scan R ((rb_aclPrefix b @ '':'') @ ''*'') s = ROk ks"
    and c: "mr_collect_keys R b s ks = Inr rows" and rs: "rs = sort_key (\<lambda>r. (ar_Subject r, ar_Topic r)) rows"
    using assms by (auto simp: mr_Rules_def split: sum.splits reply.splits)
  have "no_glob (rb_aclPrefix b @ '':'')" using prefix by (auto simp: no_glob_def)
  note scan = Scan_ok [OF ks this]
  then have keys: "\<forall>k \<in> set ks. \<exists>m. k = mr_aclKey b m" by (simp add: mr_aclKey_prefix)
  obtain f where f: "rows = concat (map f ks)" "\<And>m. mr_aclKey b m \<in> set ks \<Longrightarrow> mr_collect R b s m = Inr (f (mr_aclKey b m))"
    using mr_collect_keys_Inr [OF c keys] by blast
  let ?ns = "map (drop (length (rb_aclPrefix b) + 1)) ks"
  have inv_drop: "map (mr_aclKey b) ?ns = ks"
    using keys by (fastforce intro: map_idI)
  then have "distinct ?ns" using Scan_distinct [OF ks] by (metis distinct_map)
  moreover have mem: "m \<in> set ?ns \<longleftrightarrow> mr_aclKey b m \<in> set ks" for m using keys by force
  moreover have "mr_aclKey b (fst k) \<in> set ks" if "mr_rules (hash s) b k = Some v" for k v
    using scan that by (cases k) (auto simp: mr_rules_Some mr_aclKey_prefix, metis option.distinct(1))
  moreover have "rows = concat (map (\<lambda>m. f (mr_aclKey b m)) ?ns)"
    using arg_cong [OF inv_drop, of "map f"] by (simp add: f(1) o_def cong: map_cong)
  ultimately show ?thesis using that [of ?ns "\<lambda>m. f (mr_aclKey b m)"] True f(2) rs by metis
qed

lemma Rules_law:
  assumes inv: "mr_inv (hash s) K b" and rs: "mr_Rules R b n s = Inr rs"
  shows "sorted (map (\<lambda>r. (ar_Subject r, ar_Topic r)) rs)
    \<and> distinct (map (\<lambda>r. decodeACLID (ar_ID r)) rs)
    \<and> (\<lambda>r. (decodeACLID (ar_ID r), ar_Subject r, ar_Topic r, ar_Access r)) ` set rs
        = {(Some k, v) | k v. mr_rules (hash s) b k = Some v \<and> (n = [] \<or> fst v = n)}"
proof -
  let ?key = "\<lambda>r. (ar_Subject r, ar_Topic r)"
  obtain f ns where ns: "distinct ns" "\<And>m. m \<in> set ns \<Longrightarrow> mr_collect R b s m = Inr (f m)"
    and all: "\<And>k v. mr_rules (hash s) b k = Some v \<Longrightarrow> n = [] \<or> fst v = n \<Longrightarrow> fst k \<in> set ns"
    and only: "\<And>m. m \<in> set ns \<Longrightarrow> n = [] \<or> m = n"
    and rows: "rs = sort_key ?key (concat (map f ns))"
    using Rules_rows [OF rs] by blast
  note row = collect_law [OF ns(2)]
  have key: "decodeACLID (ar_ID r) = Some (?key r)" if r: "r \<in> set rs" for r
  proof -
    obtain m where m: "m \<in> set ns" "r \<in> set (f m)" using r by (auto simp: rows)
    have "(ar_Subject r, ar_Topic r, ar_Access r) \<in> {v. \<exists>t. mr_rules (hash s) b (m, t) = Some v}"
      using row(3) [OF m(1)] m(2) by blast
    then have "clean_subject m" using inv by (auto simp: mr_rules_Some mr_inv_def)
    then show ?thesis using row(2) [OF m] by (simp add: decode_encodeACLID clean_subject_def)
  qed
  have "distinct (map ?key (concat (map f ns)))"
  proof (rule distinct_concat_by [OF ns(1), where h = fst])
    fix m assume m: "m \<in> set ns"
    then show "distinct (map ?key (f m))" using row(1) [OF m] by (auto simp: distinct_map inj_on_def)
  qed (use row(2) in auto)
  then have "distinct (map Some (map ?key rs))" by (simp only: distinct_map [of Some] rows distinct_map_sort_key) simp
  moreover have "map (\<lambda>r. decodeACLID (ar_ID r)) rs = map Some (map ?key rs)" using key by simp
  ultimately have d: "distinct (map (\<lambda>r. decodeACLID (ar_ID r)) rs)" by (simp only:)
  have "(\<lambda>r. (decodeACLID (ar_ID r), ar_Subject r, ar_Topic r, ar_Access r)) ` set rs =
      (\<lambda>v. (Some (fst v, fst (snd v)), v)) ` (\<lambda>r. (ar_Subject r, ar_Topic r, ar_Access r)) ` set rs"
    unfolding image_image by (rule image_cong [OF refl]) (simp add: key)
  also have "(\<lambda>r. (ar_Subject r, ar_Topic r, ar_Access r)) ` set rs =
      (\<Union>m \<in> set ns. {v. \<exists>t. mr_rules (hash s) b (m, t) = Some v})"
    using row(3) by (simp add: rows image_UN)
  also have "(\<lambda>v. (Some (fst v, fst (snd v)), v)) ` \<dots> =
      {(Some k, v) | k v. mr_rules (hash s) b k = Some v \<and> (n = [] \<or> fst v = n)}"
    using all only by (force simp: mr_rules_Some image_iff)
  finally show ?thesis using d by (simp add: rows)
qed

lemma PutRule_law:
  assumes "mr_inv (hash s) K b" "clean_subject (ar_Subject r)" "ar_Access r < 256" "mr_PutRule R b r s = (Inr i, s')"
  shows "mr_inv (hash s') K b \<and> mr_users (hash s') K b = mr_users (hash s) K b \<and> (\<exists>k. decodeACLID i = Some k
    \<and> mr_rules (hash s') b = (mr_rules (hash s) b)(k \<mapsto> (ar_Subject r, ar_Topic r, ar_Access r)))"
proof -
  let ?n = "ar_Subject r" and ?t = "ar_Topic r"
  obtain u where h: "HSet R (mr_aclKey b ?n) ?t (FormatInt (int (ar_Access r))) s = (ROk u, s')"
    and i: "i = encodeACLID ?n ?t"
    using assms(4) by (auto simp: mr_PutRule_def split: if_splits prod.splits reply.splits)
  have e: "hash s' = (hash s)(mr_aclKey b ?n := (hash s (mr_aclKey b ?n))(?t \<mapsto> FormatInt (int (ar_Access r))))"
    using HSet_ok [OF h] by simp
  have p: "ParseInt (FormatInt (int (ar_Access r))) = (int (ar_Access r), None)"
    using assms(3) by (simp add: is_int64_def)
  have a: "to_uint8 (int (ar_Access r)) = ar_Access r" using assms(3) by (simp add: to_uint8_def)
  have "mr_rules (hash s') b = (mr_rules (hash s) b)((?n, ?t) \<mapsto> (?n, ?t, ar_Access r))"
    by (auto simp: fun_eq_iff e mr_rules_def p a)
  moreover have "decodeACLID i = Some (?n, ?t)" using assms(2) by (simp add: i decode_encodeACLID clean_subject_def)
  ultimately show ?thesis using assms(1,2) by (auto simp: e mr_inv_def mr_users_def fun_eq_iff p)
qed

lemma DeleteRule_law:
  assumes "mr_inv (hash s) K b" "mr_DeleteRule R b i s = (Inr (), s')"
  shows "mr_inv (hash s') K b \<and> mr_users (hash s') K b = mr_users (hash s) K b \<and> (\<exists>k. decodeACLID i = Some k
    \<and> mr_rules (hash s) b k \<noteq> None \<and> mr_rules (hash s') b = (mr_rules (hash s) b)(k := None))"
proof -
  obtain n t m where k: "decodeACLID i = Some (n, t)" and h: "HDel R (mr_aclKey b n) t s = (ROk m, s')" "m \<noteq> 0"
    using assms(2) by (auto simp: mr_DeleteRule_def split: option.splits prod.splits reply.splits if_splits)
  have e: "hash s' = (hash s)(mr_aclKey b n := (hash s (mr_aclKey b n))(t := None))" using HDel_ok [OF h(1)] by simp
  obtain a where a: "hash s (mr_aclKey b n) t = Some a" using HDel_ok [OF h(1)] h(2) by (metis option.exhaust)
  then have "snd (Atoi a) = None" using assms(1) unfolding mr_inv_def by blast
  then have "mr_rules (hash s) b (n, t) = Some (n, t, to_uint8 (fst (Atoi a)))"
    using a by (simp add: mr_rules_Some prod_eq_iff)
  moreover have "mr_rules (hash s') b = (mr_rules (hash s) b)((n, t) := None)" by (auto simp: fun_eq_iff e mr_rules_def)
  ultimately show ?thesis using assms(1) k by (auto simp: e mr_inv_def mr_users_def fun_eq_iff)
qed

end

lemma redis_Backend_sel [simp]:
  "BUsers (redis_Backend R K b) = mr_Users R K b" "BGetUser (redis_Backend R K b) = mr_GetUser R K b"
  "BPutUser (redis_Backend R K b) = mr_PutUser R K b" "BDeleteUser (redis_Backend R K b) = mr_DeleteUser R b"
  "BRules (redis_Backend R K b) = mr_Rules R b" "BPutRule (redis_Backend R K b) = mr_PutRule R b"
  "BDeleteRule (redis_Backend R K b) = mr_DeleteRule R b"
  by (simp_all add: redis_Backend_def)

sublocale mqtt_redis \<subseteq> mr: mqtt_backend "redis_Backend R K b" "\<lambda>s. mr_users (hash s) K b" "\<lambda>s. mr_rules (hash s) b"
  decodeACLID clean_subject "hashPassword (rk_lib K) (cf_HashType (rb_cfg b)) (cf_HashKey (rb_cfg b))"
  "\<lambda>s. mr_inv (hash s) K b"
proof (unfold_locales, unfold redis_Backend_sel, goal_cases)
  case 1 then show ?case by (intro Users_law)
next
  case 2 then show ?case by (intro GetUser_law)
next
  case 3 then show ?case by (intro PutUser_law)
next
  case 6 then show ?case by (intro PutRule_law)
qed (fact DeleteUser_law Rules_law DeleteRule_law)+

section \<open>On a server in memory\<close>

definition demo_codec :: "unit rule_codec" where
  "demo_codec = \<lparr>rk_lib = demo_lib, rk_zero = (),
     rk_marshal = (\<lambda>r. Some ((if au_Allow r then CHR ''y'' else CHR ''n'') # au_Password r)),
     rk_unmarshal = (\<lambda>s. case s of [] \<Rightarrow> None
       | c # pw \<Rightarrow> Some \<lparr>au_Allow = (c = CHR ''y''), au_Password = pw, au_rest = ()\<rparr>)\<rparr>"

definition demo_redisBackend :: redisBackend where
  "demo_redisBackend = \<lparr>rb_cfg = demo_config, rb_authKey = defaultRedisAuthPrefix, rb_aclPrefix = defaultRedisACLPrefix\<rparr>"

interpretation memq: mqtt_redis mem_redis ms_hashes ms_plains demo_codec demo_redisBackend
proof (unfold_locales, goal_cases)
  case 1
  then show ?case by (auto simp: demo_codec_def)
qed (auto simp: mem_redis_def demo_redisBackend_def defaultRedisAuthPrefix_def defaultRedisACLPrefix_def no_glob_def)

text \<open>
  The deletion of a user is two commands, and the error of the second is ignored: when DEL fails, the
  user is gone and \<open>DeleteUser\<close> reports success, but every rule of the subject is still there.
\<close>

theorem mr_DeleteUser_orphans:
  assumes "redis_server R hash plain" "rb_authKey b \<noteq> mr_aclKey b n"
    and "HDel R (rb_authKey b) n s = (ROk m, s1)" "m \<noteq> 0" "Del R (mr_aclKey b n) s1 = (RErr, s1)"
  shows "mr_DeleteUser R b n s = (Inr (), s1) \<and> mr_users (hash s1) K b n = None
    \<and> (\<forall>t. mr_rules (hash s1) b (n, t) = mr_rules (hash s) b (n, t))"
proof -
  have "hash s1 = (hash s)(rb_authKey b := (hash s (rb_authKey b))(n := None))"
    using redis_server.HDel_ok [OF assms(1,3)] by simp
  then show ?thesis using assms(2-5) by (simp add: mr_DeleteUser_def mr_users_def mr_rules_def)
qed

end
