(* ===== verification/MqttSql.thy ===== *)
theory MqttSql
  imports MqttPages
begin

text \<open>
  The SQL backend for the broker's users and rules, \<open>mqttauth/sql.go\<close>, for MySQL and PostgreSQL. The
  model builds the text of every statement as the code does and hands it, with its arguments, to a
  database that is a parameter; what the two databases document of these statements is a locale.
\<close>

section \<open>Identifiers\<close>

text \<open>The expression \<open>^[A-Za-z_][A-Za-z0-9_]*$\<close>. Of an error's text the fixed part and the role are kept.\<close>

definition ident_start :: "char \<Rightarrow> bool" where
  "ident_start c \<longleftrightarrow> CHR ''A'' \<le> c \<and> c \<le> CHR ''Z'' \<or> CHR ''a'' \<le> c \<and> c \<le> CHR ''z'' \<or> c = CHR ''_''"

definition identRe :: "string \<Rightarrow> bool" where
  "identRe s = (case s of [] \<Rightarrow> False | c # cs \<Rightarrow> ident_start c \<and> list_all (\<lambda>d. ident_start d \<or> is_digit d) cs)"

definition validateIdent :: "string \<Rightarrow> string \<Rightarrow> mqtt_error option" where
  "validateIdent name role =
     (if \<not> identRe name then Some (ErrConfig (''mqttauth sql: invalid '' @ role @ '' identifier'')) else None)"

fun first_error :: "(string \<times> string) list \<Rightarrow> mqtt_error option" where
  "first_error [] = None"
| "first_error ((name, role) # ids) =
     (case validateIdent name role of Some e \<Rightarrow> Some e | None \<Rightarrow> first_error ids)"

definition validateSQLConfig :: "SQLConfig \<Rightarrow> mqtt_error option" where
  "validateSQLConfig s = first_error
     [(at_Table (sq_Auth s), ''auth.table''),
      (at_UserColumn (sq_Auth s), ''auth.user-column''),
      (at_PasswordColumn (sq_Auth s), ''auth.password-column''),
      (at_AllowColumn (sq_Auth s), ''auth.allow-column''),
      (lt_Table (sq_ACL s), ''acl.table''),
      (lt_UserColumn (sq_ACL s), ''acl.user-column''),
      (lt_TopicColumn (sq_ACL s), ''acl.topic-column''),
      (lt_AccessColumn (sq_ACL s), ''acl.access-column'')]"

section \<open>Dialects and statements\<close>

record dialect =
  dl_driver :: string
  dl_kind :: string
  ph :: "int \<Rightarrow> string"
  upsertUser :: "AuthTable \<Rightarrow> string"
  insertRule :: "ACLTable \<Rightarrow> string"
  supportsLastInsertID :: bool

definition mysqlDialect :: dialect where
  "mysqlDialect = \<lparr>dl_driver = ''mysql'', dl_kind = ''mysql'', ph = (\<lambda>_. ''?''),
     upsertUser = (\<lambda>t. ''INSERT INTO '' @ at_Table t @ '' ('' @ at_UserColumn t @ '', '' @ at_PasswordColumn t
       @ '', '' @ at_AllowColumn t @ '') VALUES (?, ?, ?) ON DUPLICATE KEY UPDATE ''
       @ at_PasswordColumn t @ '' = VALUES('' @ at_PasswordColumn t @ ''), ''
       @ at_AllowColumn t @ '' = VALUES('' @ at_AllowColumn t @ '')''),
     insertRule = (\<lambda>t. ''INSERT INTO '' @ lt_Table t @ '' ('' @ lt_UserColumn t @ '', '' @ lt_TopicColumn t
       @ '', '' @ lt_AccessColumn t @ '') VALUES (?, ?, ?)''),
     supportsLastInsertID = True\<rparr>"

definition postgresDialect :: dialect where
  "postgresDialect = \<lparr>dl_driver = ''pgx'', dl_kind = ''postgres'', ph = (\<lambda>n. ''$'' @ FormatInt n),
     upsertUser = (\<lambda>t. ''INSERT INTO '' @ at_Table t @ '' ('' @ at_UserColumn t @ '', '' @ at_PasswordColumn t
       @ '', '' @ at_AllowColumn t @ '') VALUES ($1, $2, $3) ON CONFLICT ('' @ at_UserColumn t @ '') DO UPDATE SET ''
       @ at_PasswordColumn t @ '' = EXCLUDED.'' @ at_PasswordColumn t @ '', ''
       @ at_AllowColumn t @ '' = EXCLUDED.'' @ at_AllowColumn t),
     insertRule = (\<lambda>t. ''INSERT INTO '' @ lt_Table t @ '' ('' @ lt_UserColumn t @ '', '' @ lt_TopicColumn t
       @ '', '' @ lt_AccessColumn t @ '') VALUES ($1, $2, $3) RETURNING id''),
     supportsLastInsertID = False\<rparr>"

text \<open>The other statements, with the names the methods build them from.\<close>

definition users_query :: "AuthTable \<Rightarrow> string" where
  "users_query t = ''SELECT '' @ at_UserColumn t @ '', '' @ at_AllowColumn t @ '' FROM '' @ at_Table t
     @ '' ORDER BY '' @ at_UserColumn t"

definition allow_query :: "dialect \<Rightarrow> AuthTable \<Rightarrow> string" where
  "allow_query d t = ''SELECT '' @ at_AllowColumn t @ '' FROM '' @ at_Table t @ '' WHERE '' @ at_UserColumn t @ '' = '' @ ph d 1"

definition password_query :: "dialect \<Rightarrow> AuthTable \<Rightarrow> string" where
  "password_query d t = ''SELECT '' @ at_PasswordColumn t @ '' FROM '' @ at_Table t @ '' WHERE '' @ at_UserColumn t @ '' = '' @ ph d 1"

definition delete_user_stmt :: "dialect \<Rightarrow> AuthTable \<Rightarrow> string" where
  "delete_user_stmt d t = ''DELETE FROM '' @ at_Table t @ '' WHERE '' @ at_UserColumn t @ '' = '' @ ph d 1"

definition cascade_stmt :: "dialect \<Rightarrow> ACLTable \<Rightarrow> string" where
  "cascade_stmt d t = ''DELETE FROM '' @ lt_Table t @ '' WHERE '' @ lt_UserColumn t @ '' = '' @ ph d 1"

definition rules_query :: "ACLTable \<Rightarrow> string" where
  "rules_query t = ''SELECT id, '' @ lt_UserColumn t @ '', '' @ lt_TopicColumn t @ '', '' @ lt_AccessColumn t
     @ '' FROM '' @ lt_Table t"

definition rules_of_query :: "dialect \<Rightarrow> ACLTable \<Rightarrow> string" where
  "rules_of_query d t = ''SELECT id, '' @ lt_UserColumn t @ '', '' @ lt_TopicColumn t @ '', '' @ lt_AccessColumn t
     @ '' FROM '' @ lt_Table t @ '' WHERE '' @ lt_UserColumn t @ '' = '' @ ph d 1"

definition update_rule_stmt :: "dialect \<Rightarrow> ACLTable \<Rightarrow> string" where
  "update_rule_stmt d t = ''UPDATE '' @ lt_Table t @ '' SET '' @ lt_UserColumn t @ '' = '' @ ph d 1 @ '', ''
     @ lt_TopicColumn t @ '' = '' @ ph d 2 @ '', '' @ lt_AccessColumn t @ '' = '' @ ph d 3 @ '' WHERE id = '' @ ph d 4"

definition delete_rule_stmt :: "dialect \<Rightarrow> ACLTable \<Rightarrow> string" where
  "delete_rule_stmt d t = ''DELETE FROM '' @ lt_Table t @ '' WHERE id = '' @ ph d 1"

section \<open>The database\<close>

text \<open>
  \<open>database/sql\<close> over the driver: a query returns rows or fails, \<open>SReturning\<close> is a query that writes
  (INSERT with RETURNING), and an execution returns the counts \<open>RowsAffected\<close> and \<open>LastInsertId\<close>,
  each of which a driver may not support. \<open>Rows.Scan\<close> converts a column to the variable's type.
\<close>

datatype sql_value = SNull | SStr string | SInt int

record 's sql_db =
  SQuery :: "string \<Rightarrow> sql_value list \<Rightarrow> 's \<Rightarrow> sql_value list list option"
  SReturning :: "string \<Rightarrow> sql_value list \<Rightarrow> 's \<Rightarrow> sql_value list list option \<times> 's"
  SExec :: "string \<Rightarrow> sql_value list \<Rightarrow> 's \<Rightarrow> (int option \<times> int option) option \<times> 's"

fun scan_string :: "sql_value \<Rightarrow> string option" where
  "scan_string (SStr s) = Some s"
| "scan_string (SInt i) = Some (FormatInt i)"
| "scan_string SNull = None"

fun scan_int :: "sql_value \<Rightarrow> int option" where
  "scan_int (SInt i) = Some i"
| "scan_int (SStr s) = (case ParseInt s of (v, None) \<Rightarrow> Some v | _ \<Rightarrow> None)"
| "scan_int SNull = None"

definition affected :: "int option \<times> int option \<Rightarrow> int" where
  "affected res = (case fst res of None \<Rightarrow> 0 | Some n \<Rightarrow> n)"

section \<open>The backend\<close>

record sqlBackend =
  sb_cfg :: Config
  sb_SQL :: SQLConfig \<comment> \<open>\<open>cfg.SQL\<close>, which is not nil\<close>
  sb_dialect :: dialect

definition newSQLBackend :: "(string \<Rightarrow> string \<Rightarrow> bool) \<Rightarrow> Config \<Rightarrow> (mqtt_error, sqlBackend) result" where
  "newSQLBackend sql_Open cfg =
     (case cf_SQL cfg of
        None \<Rightarrow> Inl (ErrConfig ''mqttauth sql: Config.SQL required'')
      | Some s \<Rightarrow>
          (case validateSQLConfig s of
             Some e \<Rightarrow> Inl e
           | None \<Rightarrow>
               (case (if sq_Driver s = ''mysql'' then Some mysqlDialect
                      else if sq_Driver s = ''postgres'' then Some postgresDialect else None) of
                  None \<Rightarrow> Inl (ErrConfig ''mqttauth sql: unknown Driver'')
                | Some d \<Rightarrow>
                    if sql_Open (dl_driver d) (sq_DSN s) then Inr \<lparr>sb_cfg = cfg, sb_SQL = s, sb_dialect = d\<rparr>
                    else Inl ErrStorage)))"

definition sb_auth :: "sqlBackend \<Rightarrow> AuthTable" where
  "sb_auth b = sq_Auth (sb_SQL b)"

definition sb_acl :: "sqlBackend \<Rightarrow> ACLTable" where
  "sb_acl b = sq_ACL (sb_SQL b)"

text \<open>The loop over rows: stop at the first row that cannot be read.\<close>

fun scan_rows :: "('r \<Rightarrow> 'a option) \<Rightarrow> 'r list \<Rightarrow> 'a list option" where
  "scan_rows scan [] = Some []"
| "scan_rows scan (r # rs) =
     (case scan r of None \<Rightarrow> None | Some a \<Rightarrow> map_option (Cons a) (scan_rows scan rs))"

fun scan_user :: "sql_value list \<Rightarrow> MqttUser option" where
  "scan_user [v, w] =
     (case (scan_string v, scan_int w) of
        (Some subject, Some allow) \<Rightarrow> Some \<lparr>mu_Subject = subject, mu_Allow = (allow \<noteq> 0)\<rparr>
      | _ \<Rightarrow> None)"
| "scan_user _ = None"

definition ms_Users :: "'s sql_db \<Rightarrow> sqlBackend \<Rightarrow> 's \<Rightarrow> (mqtt_error, MqttUser list) result" where
  "ms_Users D b s =
     (case SQuery D (users_query (sb_auth b)) [] s of
        None \<Rightarrow> Inl ErrStorage
      | Some rows \<Rightarrow> (case scan_rows scan_user rows of None \<Rightarrow> Inl ErrStorage | Some out \<Rightarrow> Inr out))"

text \<open>\<open>QueryRowContext(...).Scan(&v)\<close> of one column: no row is \<open>ErrNotFound\<close> here.\<close>

definition scan_one :: "(sql_value \<Rightarrow> 'a option) \<Rightarrow> sql_value list list option \<Rightarrow> (mqtt_error, 'a) result" where
  "scan_one scan rows =
     (case rows of
        None \<Rightarrow> Inl ErrStorage
      | Some [] \<Rightarrow> Inl MErrNotFound
      | Some ([v] # _) \<Rightarrow> (case scan v of None \<Rightarrow> Inl ErrStorage | Some a \<Rightarrow> Inr a)
      | Some _ \<Rightarrow> Inl ErrStorage)"

definition ms_GetUser :: "'s sql_db \<Rightarrow> sqlBackend \<Rightarrow> string \<Rightarrow> 's \<Rightarrow> (mqtt_error, MqttUser) result" where
  "ms_GetUser D b subject s =
     (case scan_one scan_int (SQuery D (allow_query (sb_dialect b) (sb_auth b)) [SStr subject] s) of
        Inl e \<Rightarrow> Inl e
      | Inr allow \<Rightarrow> Inr \<lparr>mu_Subject = subject, mu_Allow = (allow \<noteq> 0)\<rparr>)"

definition getStoredPassword :: "'s sql_db \<Rightarrow> sqlBackend \<Rightarrow> string \<Rightarrow> 's \<Rightarrow> (mqtt_error, string) result" where
  "getStoredPassword D b subject s =
     scan_one scan_string (SQuery D (password_query (sb_dialect b) (sb_auth b)) [SStr subject] s)"

definition ms_PutUser ::
  "hash_lib \<Rightarrow> 's sql_db \<Rightarrow> sqlBackend \<Rightarrow> MqttUser \<Rightarrow> string \<Rightarrow> 's \<Rightarrow> (mqtt_error, unit) result \<times> 's" where
  "ms_PutUser L D b u plaintextPassword s =
     (if mu_Subject u = [] then (Inl (ErrRequired ''PutUser: Subject required''), s)
      else let (failed, found) = (case getStoredPassword D b (mu_Subject u) s of
                 Inr existing \<Rightarrow> (None, Some existing)
               | Inl MErrNotFound \<Rightarrow> (None, None)
               | Inl e \<Rightarrow> (Some e, None))
           in case failed of
                Some e \<Rightarrow> (Inl e, s)
              | None \<Rightarrow>
                  if found = None \<and> plaintextPassword = []
                  then (Inl (ErrRequired ''PutUser: plaintextPassword required for new user''), s)
                  else let stored = (if plaintextPassword \<noteq> [] then
                               hashPassword L (cf_HashType (sb_cfg b)) (cf_HashKey (sb_cfg b)) plaintextPassword
                             else case found of None \<Rightarrow> [] | Some existing \<Rightarrow> existing);
                           allow = (if mu_Allow u then 1 else 0)
                       in (case SExec D (upsertUser (sb_dialect b) (sb_auth b))
                                  [SStr (mu_Subject u), SStr stored, SInt allow] s of
                             (None, s') \<Rightarrow> (Inl ErrStorage, s')
                           | (Some _, s') \<Rightarrow> (Inr (), s')))"

definition ms_DeleteUser :: "'s sql_db \<Rightarrow> sqlBackend \<Rightarrow> string \<Rightarrow> 's \<Rightarrow> (mqtt_error, unit) result \<times> 's" where
  "ms_DeleteUser D b subject s =
     (case SExec D (delete_user_stmt (sb_dialect b) (sb_auth b)) [SStr subject] s of
        (None, s') \<Rightarrow> (Inl ErrStorage, s')
      | (Some res, s') \<Rightarrow>
          if affected res = 0 then (Inl MErrNotFound, s')
          else (Inr (), snd (SExec D (cascade_stmt (sb_dialect b) (sb_acl b)) [SStr subject] s')))"

fun scan_rule :: "sql_value list \<Rightarrow> ACLRule option" where
  "scan_rule [i, u, p, a] =
     (case (scan_int i, scan_string u, scan_string p, scan_int a) of
        (Some i, Some subj, Some topic, Some access) \<Rightarrow>
          Some \<lparr>ar_ID = FormatInt i, ar_Subject = subj, ar_Topic = topic, ar_Access = to_uint8 access\<rparr>
      | _ \<Rightarrow> None)"
| "scan_rule _ = None"

text \<open>
  \<open>sort.Slice\<close> does not keep the order of equal elements, and two rules may have one subject and
  topic here, so it is a parameter: it permutes and sorts.
\<close>

definition ms_Rules ::
  "(ACLRule list \<Rightarrow> ACLRule list) \<Rightarrow> 's sql_db \<Rightarrow> sqlBackend \<Rightarrow> string \<Rightarrow> 's \<Rightarrow> (mqtt_error, ACLRule list) result" where
  "ms_Rules sort_Slice D b subject s =
     (case (if subject = [] then SQuery D (rules_query (sb_acl b)) [] s
            else SQuery D (rules_of_query (sb_dialect b) (sb_acl b)) [SStr subject] s) of
        None \<Rightarrow> Inl ErrStorage
      | Some rows \<Rightarrow> (case scan_rows scan_rule rows of None \<Rightarrow> Inl ErrStorage | Some out \<Rightarrow> Inr (sort_Slice out)))"

definition ms_PutRule :: "'s sql_db \<Rightarrow> sqlBackend \<Rightarrow> ACLRule \<Rightarrow> 's \<Rightarrow> (mqtt_error, string) result \<times> 's" where
  "ms_PutRule D b r s =
     (if ar_Subject r = [] \<or> ar_Topic r = []
      then (Inl (ErrRequired ''PutRule: Subject and Topic required''), s)
      else let args = [SStr (ar_Subject r), SStr (ar_Topic r), SInt (int (ar_Access r))] in
        if ar_ID r \<noteq> [] then
          (case ParseInt (ar_ID r) of
             (_, Some _) \<Rightarrow> (Inl ErrInvalidID, s)
           | (i, None) \<Rightarrow>
               (case SExec D (update_rule_stmt (sb_dialect b) (sb_acl b)) (args @ [SInt i]) s of
                  (None, s') \<Rightarrow> (Inl ErrStorage, s')
                | (Some res, s') \<Rightarrow> (if affected res = 0 then Inl MErrNotFound else Inr (ar_ID r), s')))
        else if supportsLastInsertID (sb_dialect b) then
          (case SExec D (insertRule (sb_dialect b) (sb_acl b)) args s of
             (None, s') \<Rightarrow> (Inl ErrStorage, s')
           | (Some res, s') \<Rightarrow>
               (case snd res of None \<Rightarrow> (Inl ErrStorage, s') | Some i \<Rightarrow> (Inr (FormatInt i), s')))
        else
          (case SReturning D (insertRule (sb_dialect b) (sb_acl b)) args s of
             (Some ([v] # _), s') \<Rightarrow>
               (case scan_int v of None \<Rightarrow> (Inl ErrStorage, s') | Some i \<Rightarrow> (Inr (FormatInt i), s'))
           | (_, s') \<Rightarrow> (Inl ErrStorage, s')))"

definition ms_DeleteRule :: "'s sql_db \<Rightarrow> sqlBackend \<Rightarrow> string \<Rightarrow> 's \<Rightarrow> (mqtt_error, unit) result \<times> 's" where
  "ms_DeleteRule D b i s =
     (case ParseInt i of
        (_, Some _) \<Rightarrow> (Inl ErrInvalidID, s)
      | (parsed, None) \<Rightarrow>
          (case SExec D (delete_rule_stmt (sb_dialect b) (sb_acl b)) [SInt parsed] s of
             (None, s') \<Rightarrow> (Inl ErrStorage, s')
           | (Some res, s') \<Rightarrow> (if affected res = 0 then Inl MErrNotFound else Inr (), s')))"

definition sql_Backend ::
  "hash_lib \<Rightarrow> (ACLRule list \<Rightarrow> ACLRule list) \<Rightarrow> 's sql_db \<Rightarrow> sqlBackend \<Rightarrow> 's Backend" where
  "sql_Backend L sort_Slice D b = \<lparr>Kind = dl_kind (sb_dialect b), Mode = cf_Mode (sb_cfg b),
     BHashType = cf_HashType (sb_cfg b), BUsers = ms_Users D b, BGetUser = ms_GetUser D b,
     BPutUser = ms_PutUser L D b, BDeleteUser = ms_DeleteUser D b, BRules = ms_Rules sort_Slice D b,
     BPutRule = ms_PutRule D b, BDeleteRule = ms_DeleteRule D b\<rparr>"

section \<open>What the databases promise\<close>

text \<open>
  A schema in which the user column of the first table is unique and \<open>id\<close> is the generated key of
  the second, with columns that compare exactly: the users (password and the number in the allow
  column) and the rules by identifier. An UPDATE counts the rows it finds (\<open>found_rows\<close>, PostgreSQL)
  or those it changes (MySQL). Nothing is said of a statement that fails.
\<close>

locale sql_server =
  fixes D :: "'s sql_db" and d :: dialect and A :: AuthTable and C :: ACLTable
    and users :: "'s \<Rightarrow> string \<rightharpoonup> string \<times> int"
    and rules :: "'s \<Rightarrow> int \<rightharpoonup> string \<times> string \<times> int"
    and found_rows :: bool
  assumes int64_ids: "rules s i = Some r \<Longrightarrow> is_int64 i"
    and users_query: "SQuery D (users_query A) [] s = Some rows \<Longrightarrow>
        distinct (map hd rows) \<and> set rows = {[SStr n, SInt a] | n pw a. users s n = Some (pw, a)}"
    and allow_query: "SQuery D (allow_query d A) [SStr n] s = Some rows \<Longrightarrow>
        rows = (case users s n of None \<Rightarrow> [] | Some (pw, a) \<Rightarrow> [[SInt a]])"
    and password_query: "SQuery D (password_query d A) [SStr n] s = Some rows \<Longrightarrow>
        rows = (case users s n of None \<Rightarrow> [] | Some (pw, a) \<Rightarrow> [[SStr pw]])"
    and upsert: "SExec D (upsertUser d A) [SStr n, SStr pw, SInt a] s = (Some res, s') \<Longrightarrow>
        users s' = (users s)(n \<mapsto> (pw, a)) \<and> rules s' = rules s"
    and delete_user: "SExec D (delete_user_stmt d A) [SStr n] s = (Some res, s') \<Longrightarrow>
        users s' = (users s)(n := None) \<and> rules s' = rules s
        \<and> fst res = Some (if users s n = None then 0 else 1)"
    and cascade: "SExec D (cascade_stmt d C) [SStr n] s = (Some res, s') \<Longrightarrow>
        users s' = users s
        \<and> rules s' = (\<lambda>i. case rules s i of None \<Rightarrow> None | Some r \<Rightarrow> if fst r = n then None else Some r)"
    and rules_query: "SQuery D (rules_query C) [] s = Some rows \<Longrightarrow>
        distinct (map hd rows) \<and> set rows = {[SInt i, SStr n, SStr t, SInt a] | i n t a. rules s i = Some (n, t, a)}"
    and rules_of_query: "SQuery D (rules_of_query d C) [SStr n] s = Some rows \<Longrightarrow>
        distinct (map hd rows) \<and> set rows = {[SInt i, SStr n, SStr t, SInt a] | i t a. rules s i = Some (n, t, a)}"
    and update: "SExec D (update_rule_stmt d C) [SStr n, SStr t, SInt a, SInt i] s = (Some res, s') \<Longrightarrow>
        users s' = users s \<and> rules s' = (if rules s i = None then rules s else (rules s)(i \<mapsto> (n, t, a)))
        \<and> fst res = Some (if rules s i = None \<or> \<not> found_rows \<and> rules s i = Some (n, t, a) then 0 else 1)"
    and insert_exec: "SExec D (insertRule d C) [SStr n, SStr t, SInt a] s = (Some (m, Some i), s') \<Longrightarrow>
        users s' = users s \<and> rules s i = None \<and> is_int64 i \<and> rules s' = (rules s)(i \<mapsto> (n, t, a))"
    and insert_returning: "SReturning D (insertRule d C) [SStr n, SStr t, SInt a] s = (Some rows, s') \<Longrightarrow>
        \<exists>i. rows = [[SInt i]] \<and> users s' = users s \<and> rules s i = None \<and> is_int64 i
          \<and> rules s' = (rules s)(i \<mapsto> (n, t, a))"
    and delete_rule: "SExec D (delete_rule_stmt d C) [SInt i] s = (Some res, s') \<Longrightarrow>
        users s' = users s \<and> rules s' = (rules s)(i := None) \<and> fst res = Some (if rules s i = None then 0 else 1)"

text \<open>The same tables as the contract sees them.\<close>

definition user_view :: "(string \<rightharpoonup> string \<times> int) \<Rightarrow> string \<rightharpoonup> bool \<times> string" where
  "user_view U = map_option (\<lambda>(pw, a). (a \<noteq> 0, pw)) \<circ> U"

definition rule_view :: "(int \<rightharpoonup> string \<times> string \<times> int) \<Rightarrow> int \<rightharpoonup> rule" where
  "rule_view T = map_option (\<lambda>(n, t, a). (n, t, to_uint8 a)) \<circ> T"

definition rule_id :: "string \<Rightarrow> int option" where
  "rule_id s = (case ParseInt s of (i, None) \<Rightarrow> Some i | _ \<Rightarrow> None)"

lemma rule_id_FormatInt [simp]: "is_int64 i \<Longrightarrow> rule_id (FormatInt i) = Some i"
  by (simp add: rule_id_def)

lemma user_view_Some: "user_view U n = Some v \<longleftrightarrow> (\<exists>pw a. U n = Some (pw, a) \<and> v = (a \<noteq> 0, pw))"
  by (auto simp: user_view_def)

lemma rule_view_Some: "rule_view T i = Some r \<longleftrightarrow> (\<exists>n t a. T i = Some (n, t, a) \<and> r = (n, t, to_uint8 a))"
  by (auto simp: rule_view_def)

lemma user_view_upd [simp]:
  "user_view (U(n \<mapsto> (pw, a))) = (user_view U)(n \<mapsto> (a \<noteq> 0, pw))" "user_view (U(n := None)) = (user_view U)(n := None)"
  by (auto simp: user_view_def)

lemma rule_view_upd [simp]:
  "rule_view (T(i \<mapsto> (n, t, a))) = (rule_view T)(i \<mapsto> (n, t, to_uint8 a))" "rule_view (T(i := None)) = (rule_view T)(i := None)"
  by (auto simp: rule_view_def)

lemma scan_rows_map: "(\<And>r. r \<in> set rows \<Longrightarrow> scan r = Some (f r)) \<Longrightarrow> scan_rows scan rows = Some (map f rows)"
  by (induction rows) auto

text \<open>
  For the contract, the sort of \<open>Rules\<close> permutes and sorts, and the cascade of a deletion, whose
  error the code ignores, succeeds.
\<close>

locale mqtt_sql = sql_server D "sb_dialect b" "sb_auth b" "sb_acl b" users rules found_rows
  for D :: "'s sql_db" and b users rules found_rows +
  fixes L :: hash_lib and sort_Slice :: "ACLRule list \<Rightarrow> ACLRule list"
  assumes permutes: "mset (sort_Slice rs) = mset rs"
    and sorts: "sorted (map (\<lambda>r. (ar_Subject r, ar_Topic r)) (sort_Slice rs))"
    and cascade_succeeds: "fst (SExec D (cascade_stmt (sb_dialect b) (sb_acl b)) [SStr n] s) \<noteq> None"
begin

lemma Users_law:
  assumes "ms_Users D b s = Inr us"
  shows "distinct (map mu_Subject us) \<and> set us = {\<lparr>mu_Subject = n, mu_Allow = fst v\<rparr> | n v. user_view (users s) n = Some v}"
proof -
  obtain rows where q: "SQuery D (users_query (sb_auth b)) [] s = Some rows" and us: "scan_rows scan_user rows = Some us"
    using assms by (auto simp: ms_Users_def split: option.splits)
  note q = users_query [OF q]
  let ?f = "\<lambda>r. \<lparr>mu_Subject = (case hd r of SStr n \<Rightarrow> n), mu_Allow = (r ! 1 \<noteq> SInt 0)\<rparr>"
  have us: "us = map ?f rows" using us scan_rows_map [of rows scan_user ?f] q by force
  have "inj_on (\<lambda>v. case v of SStr n \<Rightarrow> n) (hd ` set rows)" using q by (auto simp: inj_on_def)
  then have "distinct (map (\<lambda>v. case v of SStr n \<Rightarrow> n) (map hd rows))" using q by (subst distinct_map) auto
  then have "distinct (map mu_Subject us)" by (simp add: us o_def)
  moreover have "set us = ?f ` {[SStr n, SInt a] | n pw a. users s n = Some (pw, a)}" using q by (simp add: us)
  then have "set us = {\<lparr>mu_Subject = n, mu_Allow = (a \<noteq> 0)\<rparr> | n pw a. users s n = Some (pw, a)}"
    unfolding image_Collect
    by (simp only:) (rule Collect_cong, auto,
      metis list.sel(1) nth_Cons_0 nth_Cons_Suc sql_value.case(2) sql_value.inject(2))
  then have "set us = {\<lparr>mu_Subject = n, mu_Allow = fst v\<rparr> | n v. user_view (users s) n = Some v}"
    by (simp only: user_view_Some) (rule Collect_cong, auto)
  ultimately show ?thesis ..
qed

lemma GetUser_law:
  assumes "ms_GetUser D b n s = Inr u"
  shows "\<exists>pw. user_view (users s) n = Some (mu_Allow u, pw) \<and> mu_Subject u = n"
proof -
  obtain rows where q: "SQuery D (allow_query (sb_dialect b) (sb_auth b)) [SStr n] s = Some rows"
    using assms by (cases "SQuery D (allow_query (sb_dialect b) (sb_auth b)) [SStr n] s")
      (auto simp: ms_GetUser_def scan_one_def)
  show ?thesis
  proof (cases "users s n")
    case None
    with allow_query [OF q] q assms show ?thesis by (simp add: ms_GetUser_def scan_one_def)
  next
    case (Some v)
    with allow_query [OF q] q assms show ?thesis by (cases v) (auto simp: ms_GetUser_def scan_one_def user_view_def)
  qed
qed

lemma stored_password:
  assumes "getStoredPassword D b n s = Inr pw"
  shows "\<exists>a. users s n = Some (pw, a)"
proof -
  obtain rows where q: "SQuery D (password_query (sb_dialect b) (sb_auth b)) [SStr n] s = Some rows"
    using assms by (cases "SQuery D (password_query (sb_dialect b) (sb_auth b)) [SStr n] s")
      (auto simp: getStoredPassword_def scan_one_def)
  with password_query [OF q] assms show ?thesis
    by (cases "users s n") (auto simp: getStoredPassword_def scan_one_def)
qed

lemma no_stored_password:
  assumes "getStoredPassword D b n s = Inl MErrNotFound"
  shows "users s n = None"
proof -
  obtain rows where q: "SQuery D (password_query (sb_dialect b) (sb_auth b)) [SStr n] s = Some rows"
    using assms by (cases "SQuery D (password_query (sb_dialect b) (sb_auth b)) [SStr n] s")
      (auto simp: getStoredPassword_def scan_one_def)
  with password_query [OF q] assms show ?thesis
    by (cases "users s n") (auto simp: getStoredPassword_def scan_one_def)
qed

lemma PutUser_law:
  assumes "ms_PutUser L D b u pw s = (Inr (), s')"
  shows "mu_Subject u \<noteq> [] \<and> (user_view (users s) (mu_Subject u) = None \<longrightarrow> pw \<noteq> [])
    \<and> user_view (users s') = (user_view (users s))(mu_Subject u \<mapsto>
      (mu_Allow u, if pw \<noteq> [] then hashPassword L (cf_HashType (sb_cfg b)) (cf_HashKey (sb_cfg b)) pw
                   else snd (the (user_view (users s) (mu_Subject u)))))
    \<and> rule_view (rules s') = rule_view (rules s)"
proof -
  let ?n = "mu_Subject u" and ?h = "hashPassword L (cf_HashType (sb_cfg b)) (cf_HashKey (sb_cfg b)) pw"
  have n: "?n \<noteq> []" using assms by (auto simp: ms_PutUser_def split: if_splits)
  obtain found where f: "getStoredPassword D b ?n s = (case found of Some p \<Rightarrow> Inr p | None \<Rightarrow> Inl MErrNotFound)"
    using assms n by (cases "getStoredPassword D b ?n s"; auto simp: ms_PutUser_def split: mqtt_error.splits)
      (metis option.case)+
  then have g: "\<not> (found = None \<and> pw = [])"
    using assms n by (auto simp: ms_PutUser_def split: option.splits)
  obtain res where "SExec D (upsertUser (sb_dialect b) (sb_auth b))
      [SStr ?n, SStr (if pw \<noteq> [] then ?h else the found), SInt (if mu_Allow u then 1 else 0)] s = (Some res, s')"
    using assms n f g
    by (auto simp: ms_PutUser_def Let_def split: option.splits if_splits prod.splits)
  note up = upsert [OF this]
  show ?thesis
  proof (cases found)
    case None
    then show ?thesis using f g n up no_stored_password [of ?n s] by (auto simp: user_view_def)
  next
    case (Some p)
    then obtain a where "users s ?n = Some (p, a)" using f stored_password [of ?n s p] by auto
    then show ?thesis using Some n up by (auto simp: user_view_def)
  qed
qed

lemma DeleteUser_law:
  assumes "ms_DeleteUser D b n s = (Inr (), s')"
  shows "user_view (users s) n \<noteq> None \<and> user_view (users s') = (user_view (users s))(n := None)
    \<and> rule_view (rules s') = (\<lambda>k. case rule_view (rules s) k of None \<Rightarrow> None | Some r \<Rightarrow> if fst r = n then None else Some r)"
proof -
  obtain res s1 where h: "SExec D (delete_user_stmt (sb_dialect b) (sb_auth b)) [SStr n] s = (Some res, s1)"
    "affected res \<noteq> 0" and s': "s' = snd (SExec D (cascade_stmt (sb_dialect b) (sb_acl b)) [SStr n] s1)"
    using assms by (auto simp: ms_DeleteUser_def split: prod.splits option.splits if_splits)
  obtain res' where c: "SExec D (cascade_stmt (sb_dialect b) (sb_acl b)) [SStr n] s1 = (Some res', s')"
    using cascade_succeeds [of n s1] s' by (auto simp: prod_eq_iff)
  have "users s n \<noteq> None" using delete_user [OF h(1)] h(2) by (auto simp: affected_def split: if_splits)
  then show ?thesis using delete_user [OF h(1)] cascade [OF c]
    by (auto simp: user_view_def rule_view_def fun_eq_iff split: option.splits)
qed

lemma DeleteRule_law:
  assumes "ms_DeleteRule D b i s = (Inr (), s')"
  shows "users s' = users s \<and> (\<exists>k. rule_id i = Some k \<and> rule_view (rules s) k \<noteq> None
    \<and> rule_view (rules s') = (rule_view (rules s))(k := None))"
proof -
  obtain k res where k: "ParseInt i = (k, None)"
    and h: "SExec D (delete_rule_stmt (sb_dialect b) (sb_acl b)) [SInt k] s = (Some res, s')" "affected res \<noteq> 0"
    using assms by (auto simp: ms_DeleteRule_def split: prod.splits option.splits if_splits)
  have "rules s k \<noteq> None" using delete_rule [OF h(1)] h(2) by (auto simp: affected_def split: if_splits)
  then show ?thesis using delete_rule [OF h(1)] k by (auto simp: rule_id_def rule_view_def)
qed

lemma PutRule_law:
  assumes "ms_PutRule D b r s = (Inr i, s')" "ar_ID r = []" "ar_Access r < 256"
  shows "users s' = users s \<and> (\<exists>k. rule_id i = Some k \<and> rules s k = None
    \<and> rule_view (rules s') = (rule_view (rules s))(k \<mapsto> (ar_Subject r, ar_Topic r, ar_Access r)))"
proof -
  let ?args = "[SStr (ar_Subject r), SStr (ar_Topic r), SInt (int (ar_Access r))]"
  have a: "to_uint8 (int (ar_Access r)) = ar_Access r" using assms(3) by (simp add: to_uint8_def)
  show ?thesis
  proof (cases "supportsLastInsertID (sb_dialect b)")
    case True
    then obtain m k where "SExec D (insertRule (sb_dialect b) (sb_acl b)) ?args s = (Some (m, Some k), s')" "i = FormatInt k"
      using assms(1,2) by (auto simp: ms_PutRule_def split: if_splits prod.splits option.splits)
    then show ?thesis using insert_exec a by fastforce
  next
    case False
    then obtain rows where r: "SReturning D (insertRule (sb_dialect b) (sb_acl b)) ?args s = (Some rows, s')"
      using assms(1,2) by (auto simp: ms_PutRule_def split: if_splits prod.splits option.splits list.splits)
    obtain k where k: "rows = [[SInt k]]" "users s' = users s" "rules s k = None" "is_int64 k"
      "rules s' = (rules s)(k \<mapsto> (ar_Subject r, ar_Topic r, int (ar_Access r)))"
      using insert_returning [OF r] by blast
    then have "i = FormatInt k" using False r assms(1,2) by (auto simp: ms_PutRule_def split: if_splits)
    with k a show ?thesis by auto
  qed
qed

text \<open>The rows of a listing as rules: the list the sort is applied to.\<close>

lemma scanned_rules:
  assumes "distinct (map hd rows)" "set rows = {[SInt i, SStr n, SStr t, SInt a] | i n t a. rules s i = Some (n, t, a) \<and> P n}"
    and "scan_rows scan_rule rows = Some out"
  shows "distinct (map (\<lambda>r. rule_id (ar_ID r)) out)
    \<and> (\<lambda>r. (rule_id (ar_ID r), ar_Subject r, ar_Topic r, ar_Access r)) ` set out
        = {(Some k, v) | k v. rule_view (rules s) k = Some v \<and> P (fst v)}"
proof -
  let ?i = "\<lambda>r. case hd r of SInt i \<Rightarrow> i" and ?s = "\<lambda>v. case v of SStr x \<Rightarrow> x"
  let ?f = "\<lambda>r. \<lparr>ar_ID = FormatInt (?i r), ar_Subject = ?s (r ! 1), ar_Topic = ?s (r ! 2),
    ar_Access = to_uint8 (case r ! 3 of SInt a \<Rightarrow> a)\<rparr>"
  have row: "\<exists>i n t a. r = [SInt i, SStr n, SStr t, SInt a] \<and> rules s i = Some (n, t, a) \<and> P n \<and> is_int64 i"
    if "r \<in> set rows" for r using that assms(2) int64_ids by blast
  have hdrow: "\<exists>i. hd r = SInt i" if "r \<in> set rows" for r using row [OF that] by auto
  have out: "out = map ?f rows"
    using assms(3) scan_rows_map [of rows scan_rule ?f] row by (force simp: eval_nat_numeral)
  have ids: "rule_id (ar_ID (?f r)) = Some (?i r)" if "r \<in> set rows" for r using row [OF that] by auto
  have "inj_on (\<lambda>v. case v of SInt i \<Rightarrow> Some i) (hd ` set rows)"
    by (rule inj_onI) (auto dest!: hdrow)
  then have "distinct (map (\<lambda>v. case v of SInt i \<Rightarrow> Some i) (map hd rows))"
    using assms(1) by (subst distinct_map) auto
  moreover have "map (\<lambda>v. case v of SInt i \<Rightarrow> Some i) (map hd rows) = map (\<lambda>r. rule_id (ar_ID r)) out"
    unfolding out map_map o_def by (rule map_cong [OF refl]) (use ids row in fastforce)
  ultimately have d: "distinct (map (\<lambda>r. rule_id (ar_ID r)) out)" by (simp only:)
  have "(\<lambda>r. (rule_id (ar_ID r), ar_Subject r, ar_Topic r, ar_Access r)) ` set out =
      (\<lambda>r. (Some (?i r), ?s (r ! 1), ?s (r ! 2), to_uint8 (case r ! 3 of SInt a \<Rightarrow> a))) ` set rows"
    unfolding out set_map image_image by (rule image_cong [OF refl]) (use ids in simp)
  also have "\<dots> = {(Some i, n, t, to_uint8 a) | i n t a. rules s i = Some (n, t, a) \<and> P n}"
    unfolding assms(2) image_Collect
    by (rule Collect_cong) (auto simp: eval_nat_numeral, metis list.sel(1) nth_Cons_0 nth_Cons_Suc sql_value.case(2,3))
  also have "\<dots> = {(Some k, v) | k v. rule_view (rules s) k = Some v \<and> P (fst v)}"
    by (simp only: rule_view_Some) (rule Collect_cong, auto)
  finally show ?thesis using d by blast
qed

lemma Rules_law:
  assumes "ms_Rules sort_Slice D b n s = Inr rs"
  shows "sorted (map (\<lambda>r. (ar_Subject r, ar_Topic r)) rs) \<and> distinct (map (\<lambda>r. rule_id (ar_ID r)) rs)
    \<and> (\<lambda>r. (rule_id (ar_ID r), ar_Subject r, ar_Topic r, ar_Access r)) ` set rs
        = {(Some k, v) | k v. rule_view (rules s) k = Some v \<and> (n = [] \<or> fst v = n)}"
proof -
  obtain rows out where q: "(if n = [] then SQuery D (rules_query (sb_acl b)) [] s
      else SQuery D (rules_of_query (sb_dialect b) (sb_acl b)) [SStr n] s) = Some rows"
    and out: "scan_rows scan_rule rows = Some out" and rs: "rs = sort_Slice out"
    using assms by (auto simp: ms_Rules_def split: option.splits if_splits)
  have "distinct (map hd rows) \<and> set rows =
      {[SInt i, SStr m, SStr t, SInt a] | i m t a. rules s i = Some (m, t, a) \<and> (n = [] \<or> m = n)}"
  proof (cases "n = []")
    case True
    with q have "SQuery D (rules_query (sb_acl b)) [] s = Some rows" by simp
    from rules_query [OF this] True show ?thesis by simp
  next
    case False
    with q have "SQuery D (rules_of_query (sb_dialect b) (sb_acl b)) [SStr n] s = Some rows" by simp
    note r = rules_of_query [OF this]
    have "{[SInt i, SStr n, SStr t, SInt a] | i t a. rules s i = Some (n, t, a)} =
        {[SInt i, SStr m, SStr t, SInt a] | i m t a. rules s i = Some (m, t, a) \<and> (n = [] \<or> m = n)}"
      using False by (intro Collect_cong) auto
    with r show ?thesis by simp
  qed
  then have "distinct (map (\<lambda>r. rule_id (ar_ID r)) out)
    \<and> (\<lambda>r. (rule_id (ar_ID r), ar_Subject r, ar_Topic r, ar_Access r)) ` set out
        = {(Some k, v) | k v. rule_view (rules s) k = Some v \<and> (n = [] \<or> fst v = n)}"
    using scanned_rules [where P = "\<lambda>m. n = [] \<or> m = n", OF _ _ out] by simp
  moreover have "set rs = set out" using permutes [of out] unfolding rs by (metis set_mset_mset)
  moreover have "distinct (map f rs) \<longleftrightarrow> distinct (map f out)" for f :: "ACLRule \<Rightarrow> int option"
    using permutes [of out] unfolding rs by (metis mset_eq_imp_distinct_iff mset_map)
  ultimately show ?thesis using sorts [of out] by (simp only: rs [symmetric])
qed

end

lemma sql_Backend_sel [simp]:
  "BUsers (sql_Backend L ss D b) = ms_Users D b" "BGetUser (sql_Backend L ss D b) = ms_GetUser D b"
  "BPutUser (sql_Backend L ss D b) = ms_PutUser L D b" "BDeleteUser (sql_Backend L ss D b) = ms_DeleteUser D b"
  "BRules (sql_Backend L ss D b) = ms_Rules ss D b" "BPutRule (sql_Backend L ss D b) = ms_PutRule D b"
  "BDeleteRule (sql_Backend L ss D b) = ms_DeleteRule D b"
  by (simp_all add: sql_Backend_def)

sublocale mqtt_sql \<subseteq> ms: mqtt_backend "sql_Backend L sort_Slice D b" "\<lambda>s. user_view (users s)" "\<lambda>s. rule_view (rules s)"
  rule_id "\<lambda>_. True" "hashPassword L (cf_HashType (sb_cfg b)) (cf_HashKey (sb_cfg b))" "\<lambda>_. True"
proof (unfold_locales, unfold sql_Backend_sel, goal_cases)
  case 1 then show ?case by (intro Users_law)
next
  case 2 then show ?case by (intro GetUser_law)
next
  case 3 then show ?case using PutUser_law by blast
next
  case 4 then show ?case using DeleteUser_law by blast
next
  case 5 then show ?case by (intro Rules_law)
next
  case 6 then show ?case using PutRule_law by metis
next
  case 7 then show ?case using DeleteRule_law by metis
qed

section \<open>The text of the statements\<close>

definition statements :: "dialect \<Rightarrow> AuthTable \<Rightarrow> ACLTable \<Rightarrow> string list" where
  "statements d A C = [delete_rule_stmt d C, insertRule d C, update_rule_stmt d C, rules_of_query d C, rules_query C,
     cascade_stmt d C, delete_user_stmt d A, upsertUser d A, password_query d A, allow_query d A, users_query A]"

definition plain_char :: "char \<Rightarrow> bool" where
  "plain_char c \<longleftrightarrow> ident_start c \<or> is_digit c \<or> c \<in> set '' ,.=()?$''"

lemma plain_letters:
  "list_all plain_char '' ABCDEFGHIJKLMNOPQRSTUVWXYZabcdefghijklmnopqrstuvwxyz123,.=()?$''"
  by code_simp

lemmas plain_chars = plain_letters [unfolded list.pred_inject]

lemma plain_ident: "identRe s \<Longrightarrow> list_all plain_char s"
  by (auto simp: identRe_def plain_char_def list_all_iff split: list.splits)

lemma plain_FormatInt: "0 \<le> n \<Longrightarrow> list_all plain_char (FormatInt n)"
  using nat_digits_digits [of "nat n"] by (auto simp: FormatInt_def plain_char_def list_all_iff)

lemma validateSQLConfig_None:
  "validateSQLConfig s = None \<longleftrightarrow> (\<forall>i \<in> {at_Table (sq_Auth s), at_UserColumn (sq_Auth s), at_PasswordColumn (sq_Auth s),
     at_AllowColumn (sq_Auth s), lt_Table (sq_ACL s), lt_UserColumn (sq_ACL s), lt_TopicColumn (sq_ACL s), lt_AccessColumn (sq_ACL s)}. identRe i)"
  by (simp add: validateSQLConfig_def validateIdent_def)

lemma newSQLBackend_Inr:
  assumes "newSQLBackend sql_Open cfg = Inr b"
  shows "validateSQLConfig (sb_SQL b) = None \<and> sb_dialect b \<in> {mysqlDialect, postgresDialect} \<and> cf_SQL cfg = Some (sb_SQL b)"
  using assms by (auto simp: newSQLBackend_def split: option.splits if_splits)


section \<open>A database in memory\<close>

text \<open>A database that knows the statements of one schema: the promises above can be kept.\<close>

record mem_db =
  db_users :: "(string \<times> string \<times> int) list"
  db_rules :: "(int \<times> string \<times> string \<times> int) list"
  db_next :: int

definition mem_users :: "mem_db \<Rightarrow> string \<rightharpoonup> string \<times> int" where
  "mem_users s = map_of (db_users s)"

definition mem_rules :: "mem_db \<Rightarrow> int \<rightharpoonup> string \<times> string \<times> int" where
  "mem_rules s i = (if is_int64 i then map_of (db_rules s) i else None)"

definition mem_rows :: "mem_db \<Rightarrow> (int \<times> string \<times> string \<times> int) list" where
  "mem_rows s = filter (\<lambda>(i, _). is_int64 i) (AList.clearjunk (db_rules s))"

definition mem_insert :: "sql_value list \<Rightarrow> mem_db \<Rightarrow> int option \<times> mem_db" where
  "mem_insert args s =
     (case args of
        [SStr n, SStr t, SInt a] \<Rightarrow>
          if is_int64 (db_next s) \<and> map_of (db_rules s) (db_next s) = None
          then (Some (db_next s), s\<lparr>db_rules := AList.update (db_next s) (n, t, a) (db_rules s), db_next := db_next s + 1\<rparr>)
          else (None, s)
      | _ \<Rightarrow> (None, s))"

definition mem_query :: "dialect \<Rightarrow> AuthTable \<Rightarrow> ACLTable \<Rightarrow> string \<Rightarrow> sql_value list \<Rightarrow> mem_db \<Rightarrow> sql_value list list option" where
  "mem_query d A C stmt args s =
     (let row = (\<lambda>(i, n, t, a). [SInt i, SStr n, SStr t, SInt a]) in
      if stmt = users_query A then Some (map (\<lambda>(n, pw, a). [SStr n, SInt a]) (AList.clearjunk (db_users s)))
      else if stmt = allow_query d A then
        (case args of [SStr n] \<Rightarrow> Some (case mem_users s n of None \<Rightarrow> [] | Some (pw, a) \<Rightarrow> [[SInt a]]) | _ \<Rightarrow> None)
      else if stmt = password_query d A then
        (case args of [SStr n] \<Rightarrow> Some (case mem_users s n of None \<Rightarrow> [] | Some (pw, a) \<Rightarrow> [[SStr pw]]) | _ \<Rightarrow> None)
      else if stmt = rules_query C then Some (map row (mem_rows s))
      else if stmt = rules_of_query d C then
        (case args of [SStr m] \<Rightarrow> Some (map row (filter (\<lambda>(i, n, t, a). n = m) (mem_rows s))) | _ \<Rightarrow> None)
      else None)"

definition mem_exec ::
  "dialect \<Rightarrow> AuthTable \<Rightarrow> ACLTable \<Rightarrow> bool \<Rightarrow> string \<Rightarrow> sql_value list \<Rightarrow> mem_db \<Rightarrow> (int option \<times> int option) option \<times> mem_db" where
  "mem_exec d A C found stmt args s =
     (if stmt = upsertUser d A then
        (case args of [SStr n, SStr pw, SInt a] \<Rightarrow> (Some (Some 1, None), s\<lparr>db_users := AList.update n (pw, a) (db_users s)\<rparr>)
         | _ \<Rightarrow> (None, s))
      else if stmt = delete_user_stmt d A then
        (case args of [SStr n] \<Rightarrow> (Some (Some (if mem_users s n = None then 0 else 1), None),
            s\<lparr>db_users := AList.delete n (db_users s)\<rparr>) | _ \<Rightarrow> (None, s))
      else if stmt = cascade_stmt d C then
        (case args of [SStr m] \<Rightarrow> (Some (None, None), s\<lparr>db_rules := filter (\<lambda>(i, n, t, a). n \<noteq> m) (AList.clearjunk (db_rules s))\<rparr>)
         | _ \<Rightarrow> (Some (None, None), s))
      else if stmt = update_rule_stmt d C then
        (case args of [SStr n, SStr t, SInt a, SInt i] \<Rightarrow>
           (Some (Some (if mem_rules s i = None \<or> \<not> found \<and> mem_rules s i = Some (n, t, a) then 0 else 1), None),
            if mem_rules s i = None then s else s\<lparr>db_rules := AList.update i (n, t, a) (db_rules s)\<rparr>)
         | _ \<Rightarrow> (None, s))
      else if stmt = insertRule d C then
        (case mem_insert args s of (None, s') \<Rightarrow> (None, s') | (Some i, s') \<Rightarrow> (Some (Some 1, Some i), s'))
      else if stmt = delete_rule_stmt d C then
        (case args of [SInt i] \<Rightarrow> (Some (Some (if mem_rules s i = None then 0 else 1), None),
            if mem_rules s i = None then s else s\<lparr>db_rules := AList.delete i (db_rules s)\<rparr>) | _ \<Rightarrow> (None, s))
      else (None, s))"

definition mem_sql :: "dialect \<Rightarrow> AuthTable \<Rightarrow> ACLTable \<Rightarrow> bool \<Rightarrow> mem_db sql_db" where
  "mem_sql d A C found = \<lparr>SQuery = mem_query d A C,
     SReturning = (\<lambda>stmt args s. if stmt \<noteq> insertRule d C then (None, s)
       else case mem_insert args s of (None, s') \<Rightarrow> (None, s') | (Some i, s') \<Rightarrow> (Some [[SInt i]], s')),
     SExec = mem_exec d A C found\<rparr>"

lemma mem_rows_set: "(i, v) \<in> set (mem_rows s) \<longleftrightarrow> mem_rules s i = Some v"
  by (simp add: mem_rows_def mem_rules_def set_clearjunk)

lemma mem_rows_distinct: "distinct (map fst (mem_rows s))"
  by (simp add: mem_rows_def distinct_clearjunk distinct_map_filter)

lemma mem_rules_filter:
  "mem_rules (s\<lparr>db_rules := filter (\<lambda>(i, n, t, a). n \<noteq> m) (AList.clearjunk (db_rules s))\<rparr>) =
     (\<lambda>i. case mem_rules s i of None \<Rightarrow> None | Some r \<Rightarrow> if fst r = m then None else Some r)"
  by (auto simp: fun_eq_iff mem_rules_def map_of_filter_distinct distinct_clearjunk map_of_clearjunk split: option.splits)

lemma mem_rules_simps [simp]:
  "is_int64 i \<Longrightarrow> mem_rules (s\<lparr>db_rules := AList.update i r (db_rules s)\<rparr>) = (mem_rules s)(i \<mapsto> r)"
  "mem_rules (s\<lparr>db_rules := AList.delete i (db_rules s)\<rparr>) = (mem_rules s)(i := None)"
  "mem_rules (s\<lparr>db_users := us\<rparr>) = mem_rules s" "mem_rules (s\<lparr>db_next := k\<rparr>) = mem_rules s"
  "mem_users (s\<lparr>db_users := AList.update n v (db_users s)\<rparr>) = (mem_users s)(n \<mapsto> v)"
  "mem_users (s\<lparr>db_users := AList.delete n (db_users s)\<rparr>) = (mem_users s)(n := None)"
  "mem_users (s\<lparr>db_rules := rs\<rparr>) = mem_users s" "mem_users (s\<lparr>db_next := k\<rparr>) = mem_users s"
  by (auto simp: fun_eq_iff mem_rules_def mem_users_def update_conv' delete_conv')

lemma mem_rules_int64: "mem_rules s i = Some v \<Longrightarrow> is_int64 i"
  by (simp add: mem_rules_def split: if_splits)

lemma mem_insert_Some:
  assumes "mem_insert [SStr n, SStr t, SInt a] s = (Some i, s')"
  shows "mem_users s' = mem_users s \<and> mem_rules s i = None \<and> is_int64 i \<and> mem_rules s' = (mem_rules s)(i \<mapsto> (n, t, a))"
  using assms by (auto simp: mem_insert_def mem_rules_def mem_users_def update_conv' fun_eq_iff split: if_splits)

lemma mem_rule_rows:
  "distinct (map hd (map (\<lambda>(i, n, t, a). [SInt i, SStr n, SStr t, SInt a]) (filter (\<lambda>(i, n, t, a). P n) (mem_rows s))))
   \<and> set (map (\<lambda>(i, n, t, a). [SInt i, SStr n, SStr t, SInt a]) (filter (\<lambda>(i, n, t, a). P n) (mem_rows s))) =
       {[SInt i, SStr n, SStr t, SInt a] | i n t a. mem_rules s i = Some (n, t, a) \<and> P n}"
proof
  have "distinct (map SInt (map fst (filter (\<lambda>(i, n, t, a). P n) (mem_rows s))))"
    by (subst distinct_map) (simp add: distinct_map_filter mem_rows_distinct inj_on_def)
  then show "distinct (map hd (map (\<lambda>(i, n, t, a). [SInt i, SStr n, SStr t, SInt a]) (filter (\<lambda>(i, n, t, a). P n) (mem_rows s))))"
    by (simp add: o_def case_prod_unfold)
  have s: "set (map (\<lambda>(i, n, t, a). [SInt i, SStr n, SStr t, SInt a]) l) =
      {[SInt i, SStr n, SStr t, SInt a] | i n t a. (i, n, t, a) \<in> set l}" for l by (auto intro: rev_image_eqI)
  show "set (map (\<lambda>(i, n, t, a). [SInt i, SStr n, SStr t, SInt a]) (filter (\<lambda>(i, n, t, a). P n) (mem_rows s))) =
       {[SInt i, SStr n, SStr t, SInt a] | i n t a. mem_rules s i = Some (n, t, a) \<and> P n}"
    unfolding s by (simp add: mem_rows_set)
qed

lemma mem_sql_server:
  assumes "distinct (statements d A C)"
  shows "sql_server (mem_sql d A C found) d A C mem_users mem_rules found"
proof (unfold_locales, goal_cases)
  case (1 s i r)
  then show ?case by (simp add: mem_rules_def split: if_splits)
next
  case (2 s rows)
  then have "rows = map (\<lambda>(n, pw, a). [SStr n, SInt a]) (AList.clearjunk (db_users s))"
    by (simp add: mem_sql_def mem_query_def)
  moreover have "distinct (map SStr (map fst (AList.clearjunk (db_users s))))"
    by (subst distinct_map) (simp add: distinct_clearjunk inj_on_def)
  moreover have "map hd (map (\<lambda>(n, pw, a). [SStr n, SInt a]) us) = map SStr (map fst us)" for us :: "(string \<times> string \<times> int) list"
    by (simp add: case_prod_unfold)
  moreover have "set (map (\<lambda>(n, pw, a). [SStr n, SInt a]) us) = {[SStr n, SInt a] | n pw a. (n, pw, a) \<in> set us}"
    for us :: "(string \<times> string \<times> int) list" by (auto intro: rev_image_eqI)
  ultimately show ?case by (simp only: set_clearjunk mem_users_def)
next
  case (8 s rows)
  then have r: "rows = map (\<lambda>(i, n, t, a). [SInt i, SStr n, SStr t, SInt a]) (mem_rows s)"
    using assms by (simp add: statements_def mem_sql_def mem_query_def)
  have "filter (\<lambda>(i, n, t, a). True) (mem_rows s) = mem_rows s" by (rule filter_True) auto
  then show ?case unfolding r using mem_rule_rows [of "\<lambda>_. True" s] by (simp only: simp_thms)
next
  case (9 n s rows)
  then have r: "rows = map (\<lambda>(i, n, t, a). [SInt i, SStr n, SStr t, SInt a]) (filter (\<lambda>(i, m, t, a). m = n) (mem_rows s))"
    using assms by (simp add: statements_def mem_sql_def mem_query_def)
  show ?case unfolding r using mem_rule_rows [of "\<lambda>m. m = n" s] by simp
next
  case (11 n t a s m i s')
  then show ?case using assms
    by (auto simp: statements_def mem_sql_def mem_exec_def dest!: mem_insert_Some split: prod.splits option.splits)
next
  case (12 n t a s rows s')
  then show ?case using assms
    by (auto simp: statements_def mem_sql_def dest!: mem_insert_Some split: prod.splits option.splits)
qed (use assms in \<open>auto simp: statements_def mem_sql_def mem_query_def mem_exec_def mem_rules_filter Let_def
    dest: mem_rules_int64 split: if_splits\<close>)

definition demo_auth :: AuthTable where
  "demo_auth = \<lparr>at_Table = ''auth'', at_UserColumn = ''username'', at_PasswordColumn = ''password'', at_AllowColumn = ''allow''\<rparr>"

definition demo_acl :: ACLTable where
  "demo_acl = \<lparr>lt_Table = ''acl'', lt_UserColumn = ''username'', lt_TopicColumn = ''topic'', lt_AccessColumn = ''access''\<rparr>"

definition demo_sql :: "string \<Rightarrow> SQLConfig" where
  "demo_sql driver = \<lparr>sq_Driver = driver, sq_DSN = ''dsn'', sq_Auth = demo_auth, sq_ACL = demo_acl\<rparr>"

definition demo_sqlBackend :: "string \<Rightarrow> dialect \<Rightarrow> sqlBackend" where
  "demo_sqlBackend driver d = \<lparr>sb_cfg = demo_config\<lparr>cf_Kind := driver, cf_File := None, cf_SQL := Some (demo_sql driver)\<rparr>,
     sb_SQL = demo_sql driver, sb_dialect = d\<rparr>"

lemma demo_sql_simps [simp]:
  "sb_auth (demo_sqlBackend driver d) = demo_auth" "sb_acl (demo_sqlBackend driver d) = demo_acl"
  "sb_dialect (demo_sqlBackend driver d) = d"
  by (simp_all add: sb_auth_def sb_acl_def demo_sqlBackend_def demo_sql_def)

lemma demo_statements:
  "distinct (statements mysqlDialect demo_auth demo_acl)" "distinct (statements postgresDialect demo_auth demo_acl)"
  by code_simp+

lemma mem_mqtt_sql:
  assumes "distinct (statements d demo_auth demo_acl)"
  shows "mqtt_sql (mem_sql d demo_auth demo_acl found) (demo_sqlBackend driver d) mem_users mem_rules found
    (sort_key (\<lambda>r. (ar_Subject r, ar_Topic r)))"
proof (intro mqtt_sql.intro mqtt_sql_axioms.intro, goal_cases)
  case 1
  show ?case using mem_sql_server [OF assms] by simp
next
  case (4 n s)
  have "cascade_stmt d demo_acl \<noteq> upsertUser d demo_auth" "cascade_stmt d demo_acl \<noteq> delete_user_stmt d demo_auth"
    using assms by (simp_all add: statements_def)
  then show ?case by (simp add: mem_sql_def mem_exec_def)
qed simp_all

interpretation mem_mysql: mqtt_sql "mem_sql mysqlDialect demo_auth demo_acl False" "demo_sqlBackend ''mysql'' mysqlDialect"
  mem_users mem_rules False demo_lib "sort_key (\<lambda>r. (ar_Subject r, ar_Topic r))"
  by (rule mem_mqtt_sql [OF demo_statements(1)])

interpretation mem_postgres: mqtt_sql "mem_sql postgresDialect demo_auth demo_acl True" "demo_sqlBackend ''postgres'' postgresDialect"
  mem_users mem_rules True demo_lib "sort_key (\<lambda>r. (ar_Subject r, ar_Topic r))"
  by (rule mem_mqtt_sql [OF demo_statements(2)])


text \<open>
  Replacing a rule by its identifier. The update writes the row when there is one; but MySQL counts
  the rows a statement changes, so saving a rule without a change is reported as \<open>ErrNotFound\<close>,
  which PostgreSQL does not do.
\<close>

theorem sql_update_rule:
  assumes "sql_server D (sb_dialect b) (sb_auth b) (sb_acl b) users rules found"
    and "ar_Subject r \<noteq> []" "ar_Topic r \<noteq> []" "ar_ID r \<noteq> []" "ParseInt (ar_ID r) = (i, None)"
    and "ms_PutRule D b r s = (out, s')" "out \<noteq> Inl ErrStorage"
  shows "rules s' = (if rules s i = None then rules s
                     else (rules s)(i \<mapsto> (ar_Subject r, ar_Topic r, int (ar_Access r))))
    \<and> out = (if rules s i = None \<or> \<not> found \<and> rules s i = Some (ar_Subject r, ar_Topic r, int (ar_Access r))
             then Inl MErrNotFound else Inr (ar_ID r))"
proof -
  obtain res where e: "SExec D (update_rule_stmt (sb_dialect b) (sb_acl b))
      [SStr (ar_Subject r), SStr (ar_Topic r), SInt (int (ar_Access r)), SInt i] s = (Some res, s')"
    and out: "out = (if affected res = 0 then Inl MErrNotFound else Inr (ar_ID r))"
    using assms(2-7) by (auto simp: ms_PutRule_def split: prod.splits option.splits)
  show ?thesis using sql_server.update [OF assms(1) e] by (simp add: out affected_def)
qed

end
