(* ===== verification/MqttConfig.thy ===== *)
theory MqttConfig
  imports MqttRedis MqttSql
begin

text \<open>
  How the broker's configuration selects a backend: \<open>mqttauth/configloader.go\<close>, \<open>mqttauth/factory.go\<close>
  and the loader of the regex layer, \<open>internal/comqttauthadapter/loader.go\<close>. The option files are
  read by \<open>plugin.LoadYaml\<close> of the broker, one parameter per type of options; the options are the
  fields the loaders read.
\<close>

section \<open>What the broker's files hold\<close>

record comqtt_auth =
  ca_Way :: nat
  ca_Datasource :: nat
  ca_ConfPath :: string

record redis_options =
  ro_AuthMode :: int
  ro_AclMode :: int
  ro_PasswordHash :: int
  ro_HashKey :: string
  ro_AuthKeyPrefix :: string
  ro_AclKeyPrefix :: string
  ro_RedisOptions :: "(string \<times> string \<times> string \<times> int) option" \<comment> \<open>address, username, password, db\<close>

record sql_options =
  so_AuthMode :: int
  so_AclMode :: int
  so_PasswordHash :: int
  so_HashKey :: string
  so_LoginName :: string
  so_LoginPassword :: string
  so_Host :: string
  so_Port :: int
  so_Schema :: string
  so_Extra :: string \<comment> \<open>\<open>Charset\<close> of MySQL, \<open>SslMode\<close> of PostgreSQL\<close>
  so_Auth :: AuthTable
  so_Acl :: ACLTable

record yaml_loader =
  yl_redis :: "string \<Rightarrow> redis_options option"
  yl_mysql :: "string \<Rightarrow> sql_options option"
  yl_postgres :: "string \<Rightarrow> sql_options option"

section \<open>The loader\<close>

definition mysql_dsn :: "sql_options \<Rightarrow> string" where
  "mysql_dsn opts = so_LoginName opts @ '':'' @ so_LoginPassword opts @ ''@tcp('' @ so_Host opts @ '':'' @ FormatInt (so_Port opts)
     @ '')/'' @ so_Schema opts @ ''?charset='' @ so_Extra opts @ ''&parseTime=true''"

definition postgres_dsn :: "sql_options \<Rightarrow> string" where
  "postgres_dsn opts = ''postgres://'' @ so_LoginName opts @ '':'' @ so_LoginPassword opts @ ''@'' @ so_Host opts @ '':''
     @ FormatInt (so_Port opts) @ ''/'' @ so_Schema opts @ ''?sslmode='' @ so_Extra opts"

definition FromComqttConfig :: "yaml_loader \<Rightarrow> comqtt_auth \<Rightarrow> (mqtt_error, Config option) result" where
  "FromComqttConfig Y cfg =
     (if ca_Way cfg = 0 then Inr None
      else let mode = to_uint8 (int (ca_Way cfg)) in
        if ca_Datasource cfg = 0 then
          Inr (Some \<lparr>cf_Kind = ''file'', cf_Mode = mode, cf_ACLMode = mode, cf_HashType = 0, cf_HashKey = [],
                 cf_File = Some \<lparr>fc_Path = ca_ConfPath cfg\<rparr>, cf_Redis = None, cf_SQL = None\<rparr>)
        else if ca_Datasource cfg = 1 then
          (case yl_redis Y (ca_ConfPath cfg) of
             None \<Rightarrow> Inl (ErrConfig ''mqttauth: load redis auth conf'')
           | Some opts \<Rightarrow>
               let out = \<lparr>rc_Addr = [], rc_Username = [], rc_Password = [], rc_DB = 0,
                     rc_AuthKeyPrefix = ro_AuthKeyPrefix opts, rc_ACLKeyPrefix = ro_AclKeyPrefix opts\<rparr>;
                   out = (case ro_RedisOptions opts of None \<Rightarrow> out
                          | Some (addr, user, pw, db) \<Rightarrow>
                              out\<lparr>rc_Addr := addr, rc_Username := user, rc_Password := pw, rc_DB := db\<rparr>)
               in Inr (Some \<lparr>cf_Kind = ''redis'', cf_Mode = to_uint8 (ro_AuthMode opts), cf_ACLMode = to_uint8 (ro_AclMode opts),
                    cf_HashType = to_uint8 (ro_PasswordHash opts), cf_HashKey = ro_HashKey opts,
                    cf_File = None, cf_Redis = Some out, cf_SQL = None\<rparr>))
        else if ca_Datasource cfg = 2 then
          (case yl_mysql Y (ca_ConfPath cfg) of
             None \<Rightarrow> Inl (ErrConfig ''mqttauth: load mysql auth conf'')
           | Some opts \<Rightarrow>
               Inr (Some \<lparr>cf_Kind = ''mysql'', cf_Mode = to_uint8 (so_AuthMode opts), cf_ACLMode = to_uint8 (so_AclMode opts),
                    cf_HashType = to_uint8 (so_PasswordHash opts), cf_HashKey = so_HashKey opts,
                    cf_File = None, cf_Redis = None,
                    cf_SQL = Some \<lparr>sq_Driver = ''mysql'', sq_DSN = mysql_dsn opts, sq_Auth = so_Auth opts, sq_ACL = so_Acl opts\<rparr>\<rparr>))
        else if ca_Datasource cfg = 3 then
          (case yl_postgres Y (ca_ConfPath cfg) of
             None \<Rightarrow> Inl (ErrConfig ''mqttauth: load postgresql auth conf'')
           | Some opts \<Rightarrow>
               Inr (Some \<lparr>cf_Kind = ''postgres'', cf_Mode = to_uint8 (so_AuthMode opts), cf_ACLMode = to_uint8 (so_AclMode opts),
                    cf_HashType = to_uint8 (so_PasswordHash opts), cf_HashKey = so_HashKey opts,
                    cf_File = None, cf_Redis = None,
                    cf_SQL = Some \<lparr>sq_Driver = ''postgres'', sq_DSN = postgres_dsn opts, sq_Auth = so_Auth opts, sq_ACL = so_Acl opts\<rparr>\<rparr>))
        else if ca_Datasource cfg = 4 then Inr None
        else Inl (ErrConfig ''mqttauth: unknown auth datasource''))"

section \<open>The factory\<close>

datatype backend_choice = FileChoice Config | RedisChoice redisBackend | SqlChoice sqlBackend

definition factory_New ::
  "(string \<Rightarrow> unit option) \<Rightarrow> (string \<Rightarrow> string \<Rightarrow> bool) \<Rightarrow> Config \<Rightarrow> (mqtt_error, backend_choice) result" where
  "factory_New stat sql_Open cfg =
     (if cf_Kind cfg = ''file'' then
        (case cf_File cfg of
           None \<Rightarrow> Inl (ErrConfig ''mqttauth: Kind=file requires Config.File'')
         | Some f \<Rightarrow> map_sum id FileChoice (newFileBackend (stat (fc_Path f)) cfg))
      else if cf_Kind cfg = ''redis'' then
        (if cf_Redis cfg = None then Inl (ErrConfig ''mqttauth: Kind=redis requires Config.Redis'')
         else map_sum id RedisChoice (newRedisBackend cfg))
      else if cf_Kind cfg = ''mysql'' then
        (case cf_SQL cfg of
           None \<Rightarrow> Inl (ErrConfig ''mqttauth: Kind=mysql requires Config.SQL with Driver=mysql'')
         | Some s \<Rightarrow>
             if sq_Driver s \<noteq> ''mysql'' then Inl (ErrConfig ''mqttauth: Kind=mysql requires Config.SQL with Driver=mysql'')
             else map_sum id SqlChoice (newSQLBackend sql_Open cfg))
      else if cf_Kind cfg = ''postgres'' then
        (case cf_SQL cfg of
           None \<Rightarrow> Inl (ErrConfig ''mqttauth: Kind=postgres requires Config.SQL with Driver=postgres'')
         | Some s \<Rightarrow>
             if sq_Driver s \<noteq> ''postgres''
             then Inl (ErrConfig ''mqttauth: Kind=postgres requires Config.SQL with Driver=postgres'')
             else map_sum id SqlChoice (newSQLBackend sql_Open cfg))
      else Inl (ErrConfig ''mqttauth: unknown Kind''))"

section \<open>The loader of the regex layer\<close>

text \<open>Its result is the \<open>Config\<close> of another module, which has the same fields.\<close>

definition adapter_FromComqttConfig :: "yaml_loader \<Rightarrow> comqtt_auth \<Rightarrow> (mqtt_error, Config option) result" where
  "adapter_FromComqttConfig Y cfg =
     (if ca_Way cfg = 0 then Inr None
      else let mode = to_uint8 (int (ca_Way cfg)) in
        if ca_Datasource cfg = 0 then
          Inr (Some \<lparr>cf_Kind = ''file'', cf_Mode = mode, cf_ACLMode = mode, cf_HashType = 0, cf_HashKey = [],
                 cf_File = Some \<lparr>fc_Path = ca_ConfPath cfg\<rparr>, cf_Redis = None, cf_SQL = None\<rparr>)
        else if ca_Datasource cfg = 1 then
          (case yl_redis Y (ca_ConfPath cfg) of
             None \<Rightarrow> Inl (ErrConfig ''comqttauthadapter: load redis auth conf'')
           | Some opts \<Rightarrow>
               let out = \<lparr>rc_Addr = [], rc_Username = [], rc_Password = [], rc_DB = 0,
                     rc_AuthKeyPrefix = ro_AuthKeyPrefix opts, rc_ACLKeyPrefix = ro_AclKeyPrefix opts\<rparr>;
                   out = (case ro_RedisOptions opts of None \<Rightarrow> out
                          | Some (addr, user, pw, db) \<Rightarrow>
                              out\<lparr>rc_Addr := addr, rc_Username := user, rc_Password := pw, rc_DB := db\<rparr>)
               in Inr (Some \<lparr>cf_Kind = ''redis'', cf_Mode = to_uint8 (ro_AuthMode opts), cf_ACLMode = to_uint8 (ro_AclMode opts),
                    cf_HashType = to_uint8 (ro_PasswordHash opts), cf_HashKey = ro_HashKey opts,
                    cf_File = None, cf_Redis = Some out, cf_SQL = None\<rparr>))
        else if ca_Datasource cfg = 2 then
          (case yl_mysql Y (ca_ConfPath cfg) of
             None \<Rightarrow> Inl (ErrConfig ''comqttauthadapter: load mysql auth conf'')
           | Some opts \<Rightarrow>
               Inr (Some \<lparr>cf_Kind = ''mysql'', cf_Mode = to_uint8 (so_AuthMode opts), cf_ACLMode = to_uint8 (so_AclMode opts),
                    cf_HashType = to_uint8 (so_PasswordHash opts), cf_HashKey = so_HashKey opts,
                    cf_File = None, cf_Redis = None,
                    cf_SQL = Some \<lparr>sq_Driver = ''mysql'', sq_DSN = mysql_dsn opts, sq_Auth = so_Auth opts, sq_ACL = so_Acl opts\<rparr>\<rparr>))
        else if ca_Datasource cfg = 3 then
          (case yl_postgres Y (ca_ConfPath cfg) of
             None \<Rightarrow> Inl (ErrConfig ''comqttauthadapter: load postgresql auth conf'')
           | Some opts \<Rightarrow>
               Inr (Some \<lparr>cf_Kind = ''postgres'', cf_Mode = to_uint8 (so_AuthMode opts), cf_ACLMode = to_uint8 (so_AclMode opts),
                    cf_HashType = to_uint8 (so_PasswordHash opts), cf_HashKey = so_HashKey opts,
                    cf_File = None, cf_Redis = None,
                    cf_SQL = Some \<lparr>sq_Driver = ''postgres'', sq_DSN = postgres_dsn opts, sq_Auth = so_Auth opts, sq_ACL = so_Acl opts\<rparr>\<rparr>))
        else if ca_Datasource cfg = 4 then Inr None
        else Inl (ErrConfig ''comqttauthadapter: unknown auth datasource''))"

section \<open>Properties\<close>

text \<open>
  The dashboard manages the store the broker reads. No backend is configured exactly when the
  broker is anonymous or asks over HTTP; otherwise a successful construction yields the backend of the
  broker's datasource, with the dialect of its database, holding the configuration that was loaded. An
  unknown datasource or an unreadable file is an error.
\<close>

theorem configured_backend:
  "(FromComqttConfig Y cfg = Inr None \<longleftrightarrow> ca_Way cfg = 0 \<or> ca_Datasource cfg = 4)
   \<and> (ca_Way cfg \<noteq> 0 \<and> ca_Datasource cfg > 4 \<longrightarrow> FromComqttConfig Y cfg = Inl (ErrConfig ''mqttauth: unknown auth datasource''))
   \<and> (FromComqttConfig Y cfg = Inr (Some c) \<and> factory_New stat sql_Open c = Inr choice \<longrightarrow>
       (case choice of
          FileChoice c' \<Rightarrow> ca_Datasource cfg = 0 \<and> c' = c
        | RedisChoice b \<Rightarrow> ca_Datasource cfg = 1 \<and> rb_cfg b = c
        | SqlChoice b \<Rightarrow> sb_cfg b = c \<and> (ca_Datasource cfg = 2 \<and> sb_dialect b = mysqlDialect
                          \<or> ca_Datasource cfg = 3 \<and> sb_dialect b = postgresDialect)))"
proof (intro conjI impI)
  assume a: "FromComqttConfig Y cfg = Inr (Some c) \<and> factory_New stat sql_Open c = Inr choice"
  then have "ca_Way cfg \<noteq> 0" "ca_Datasource cfg < 4"
    by (auto simp: FromComqttConfig_def Let_def split: if_splits)
  then consider "ca_Datasource cfg = 0" | "ca_Datasource cfg = 1" | "ca_Datasource cfg = 2" | "ca_Datasource cfg = 3" by linarith
  then show "case choice of
          FileChoice c' \<Rightarrow> ca_Datasource cfg = 0 \<and> c' = c
        | RedisChoice b \<Rightarrow> ca_Datasource cfg = 1 \<and> rb_cfg b = c
        | SqlChoice b \<Rightarrow> sb_cfg b = c \<and> (ca_Datasource cfg = 2 \<and> sb_dialect b = mysqlDialect
                          \<or> ca_Datasource cfg = 3 \<and> sb_dialect b = postgresDialect)"
    using a \<open>ca_Way cfg \<noteq> 0\<close>
    by cases (auto simp: FromComqttConfig_def Let_def factory_New_def newFileBackend_def newRedisBackend_def newSQLBackend_def
        split: if_splits option.splits)
qed (auto simp: FromComqttConfig_def Let_def split: option.splits)

definition demo_loader :: yaml_loader where
  "demo_loader = \<lparr>yl_redis = (\<lambda>_. None), yl_mysql = (\<lambda>_. None),
     yl_postgres = (\<lambda>_. Some \<lparr>so_AuthMode = 1, so_AclMode = 2, so_PasswordHash = 1, so_HashKey = [], so_LoginName = ''u'',
       so_LoginPassword = ''p'', so_Host = ''h'', so_Port = 5432, so_Schema = ''db'', so_Extra = ''disable'',
       so_Auth = demo_auth, so_Acl = demo_acl\<rparr>)\<rparr>"

theorem configured_backend_witness:
  "FromComqttConfig demo_loader \<lparr>ca_Way = 1, ca_Datasource = 7, ca_ConfPath = []\<rparr> =
     Inl (ErrConfig ''mqttauth: unknown auth datasource'')
   \<and> FromComqttConfig demo_loader \<lparr>ca_Way = 1, ca_Datasource = 4, ca_ConfPath = []\<rparr> = Inr None"
  using configured_backend [of demo_loader "\<lparr>ca_Way = 1, ca_Datasource = 7, ca_ConfPath = []\<rparr>"]
    configured_backend [of demo_loader "\<lparr>ca_Way = 1, ca_Datasource = 4, ca_ConfPath = []\<rparr>"] by simp

text \<open>
  The two loaders read the same options into the same configuration for every input, so the exact and
  the regex layer of one broker always manage the same store; only the texts of their errors differ.
\<close>

theorem loaders_agree:
  "map_sum (\<lambda>_. ()) id (adapter_FromComqttConfig Y cfg) = map_sum (\<lambda>_. ()) id (FromComqttConfig Y cfg)"
  by (simp add: adapter_FromComqttConfig_def FromComqttConfig_def Let_def split: option.split)

end
