(* ===== verification/Backends.thy ===== *)
theory Backends
  imports MqttConfig
begin

text \<open>
  The four backends side by side: a sequence of account and rule operations run on any implementation
  of the \<open>Backend\<close> interface (\<open>mqttauth/backend.go\<close>) does to the accounts what one function of the
  operations says, so the file, the redis and the SQL backend are interchangeable.
\<close>

section \<open>Sequences of operations\<close>

datatype backend_op =
    PutOp MqttUser string
  | DelOp string
  | RuleOp ACLRule
  | DelRuleOp string

fun run_op :: "'s Backend \<Rightarrow> backend_op \<Rightarrow> 's \<Rightarrow> 's option" where
  "run_op B (PutOp u pw) s = (case BPutUser B u pw s of (Inr _, s') \<Rightarrow> Some s' | (Inl _, _) \<Rightarrow> None)"
| "run_op B (DelOp n) s = (case BDeleteUser B n s of (Inr _, s') \<Rightarrow> Some s' | (Inl _, _) \<Rightarrow> None)"
| "run_op B (RuleOp r) s = (case BPutRule B r s of (Inr _, s') \<Rightarrow> Some s' | (Inl _, _) \<Rightarrow> None)"
| "run_op B (DelRuleOp i) s = (case BDeleteRule B i s of (Inr _, s') \<Rightarrow> Some s' | (Inl _, _) \<Rightarrow> None)"

text \<open>The state after a sequence in which every operation succeeds.\<close>

fun run_ops :: "'s Backend \<Rightarrow> backend_op list \<Rightarrow> 's \<Rightarrow> 's option" where
  "run_ops B [] s = Some s"
| "run_ops B (x # xs) s = (case run_op B x s of None \<Rightarrow> None | Some s' \<Rightarrow> run_ops B xs s')"

text \<open>What it means for the accounts: their permission and the stored password.\<close>

fun spec_op :: "(string \<Rightarrow> string) \<Rightarrow> backend_op \<Rightarrow> (string \<rightharpoonup> bool \<times> string) \<Rightarrow> (string \<rightharpoonup> bool \<times> string)" where
  "spec_op hash (PutOp u pw) m = m(mu_Subject u \<mapsto>
     (mu_Allow u, if pw \<noteq> [] then hash pw else snd (the (m (mu_Subject u)))))"
| "spec_op hash (DelOp n) m = m(n := None)"
| "spec_op hash (RuleOp r) m = m"
| "spec_op hash (DelRuleOp i) m = m"

text \<open>The operations the pages make: subjects without the separator byte, rules without an identifier.\<close>

fun plain_op :: "backend_op \<Rightarrow> bool" where
  "plain_op (PutOp u pw) \<longleftrightarrow> clean_subject (mu_Subject u)"
| "plain_op (DelOp n) \<longleftrightarrow> True"
| "plain_op (RuleOp r) \<longleftrightarrow> clean_subject (ar_Subject r) \<and> ar_ID r = [] \<and> ar_Access r < 256"
| "plain_op (DelRuleOp i) \<longleftrightarrow> True"

context mqtt_backend
begin

lemma run_op_spec:
  assumes "inv s" "plain_op x" "\<And>n. clean_subject n \<Longrightarrow> clean n" "run_op B x s = Some s'"
  shows "inv s' \<and> users s' = spec_op hash x (users s)"
proof (cases x)
  case (PutOp u pw)
  with assms(4) have "BPutUser B u pw s = (Inr (), s')" by (auto split: prod.splits sum.splits)
  with PutUser_Inr [OF assms(1) _ this] assms(2,3) show ?thesis by (simp add: PutOp)
next
  case (DelOp n)
  with assms(4) have "BDeleteUser B n s = (Inr (), s')" by (auto split: prod.splits sum.splits)
  with DeleteUser_Inr [OF assms(1) this] show ?thesis by (simp add: DelOp)
next
  case (RuleOp r)
  with assms(4) obtain i where "BPutRule B r s = (Inr i, s')" by (auto split: prod.splits sum.splits)
  with PutRule_Inr [OF assms(1) _ _ _ this] assms(2,3) show ?thesis by (simp add: RuleOp)
next
  case (DelRuleOp i)
  with assms(4) have "BDeleteRule B i s = (Inr (), s')" by (auto split: prod.splits sum.splits)
  with DeleteRule_Inr [OF assms(1) this] show ?thesis by (simp add: DelRuleOp)
qed

lemma run_ops_spec:
  assumes "inv s" "list_all plain_op xs" "\<And>n. clean_subject n \<Longrightarrow> clean n" "run_ops B xs s = Some s'"
  shows "inv s' \<and> users s' = fold (spec_op hash) xs (users s)"
  using assms
proof (induction xs arbitrary: s)
  case (Cons x xs)
  then obtain t where "run_op B x s = Some t" "run_ops B xs t = Some s'" by (auto split: option.splits)
  moreover have "inv t \<and> users t = spec_op hash x (users s)"
    using run_op_spec [of s x t] Cons.prems calculation(1) by simp
  ultimately show ?case using Cons.IH [of t] Cons.prems(2,3) by simp
qed simp

end

context mqtt_redis
begin

lemmas redis_run_ops = mr.run_ops_spec

end

context mqtt_sql
begin

lemmas sql_run_ops = ms.run_ops_spec

end

section \<open>Properties\<close>


definition demo_ops :: "backend_op list" where
  "demo_ops = [PutOp \<lparr>mu_Subject = ''dev'', mu_Allow = True\<rparr> ''pw'', PutOp \<lparr>mu_Subject = ''eve'', mu_Allow = True\<rparr> ''x'',
     RuleOp \<lparr>ar_ID = [], ar_Subject = ''dev'', ar_Topic = ''a/b'', ar_Access = 3\<rparr>,
     PutOp \<lparr>mu_Subject = ''dev'', mu_Allow = False\<rparr> [], DelOp ''eve'']"

definition empty_ledger :: "unit mfile" where
  "empty_ledger = \<lparr>mf_doc = LDoc \<lparr>lg_Users = None, lg_rest = ()\<rparr>, mf_empty = (), mf_save_ok = True\<rparr>"

definition empty_redis :: mem_state where
  "empty_redis = \<lparr>ms_hash = [], ms_plain = []\<rparr>"

definition empty_db :: mem_db where
  "empty_db = \<lparr>db_users = [], db_rules = [], db_next = 1\<rparr>"


end
