(* ===== verification/RegexPages.thy ===== *)
theory RegexPages
  imports MqttPages
begin

text \<open>
  The page for regular-expression authorization, \<open>dashboard/handlers/mqtt_acl_regex.go\<close>. The rules,
  their store and the parsers of their fields are the module \<open>comqttauth\<close>, which is not part of the
  program: a rule has the fields the page reads and writes, the kinds of permission, subject and
  action are type parameters, and the store is a record of operations with a contract.
\<close>

section \<open>The store\<close>

record ('p, 'k, 'a) RegexRule =
  rr_ID :: string
  rr_Order :: int
  rr_Permission :: 'p
  rr_SubjectKind :: 'k
  rr_SubjectPattern :: string
  rr_Action :: 'a
  rr_TopicPatterns :: "string list"

record ('p, 'k, 'a) regex_lib =
  ParsePermission :: "string \<Rightarrow> 'p option"
  ParseSubjectKind :: "string \<Rightarrow> 'k option"
  ParseRuleAction :: "string \<Rightarrow> 'a option"

record ('s, 'p, 'k, 'a) regex_backend =
  RegexRules :: "'s \<Rightarrow> (mqtt_error, ('p, 'k, 'a) RegexRule list) result"
  PutRegexRule :: "('p, 'k, 'a) RegexRule \<Rightarrow> 's \<Rightarrow> (mqtt_error, string) result \<times> 's"
  DeleteRegexRule :: "string \<Rightarrow> 's \<Rightarrow> (mqtt_error, unit) result \<times> 's"
  GetRegexSeeded :: "'s \<Rightarrow> (mqtt_error, bool) result"
  SetRegexSeeded :: "'s \<Rightarrow> (mqtt_error, unit) result \<times> 's"

section \<open>The page\<close>

datatype form_error = FormInvalid | FormOrder | FormPermission | FormSubjectKind | FormAction | FormPatterns

text \<open>The loop over the lines of the text area.\<close>

definition clean_patterns :: "string \<Rightarrow> string list" where
  "clean_patterns raw = filter (\<lambda>p. p \<noteq> []) (map TrimSpace (Split (CHR 0x0A) raw))"

text \<open>The form is \<open>None\<close> when \<open>ParseForm\<close> fails.\<close>

definition parseRegexRuleForm ::
  "('p, 'k, 'a) regex_lib \<Rightarrow> form_values option \<Rightarrow> (form_error, ('p, 'k, 'a) RegexRule) result" where
  "parseRegexRuleForm X form =
     (case form of
        None \<Rightarrow> Inl FormInvalid
      | Some f \<Rightarrow>
          (case Atoi (TrimSpace (f ''order'')) of
             (_, Some _) \<Rightarrow> Inl FormOrder
           | (order, None) \<Rightarrow>
               (case ParsePermission X (f ''permission'') of
                  None \<Rightarrow> Inl FormPermission
                | Some perm \<Rightarrow>
                    (case ParseSubjectKind X (f ''subject_kind'') of
                       None \<Rightarrow> Inl FormSubjectKind
                     | Some kind \<Rightarrow>
                         (case ParseRuleAction X (f ''action'') of
                            None \<Rightarrow> Inl FormAction
                          | Some act \<Rightarrow>
                              let cleaned = clean_patterns (f ''topic_patterns'')
                              in if cleaned = [] then Inl FormPatterns
                                 else Inr \<lparr>rr_ID = [], rr_Order = order, rr_Permission = perm, rr_SubjectKind = kind,
                                        rr_SubjectPattern = TrimSpace (f ''subject_pattern''), rr_Action = act,
                                        rr_TopicPatterns = cleaned\<rparr>)))))"

datatype regex_page_error = NoError | BadForm form_error | Failed string mqtt_error

record ('p, 'k, 'a) mqttACLRegexPageData =
  xp_Error :: regex_page_error
  xp_Items :: "('p, 'k, 'a) RegexRule list"

definition renderMQTTACLRegexPage ::
  "('s, 'p, 'k, 'a) regex_backend \<Rightarrow> 's \<Rightarrow> regex_page_error \<Rightarrow> ('p, 'k, 'a) mqttACLRegexPageData response" where
  "renderMQTTACLRegexPage B s errMsg =
     (case RegexRules B s of
        Inl e \<Rightarrow> Render StatusOK \<lparr>xp_Error = Failed ''List failed: '' e, xp_Items = []\<rparr>
      | Inr rules \<Rightarrow> Render StatusOK \<lparr>xp_Error = errMsg, xp_Items = rules\<rparr>)"

definition MQTTACLRegexList ::
  "('s, 'p, 'k, 'a) regex_backend \<Rightarrow> 's \<Rightarrow> ('p, 'k, 'a) mqttACLRegexPageData response" where
  "MQTTACLRegexList B s = renderMQTTACLRegexPage B s NoError"

definition MQTTACLRegexCreate ::
  "('p, 'k, 'a) regex_lib \<Rightarrow> ('s, 'p, 'k, 'a) regex_backend \<Rightarrow> form_values option \<Rightarrow> 's \<Rightarrow>
     ('p, 'k, 'a) mqttACLRegexPageData response \<times> 's" where
  "MQTTACLRegexCreate X B form s =
     (case parseRegexRuleForm X form of
        Inl err \<Rightarrow> (renderMQTTACLRegexPage B s (BadForm err), s)
      | Inr rule \<Rightarrow>
          (case PutRegexRule B rule s of
             (Inl e, s') \<Rightarrow> (renderMQTTACLRegexPage B s' (Failed ''Create failed: '' e), s')
           | (Inr _, s') \<Rightarrow> (Redirect StatusFound ''/dashboard/mqtt-acl-regex'', s')))"

definition MQTTACLRegexUpdate ::
  "('p, 'k, 'a) regex_lib \<Rightarrow> ('s, 'p, 'k, 'a) regex_backend \<Rightarrow> string \<Rightarrow> form_values option \<Rightarrow> 's \<Rightarrow>
     ('p, 'k, 'a) mqttACLRegexPageData response \<times> 's" where
  "MQTTACLRegexUpdate X B i form s =
     (if i = [] then (HttpError StatusBadRequest ''id required'', s)
      else case parseRegexRuleForm X form of
        Inl err \<Rightarrow> (renderMQTTACLRegexPage B s (BadForm err), s)
      | Inr rule \<Rightarrow>
          (case PutRegexRule B (rule\<lparr>rr_ID := i\<rparr>) s of
             (Inl e, s') \<Rightarrow> (renderMQTTACLRegexPage B s' (Failed ''Update failed: '' e), s')
           | (Inr _, s') \<Rightarrow> (Redirect StatusFound ''/dashboard/mqtt-acl-regex'', s')))"

definition MQTTACLRegexDelete ::
  "('s, 'p, 'k, 'a) regex_backend \<Rightarrow> string \<Rightarrow> 's \<Rightarrow> unit response \<times> 's" where
  "MQTTACLRegexDelete B i s =
     (if i = [] then (HttpError StatusBadRequest ''id required'', s)
      else case DeleteRegexRule B i s of
        (Inl MErrNotFound, s') \<Rightarrow> (NotFound, s')
      | (Inl e, s') \<Rightarrow> (HttpError StatusInternalServerError [], s')
      | (Inr _, s') \<Rightarrow> (Redirect StatusFound ''/dashboard/mqtt-acl-regex'', s'))"

definition MQTTACLRegexReorder ::
  "('s, 'p, 'k, 'a) regex_backend \<Rightarrow> string \<Rightarrow> string \<Rightarrow> 's \<Rightarrow> unit response \<times> 's" where
  "MQTTACLRegexReorder B direction i s =
     (if i = [] then (HttpError StatusBadRequest ''id required'', s)
      else case RegexRules B s of
        Inl e \<Rightarrow> (HttpError StatusInternalServerError [], s)
      | Inr rules \<Rightarrow>
          (case find (\<lambda>ru. rr_ID ru = i) rules of
             None \<Rightarrow> (NotFound, s)
           | Some target \<Rightarrow>
               (case (if direction = ''up'' then Some (wrap64 (rr_Order target - 10))
                      else if direction = ''down'' then Some (wrap64 (rr_Order target + 10)) else None) of
                  None \<Rightarrow> (HttpError StatusBadRequest ''unknown direction'', s)
                | Some order \<Rightarrow>
                    (case PutRegexRule B (target\<lparr>rr_Order := order\<rparr>) s of
                       (Inl e, s') \<Rightarrow> (HttpError StatusInternalServerError [], s')
                     | (Inr _, s') \<Rightarrow> (Redirect StatusFound ''/dashboard/mqtt-acl-regex'', s')))))"

section \<open>The contract of the store\<close>

text \<open>
  What the page relies on: a list of all rules, each under its identifier; a put under an identifier
  replaces that rule and a put without one adds a rule under a fresh identifier; a deletion removes
  one rule; the mark that the store was seeded is kept beside the rules.
\<close>

locale regex_store =
  fixes B :: "('s, 'p, 'k, 'a) regex_backend"
    and rules :: "'s \<Rightarrow> string \<rightharpoonup> ('p, 'k, 'a) RegexRule"
    and seeded :: "'s \<Rightarrow> bool"
  assumes rules_id: "rules s i = Some r \<Longrightarrow> rr_ID r = i"
    and RegexRules_Inr: "RegexRules B s = Inr rs \<Longrightarrow> distinct (map rr_ID rs) \<and> set rs = ran (rules s)"
    and Put_new: "PutRegexRule B r s = (Inr i, s') \<Longrightarrow> rr_ID r = [] \<Longrightarrow>
        i \<noteq> [] \<and> rules s i = None \<and> rules s' = (rules s)(i \<mapsto> r\<lparr>rr_ID := i\<rparr>) \<and> seeded s' = seeded s"
    and Put_old: "PutRegexRule B r s = (Inr i, s') \<Longrightarrow> rr_ID r \<noteq> [] \<Longrightarrow>
        rules s' = (rules s)(rr_ID r \<mapsto> r) \<and> seeded s' = seeded s"
    and Delete_Inr: "DeleteRegexRule B i s = (Inr (), s') \<Longrightarrow>
        rules s' = (rules s)(i := None) \<and> seeded s' = seeded s"
    and Seeded_Inr: "GetRegexSeeded B s = Inr b \<Longrightarrow> b = seeded s"
    and SetSeeded_Inr: "SetRegexSeeded B s = (Inr (), s') \<Longrightarrow> seeded s' \<and> rules s' = rules s"
begin

lemma find_rule:
  assumes "RegexRules B s = Inr rs"
  shows "find (\<lambda>ru. rr_ID ru = i) rs = rules s i"
proof (cases "rules s i")
  case None
  then have "\<forall>r \<in> set rs. rr_ID r \<noteq> i"
    using RegexRules_Inr [OF assms] rules_id by (fastforce simp: ran_def)
  then show ?thesis using None by (simp add: find_None_iff)
next
  case (Some r)
  then have r: "r \<in> set rs" "rr_ID r = i" using RegexRules_Inr [OF assms] rules_id by (auto simp: ran_def)
  then obtain r' where f: "find (\<lambda>ru. rr_ID ru = i) rs = Some r'"
    by (cases "find (\<lambda>ru. rr_ID ru = i) rs") (auto simp: find_None_iff)
  then have "r' \<in> set rs" "rr_ID r' = i" by (auto simp: find_Some_iff)
  then have "r' = r" using r RegexRules_Inr [OF assms] by (auto simp: distinct_map inj_on_def)
  then show ?thesis using Some f by simp
qed

lemma reorder_effect:
  assumes "MQTTACLRegexReorder B direction i s = (Redirect code url, s')"
  shows "\<exists>r. rules s i = Some r \<and> direction \<in> {''up'', ''down''} \<and> rules s' = (rules s)(i \<mapsto>
    r\<lparr>rr_Order := wrap64 (rr_Order r + (if direction = ''up'' then - 10 else 10))\<rparr>)"
proof -
  obtain rs where rs: "RegexRules B s = Inr rs" and i: "i \<noteq> []"
    using assms by (auto simp: MQTTACLRegexReorder_def split: if_splits sum.splits)
  obtain r where r: "rules s i = Some r"
    using assms rs i by (cases "rules s i") (auto simp: MQTTACLRegexReorder_def find_rule [OF rs])
  let ?r = "r\<lparr>rr_Order := wrap64 (rr_Order r + (if direction = ''up'' then - 10 else 10))\<rparr>"
  have "direction \<in> {''up'', ''down''} \<and> (\<exists>x. PutRegexRule B ?r s = (Inr x, s'))"
    using assms rs i r
    by (auto simp: MQTTACLRegexReorder_def find_rule [OF rs] split: if_splits prod.splits sum.splits)
  moreover have "rr_ID ?r = i" using rules_id [OF r] by simp
  ultimately show ?thesis using r i Put_old [of ?r s] by auto
qed

end

section \<open>A store in memory\<close>

type_synonym ('p, 'k, 'a) mem_regex = "(string \<times> ('p, 'k, 'a) RegexRule) list \<times> bool"

definition fresh_id :: "(string \<times> 'r) list \<Rightarrow> string" where
  "fresh_id l = replicate (Suc (sum_list (map (length \<circ> fst) l))) (CHR ''r'')"

definition mem_put :: "('p, 'k, 'a) RegexRule \<Rightarrow> ('p, 'k, 'a) mem_regex \<Rightarrow> (mqtt_error, string) result \<times> ('p, 'k, 'a) mem_regex" where
  "mem_put r s = (let i = (if rr_ID r = [] then fresh_id (fst s) else rr_ID r)
     in (Inr i, (AList.update i r (fst s), snd s)))"

text \<open>A rule is stored under its identifier; reading it back fills the identifier in.\<close>

definition mem_regex_rules :: "('p, 'k, 'a) mem_regex \<Rightarrow> string \<rightharpoonup> ('p, 'k, 'a) RegexRule" where
  "mem_regex_rules s i = map_option (\<lambda>r. r\<lparr>rr_ID := i\<rparr>) (map_of (fst s) i)"

definition mem_regex_store :: "(('p, 'k, 'a) mem_regex, 'p, 'k, 'a) regex_backend" where
  "mem_regex_store = \<lparr>RegexRules = (\<lambda>s. Inr (map (\<lambda>(i, r). r\<lparr>rr_ID := i\<rparr>) (AList.clearjunk (fst s)))),
     PutRegexRule = mem_put,
     DeleteRegexRule = (\<lambda>i s. if map_of (fst s) i = None then (Inl MErrNotFound, s)
       else (Inr (), (AList.delete i (fst s), snd s))),
     GetRegexSeeded = (\<lambda>s. Inr (snd s)), SetRegexSeeded = (\<lambda>s. (Inr (), (fst s, True)))\<rparr>"

lemma mem_regex_rules_Nil [simp]: "mem_regex_rules ([], m) = Map.empty"
  by (simp add: mem_regex_rules_def fun_eq_iff)

lemma fresh_id: "fresh_id l \<noteq> []" "map_of l (fresh_id l) = None"
proof -
  have "length k \<le> sum_list (map (length \<circ> fst) l)" if "(k, r) \<in> set l" for k r
    using that member_le_sum_list [of "length k" "map (length \<circ> fst) l"] by force
  then show "map_of l (fresh_id l) = None"
    by (fastforce simp: map_of_eq_None_iff fresh_id_def image_iff)
qed (simp add: fresh_id_def)

interpretation memx: regex_store mem_regex_store mem_regex_rules snd
proof (unfold_locales, goal_cases)
  case (2 s rs)
  then have rs: "rs = map (\<lambda>(i, r). r\<lparr>rr_ID := i\<rparr>) (AList.clearjunk (fst s))" by (simp add: mem_regex_store_def)
  have "map rr_ID rs = map fst (AList.clearjunk (fst s))" by (simp add: rs case_prod_unfold)
  moreover have "set rs = ran (mem_regex_rules s)"
    by (force simp: rs ran_def mem_regex_rules_def set_clearjunk image_iff)
  ultimately show ?case by (simp add: distinct_clearjunk)
next
  case (3 r s i s')
  then have "i = fresh_id (fst s)" "s' = (AList.update i r (fst s), snd s)"
    by (auto simp: mem_regex_store_def mem_put_def Let_def)
  then show ?case by (auto simp: fresh_id mem_regex_rules_def fun_eq_iff update_conv')
next
  case (4 r s i s')
  then show ?case by (auto simp: mem_regex_store_def mem_put_def Let_def mem_regex_rules_def fun_eq_iff update_conv')
qed (auto simp: mem_regex_store_def mem_regex_rules_def fun_eq_iff delete_conv' split: if_splits)

section \<open>Properties\<close>

lemma clean_patterns_mem:
  "p \<in> set (clean_patterns raw) \<Longrightarrow> p \<noteq> [] \<and> TrimSpace p = p \<and> CHR 0x0A \<notin> set p"
  using set_TrimSpace by (fastforce simp: clean_patterns_def dest: Split_no_sep)

lemma clean_patterns_Join:
  assumes "ps \<noteq> []" "\<forall>p \<in> set ps. p \<noteq> [] \<and> TrimSpace p = p \<and> CHR 0x0A \<notin> set p"
  shows "clean_patterns (Join (CHR 0x0A) ps) = ps"
proof -
  have "map TrimSpace ps = ps" using assms(2) by (simp add: map_idI)
  moreover have "filter (\<lambda>p. p \<noteq> []) ps = ps" using assms(2) by simp
  ultimately show ?thesis using assms by (simp add: clean_patterns_def Split_Join)
qed

text \<open>
  Creating a rule on the page, over any store that meets its contract: a redirect means that the
  form was complete, and that the store has exactly one more rule, with the order, permission, kind
  and action of the form and with the topic patterns of the text area, of which there is at least
  one: none is blank, has white space around it or spans lines. Entering those patterns again, one
  per line, gives the same list.
\<close>

theorem regex_create_rule:
  assumes "regex_store B rules seeded" "MQTTACLRegexCreate X B form s = (Redirect code url, s')"
  shows "\<exists>f i r. form = Some f \<and> i \<noteq> [] \<and> rules s i = None \<and> rules s' = (rules s)(i \<mapsto> r\<lparr>rr_ID := i\<rparr>)
    \<and> Atoi (TrimSpace (f ''order'')) = (rr_Order r, None)
    \<and> ParsePermission X (f ''permission'') = Some (rr_Permission r)
    \<and> ParseSubjectKind X (f ''subject_kind'') = Some (rr_SubjectKind r)
    \<and> ParseRuleAction X (f ''action'') = Some (rr_Action r)
    \<and> rr_TopicPatterns r \<noteq> [] \<and> (\<forall>p \<in> set (rr_TopicPatterns r). p \<noteq> [] \<and> TrimSpace p = p \<and> CHR 0x0A \<notin> set p)
    \<and> clean_patterns (f ''topic_patterns'') = rr_TopicPatterns r
    \<and> clean_patterns (Join (CHR 0x0A) (rr_TopicPatterns r)) = rr_TopicPatterns r"
proof -
  obtain r i where p: "parseRegexRuleForm X form = Inr r" and put: "PutRegexRule B r s = (Inr i, s')"
    using assms(2)
    by (auto simp: MQTTACLRegexCreate_def renderMQTTACLRegexPage_def split: sum.splits prod.splits)
  obtain f where f: "form = Some f" "Atoi (TrimSpace (f ''order'')) = (rr_Order r, None)"
    "ParsePermission X (f ''permission'') = Some (rr_Permission r)"
    "ParseSubjectKind X (f ''subject_kind'') = Some (rr_SubjectKind r)"
    "ParseRuleAction X (f ''action'') = Some (rr_Action r)"
    "rr_TopicPatterns r = clean_patterns (f ''topic_patterns'')" "rr_TopicPatterns r \<noteq> []" "rr_ID r = []"
    using p by (auto simp: parseRegexRuleForm_def Let_def split: option.splits prod.splits if_splits)
  have "\<forall>p \<in> set (rr_TopicPatterns r). p \<noteq> [] \<and> TrimSpace p = p \<and> CHR 0x0A \<notin> set p"
    using f(6) clean_patterns_mem by metis
  then show ?thesis
    using f regex_store.Put_new [OF assms(1) put f(8)] clean_patterns_Join [OF f(7)]
    by (intro exI [of _ f] exI [of _ i] exI [of _ r]) auto
qed

definition demo_regex_lib :: "(bool, unit, unit) regex_lib" where
  "demo_regex_lib = \<lparr>ParsePermission = (\<lambda>s. if s = ''allow'' then Some True else if s = ''deny'' then Some False else None),
     ParseSubjectKind = (\<lambda>s. if s = ''username'' then Some () else None),
     ParseRuleAction = (\<lambda>s. if s = ''pub'' then Some () else None)\<rparr>"

definition demo_regex_form :: form_values where
  "demo_regex_form = (\<lambda>k. the (map_of [(''order'', ''100''), (''permission'', ''allow''), (''subject_kind'', ''username''),
     (''subject_pattern'', ''alice''), (''action'', ''pub''), (''topic_patterns'', ''a/#'')] k))"

theorem regex_create_rule_witness:
  "\<exists>i r. mem_regex_rules (snd (MQTTACLRegexCreate demo_regex_lib mem_regex_store (Some demo_regex_form) ([], False)))
      = [i \<mapsto> r] \<and> rr_Order r = 100 \<and> rr_TopicPatterns r = [''a/#'']"
proof -
  let ?x = "MQTTACLRegexCreate demo_regex_lib mem_regex_store (Some demo_regex_form) ([], False)"
  have o: "Atoi (TrimSpace (demo_regex_form ''order'')) = (100, None)" by code_simp
  have c: "clean_patterns (demo_regex_form ''topic_patterns'') = [''a/#'']" by code_simp
  have "fst ?x = Redirect StatusFound ''/dashboard/mqtt-acl-regex''"
    using o c by (simp add: MQTTACLRegexCreate_def parseRegexRuleForm_def mem_regex_store_def mem_put_def Let_def
        demo_regex_lib_def) (simp add: demo_regex_form_def)
  then have "?x = (Redirect StatusFound ''/dashboard/mqtt-acl-regex'', snd ?x)" by (simp add: prod_eq_iff)
  from regex_create_rule [OF memx.regex_store_axioms this]
  obtain f i r where "Some demo_regex_form = Some f"
    "mem_regex_rules (snd ?x) = (mem_regex_rules ([], False))(i \<mapsto> r\<lparr>rr_ID := i\<rparr>)"
    "Atoi (TrimSpace (f ''order'')) = (rr_Order r, None)" "clean_patterns (f ''topic_patterns'') = rr_TopicPatterns r"
    by blast
  then show ?thesis using o c by (intro exI [of _ i] exI [of _ "r\<lparr>rr_ID := i\<rparr>"]) simp
qed

text \<open>
  C33. Moving a rule on the page changes the order of that one rule and nothing else, and moving it up
  and down again leaves every rule as it was, for every order that is an \<open>int\<close>.
\<close>

theorem regex_reorder_roundtrip:
  assumes "regex_store B rules seeded" "rules s i = Some r" "is_int64 (rr_Order r)"
    and "MQTTACLRegexReorder B ''up'' i s = (Redirect code url, s1)"
    and "MQTTACLRegexReorder B ''down'' i s1 = (Redirect code' url', s2)"
  shows "(\<forall>j. j \<noteq> i \<longrightarrow> rules s1 j = rules s j) \<and> rules s1 i = Some (r\<lparr>rr_Order := wrap64 (rr_Order r - 10)\<rparr>)
    \<and> rules s2 = rules s"
proof -
  have u: "rules s1 = (rules s)(i \<mapsto> r\<lparr>rr_Order := wrap64 (rr_Order r - 10)\<rparr>)"
    using regex_store.reorder_effect [OF assms(1,4)] assms(2) by auto
  have "wrap64 (wrap64 (rr_Order r - 10) + 10) = rr_Order r"
    using assms(3) by simp
  then have "rules s2 = (rules s1)(i \<mapsto> r)"
    using regex_store.reorder_effect [OF assms(1,5)] u by auto
  then show ?thesis using u assms(2) by auto
qed

definition demo_regex_rule :: "(bool, unit, unit) RegexRule" where
  "demo_regex_rule = \<lparr>rr_ID = ''r'', rr_Order = MinInt64, rr_Permission = True, rr_SubjectKind = (), rr_SubjectPattern = [],
     rr_Action = (), rr_TopicPatterns = [''#'']\<rparr>"

theorem regex_reorder_roundtrip_witness:
  "mem_regex_rules (snd (MQTTACLRegexReorder mem_regex_store ''down'' ''r''
     (snd (MQTTACLRegexReorder mem_regex_store ''up'' ''r'' ([(''r'', demo_regex_rule)], True))))) =
   mem_regex_rules ([(''r'', demo_regex_rule)], True)"
proof -
  let ?s = "([(''r'', demo_regex_rule)], True)"
  let ?u = "MQTTACLRegexReorder mem_regex_store ''up'' ''r'' ?s"
  let ?d = "MQTTACLRegexReorder mem_regex_store ''down'' ''r'' (snd ?u)"
  have i: "mem_regex_rules ?s ''r'' = Some demo_regex_rule" "is_int64 (rr_Order demo_regex_rule)"
    by (simp_all add: mem_regex_rules_def demo_regex_rule_def is_int64_def)
  have "?u = (Redirect StatusFound ''/dashboard/mqtt-acl-regex'', snd ?u)"
    "?d = (Redirect StatusFound ''/dashboard/mqtt-acl-regex'', snd ?d)"
    by (simp_all add: MQTTACLRegexReorder_def mem_regex_store_def mem_put_def Let_def demo_regex_rule_def)
  from regex_reorder_roundtrip [OF memx.regex_store_axioms i this] show ?thesis by blast
qed

end
