(* ===== verification/Binaries.thy ===== *)
theory Binaries
  imports Dashboard MqttConfig RegexPages
begin

text \<open>
  The two programs, \<open>cmd/comqtt-dashboard/main.go\<close> and \<open>cmd/comqtt-cluster-dashboard/main.go\<close>: from the
  parsed flags to the broker that serves. The broker, its plugins and the configuration loader are
  third-party code; the model keeps what the programs give them, in order (hooks with their options,
  listeners with their addresses, the routes of the HTTP listener), and takes the outcome of every
  call that can fail from an environment. A function returns an error (the fixed part of its text) or
  a value, and the new state.
\<close>

section \<open>Errors and state\<close>

type_synonym ('s, 'a) run = "'s \<Rightarrow> (string, 'a) result \<times> 's"

definition pass :: "'a \<Rightarrow> ('s, 'a) run" where
  "pass a s = (Inr a, s)"

definition fail :: "string \<Rightarrow> ('s, 'a) run" where
  "fail e s = (Inl e, s)"

definition andThen :: "('s, 'a) run \<Rightarrow> ('a \<Rightarrow> ('s, 'b) run) \<Rightarrow> ('s, 'b) run" where
  "andThen m f s = (case m s of (Inl e, s') \<Rightarrow> (Inl e, s') | (Inr a, s') \<Rightarrow> f a s')"

definition orFail :: "string \<Rightarrow> 'a option \<Rightarrow> ('s, 'a) run" where
  "orFail e x = (case x of None \<Rightarrow> fail e | Some a \<Rightarrow> pass a)"

lemma andThen_Inr: "andThen m f s = (Inr b, s') \<longleftrightarrow> (\<exists>a s1. m s = (Inr a, s1) \<and> f a s1 = (Inr b, s'))"
  by (auto simp: andThen_def split: prod.splits sum.splits)

named_theorems run_iff \<open>when a step of a run succeeds, and what it leaves\<close>

lemma andThen_InrE:
  assumes "andThen m f s = (Inr b, s')"
  obtains a s1 where "m s = (Inr a, s1)" "f a s1 = (Inr b, s')"
  using assms unfolding andThen_Inr by blast

lemma run_simps [simp]:
  "pass a s = (Inr b, s') \<longleftrightarrow> b = a \<and> s' = s" "fail e s \<noteq> (Inr b, s')"
  "orFail e x s = (Inr b, s') \<longleftrightarrow> x = Some b \<and> s' = s"
  by (auto simp: pass_def fail_def orFail_def split: option.splits)

section \<open>Configuration and state of a start\<close>

record redis_login =
  rl_Addr :: string
  rl_DB :: int
  rl_User :: string
  rl_Pass :: string

record comqtt_config =
  cc_StorageWay :: nat
  cc_StoragePath :: string
  cc_Redis :: redis_login
  cc_HPrefix :: string
  cc_Auth :: comqtt_auth
  cc_BlacklistPath :: string
  cc_BridgeWay :: nat
  cc_BridgePath :: string
  cc_TCP :: string
  cc_WS :: string
  cc_QUIC :: string
  cc_HTTP :: string
  cc_NodeName :: string
  cc_BindPort :: int
  cc_Members :: "string list option"

datatype hook =
    AllowHook
  | LedgerHook bytes
  | RedisAuth redis_options
  | MysqlAuth sql_options
  | PostgresAuth sql_options
  | HttpAuth string \<comment> \<open>the file of its options\<close>
  | BoltHook string
  | BadgerHook string
  | RedisHook string redis_login
  | ClusterStorage string redis_login
  | KafkaBridge string
  | RegexHook

definition auth_hook :: "hook \<Rightarrow> bool" where
  "auth_hook h = (case h of AllowHook \<Rightarrow> True | LedgerHook _ \<Rightarrow> True | RedisAuth _ \<Rightarrow> True | MysqlAuth _ \<Rightarrow> True
     | PostgresAuth _ \<Rightarrow> True | HttpAuth _ \<Rightarrow> True | _ \<Rightarrow> False)"

datatype listener_tls = NoTls | ConfTls | SelfSigned

text \<open>Who answers a pattern of the HTTP listener: the broker's own REST API or a handler of the program.\<close>

datatype handler = Stock string | AddonRest string | ClusterMirror string | DashHandler guard string

text \<open>What a run closes: \<open>defer\<close>d closers and those of its last lines.\<close>

datatype resource = RedisClient | MqttBackend | RegexBackend | DashCleanup | AgentStop | ServerClose

text \<open>
  The environment: \<open>AddHook\<close> and \<open>AddListener\<close> by their arguments, the files and their decoders, TLS
  (\<open>None\<close> an error, otherwise whether it is configured), the patterns of the broker's REST handlers,
  the constructors of the two backends, and what \<open>dashboard.Routes\<close> meets.
\<close>

record ('x, 'p, 'k, 'a, 's) main_env =
  me_addHook :: "hook \<Rightarrow> bool"
  me_addListener :: "string \<Rightarrow> string \<Rightarrow> bool"
  me_readFile :: "string \<Rightarrow> bytes option"
  me_yaml :: yaml_loader
  me_httpYaml :: "string \<Rightarrow> bool"
  me_kafkaYaml :: "string \<Rightarrow> bool"
  me_ledgerYaml :: "string \<Rightarrow> bool"
  me_load :: "string \<Rightarrow> comqtt_config option"
  me_addon :: "bytes \<Rightarrow> addonConfig option option"
  me_tls :: "bool option"
  me_selfSigned :: bool
  me_agentStart :: bool
  me_stock :: "string list"
  me_clusterStock :: "string list"
  me_stat :: "string \<Rightarrow> unit option"
  me_sqlOpen :: "string \<Rightarrow> string \<Rightarrow> bool"
  me_regexNew :: "Config \<Rightarrow> bool"
  me_regex :: "('x, 'p, 'k, 'a) regex_backend"
  me_allow :: 'p
  me_deny :: 'p
  me_username :: 'k
  me_all :: 'a
  me_redis :: "redis_login \<Rightarrow> 's redis"
  me_boot :: boot_env
  me_auth :: auth_env
  me_encode :: "User \<Rightarrow> bytes"
  me_dirOk :: bool
  me_doc :: file_doc
  me_write :: write_outcome
  me_eventHook :: bool

record ('x, 's) main_state =
  mn_hooks :: "hook list"
  mn_blacklist :: bool \<comment> \<open>\<open>SetBlacklist\<close> was called on the options\<close>
  mn_listeners :: "(string \<times> string \<times> listener_tls) list"
  mn_agent :: bool
  mn_mqtt :: "backend_choice option"
  mn_regexOn :: bool
  mn_dashboard :: "(unit, 's) dashboard option"
  mn_handlers :: "string \<rightharpoonup> handler"
  mn_regex :: 'x
  mn_boot :: "'s boot_state"
  mn_defers :: "resource list"
  mn_closed :: "resource list"

definition add_hook :: "('x, 'p, 'k, 'a, 's) main_env \<Rightarrow> string \<Rightarrow> hook \<Rightarrow> (('x, 's) main_state, unit) run" where
  "add_hook E err h s = (if me_addHook E h then (Inr (), s\<lparr>mn_hooks := mn_hooks s @ [h]\<rparr>) else (Inl err, s))"

definition add_listener ::
  "('x, 'p, 'k, 'a, 's) main_env \<Rightarrow> string \<Rightarrow> string \<Rightarrow> string \<Rightarrow> listener_tls \<Rightarrow> (('x, 's) main_state, unit) run" where
  "add_listener E err name addr tls s =
     (if me_addListener E name addr then (Inr (), s\<lparr>mn_listeners := mn_listeners s @ [(name, addr, tls)]\<rparr>)
      else (Inl err, s))"

text \<open>\<open>defer\<close>: the closer runs when \<open>realMain\<close> returns, the last one first.\<close>

definition defer_close :: "resource \<Rightarrow> (('x, 's) main_state, unit) run" where
  "defer_close r s = (Inr (), s\<lparr>mn_defers := r # mn_defers s\<rparr>)"

section \<open>Authentication, storage and bridge\<close>

definition initAuth :: "('x, 'p, 'k, 'a, 's) main_env \<Rightarrow> comqtt_config \<Rightarrow> (('x, 's) main_state, unit) run" where
  "initAuth E conf =
     (let A = cc_Auth conf; path = ca_ConfPath A; msg = ''init auth'' in
      if ca_Way A = 0 then add_hook E msg AllowHook
      else if ca_Way A \<noteq> 1 \<and> ca_Way A \<noteq> 2 then fail ''auth way''
      else if ca_Datasource A = 0 then
        andThen (orFail msg (me_readFile E path)) (\<lambda>data. add_hook E msg (LedgerHook data))
      else if ca_Datasource A = 1 then
        andThen (orFail msg (yl_redis (me_yaml E) path)) (\<lambda>opts. add_hook E msg (RedisAuth opts))
      else if ca_Datasource A = 2 then
        andThen (orFail msg (yl_mysql (me_yaml E) path)) (\<lambda>opts. add_hook E msg (MysqlAuth opts))
      else if ca_Datasource A = 3 then
        andThen (orFail msg (yl_postgres (me_yaml E) path)) (\<lambda>opts. add_hook E msg (PostgresAuth opts))
      else if ca_Datasource A = 4 then
        (if me_httpYaml E path then add_hook E msg (HttpAuth path) else fail msg)
      else pass ())"

definition set_blacklist :: "(('x, 's) main_state, unit) run" where
  "set_blacklist s = (Inr (), s\<lparr>mn_blacklist := True\<rparr>)"

definition cluster_initAuth :: "('x, 'p, 'k, 'a, 's) main_env \<Rightarrow> comqtt_config \<Rightarrow> (('x, 's) main_state, unit) run" where
  "cluster_initAuth E conf =
     (let A = cc_Auth conf; path = ca_ConfPath A; msg = ''init auth'' in
      if ca_Way A = 0 then add_hook E msg AllowHook
      else if ca_Way A \<noteq> 1 \<and> ca_Way A \<noteq> 2 then fail ''auth way''
      else if cc_BlacklistPath conf \<noteq> [] \<and> \<not> me_ledgerYaml E (cc_BlacklistPath conf) then fail msg
      else if ca_Datasource A = 0 then
        andThen (orFail msg (me_readFile E path)) (\<lambda>data. add_hook E msg (LedgerHook data))
      else if ca_Datasource A = 1 then
        andThen (orFail msg (yl_redis (me_yaml E) path)) (\<lambda>opts.
          andThen (add_hook E msg (RedisAuth opts)) (\<lambda>_. set_blacklist))
      else if ca_Datasource A = 2 then
        andThen (orFail msg (yl_mysql (me_yaml E) path)) (\<lambda>opts.
          andThen (add_hook E msg (MysqlAuth opts)) (\<lambda>_. set_blacklist))
      else if ca_Datasource A = 3 then
        andThen (orFail msg (yl_postgres (me_yaml E) path)) (\<lambda>opts.
          andThen (add_hook E msg (PostgresAuth opts)) (\<lambda>_. set_blacklist))
      else if ca_Datasource A = 4 then
        (if me_httpYaml E path then andThen (add_hook E msg (HttpAuth path)) (\<lambda>_. set_blacklist) else fail msg)
      else pass ())"

definition initStorage :: "('x, 'p, 'k, 'a, 's) main_env \<Rightarrow> comqtt_config \<Rightarrow> (('x, 's) main_state, unit) run" where
  "initStorage E conf =
     (if cc_StorageWay conf = 1 then add_hook E ''bolt'' (BoltHook (cc_StoragePath conf))
      else if cc_StorageWay conf = 2 then add_hook E ''badger'' (BadgerHook (cc_StoragePath conf))
      else if cc_StorageWay conf = 3 then
        add_hook E ''redis'' (RedisHook (cc_HPrefix conf) ((cc_Redis conf)\<lparr>rl_User := []\<rparr>))
      else pass ())"

definition cluster_initStorage :: "('x, 'p, 'k, 'a, 's) main_env \<Rightarrow> comqtt_config \<Rightarrow> (('x, 's) main_state, unit) run" where
  "cluster_initStorage E conf =
     (if cc_StorageWay conf \<noteq> 3 then fail ''storage way''
      else add_hook E ''redis'' (ClusterStorage (cc_HPrefix conf) (cc_Redis conf)))"

definition initBridge :: "('x, 'p, 'k, 'a, 's) main_env \<Rightarrow> comqtt_config \<Rightarrow> (('x, 's) main_state, unit) run" where
  "initBridge E conf =
     (if cc_BridgeWay conf = 0 then pass ()
      else if cc_BridgeWay conf = 1 then
        (if me_kafkaYaml E (cc_BridgePath conf) then add_hook E ''kafka'' (KafkaBridge (cc_BridgePath conf))
         else fail ''init bridge'')
      else pass ())"

definition cluster_initBridge :: "('x, 'p, 'k, 'a, 's) main_env \<Rightarrow> comqtt_config \<Rightarrow> (('x, 's) main_state, unit) run" where
  "cluster_initBridge E conf =
     (if cc_BridgeWay conf = 0 then pass ()
      else if cc_BridgeWay conf = 1 then
        andThen (if me_kafkaYaml E (cc_BridgePath conf) then pass () else fail ''init bridge'')
          (\<lambda>_. add_hook E ''kafka'' (KafkaBridge (cc_BridgePath conf)))
      else pass ())"

section \<open>Configuration and listeners\<close>

definition read_config :: "('x, 'p, 'k, 'a, 's) main_env \<Rightarrow> string \<Rightarrow> comqtt_config \<Rightarrow> (('x, 's) main_state, comqtt_config) run" where
  "read_config E confFile cfg =
     (if confFile \<noteq> [] then orFail ''load config'' (me_load E confFile) else pass cfg)"

definition cluster_read_config ::
  "('x, 'p, 'k, 'a, 's) main_env \<Rightarrow> string \<Rightarrow> string \<Rightarrow> comqtt_config \<Rightarrow> (('x, 's) main_state, comqtt_config) run" where
  "cluster_read_config E confFile members cfg =
     (if confFile \<noteq> [] then orFail ''load config'' (me_load E confFile)
      else if members \<noteq> [] then pass (cfg\<lparr>cc_Members := Some (Split (CHR '','') members)\<rparr>)
      else pass (cfg\<lparr>cc_Members := Some [''127.0.0.1:'' @ FormatInt (cc_BindPort cfg)]\<rparr>))"

definition read_addon :: "('x, 'p, 'k, 'a, 's) main_env \<Rightarrow> string \<Rightarrow> (('x, 's) main_state, addonConfig) run" where
  "read_addon E confFile =
     (case loadAddonConfig (me_readFile E confFile) (me_addon E) confFile of
        Inl ErrReadConfig \<Rightarrow> fail ''read''
      | Inl ErrParseConfig \<Rightarrow> fail ''parse''
      | Inr c \<Rightarrow> pass c)"

text \<open>
  The cluster program has a copy of \<open>config.go\<close>, \<open>cmd/comqtt-cluster-dashboard/config.go\<close>: its functions,
  on the same type.
\<close>

definition cluster_defaultAddonConfig :: addonConfig where
  "cluster_defaultAddonConfig = \<lparr>ac_Enabled = True, ac_SessionSecret = [], ac_PasswordExpiryDays = 0\<rparr>"

definition cluster_loadAddonConfig ::
  "bytes option \<Rightarrow> (bytes \<Rightarrow> addonConfig option option) \<Rightarrow> string \<Rightarrow> (config_error, addonConfig) result" where
  "cluster_loadAddonConfig file parse path =
     (let cfg = cluster_defaultAddonConfig in
      if path = [] then Inr cfg
      else case file of
        None \<Rightarrow> Inl ErrReadConfig
      | Some raw \<Rightarrow> (case parse raw of None \<Rightarrow> Inl ErrParseConfig | Some sect \<Rightarrow> Inr (case sect of None \<Rightarrow> cfg | Some c \<Rightarrow> c)))"

definition cluster_decodeSecret :: "addonConfig \<Rightarrow> bytes option" where
  "cluster_decodeSecret c =
     (if ac_SessionSecret c = [] then None
      else case StdDecodeString (ac_SessionSecret c) of
        Some b \<Rightarrow> Some (if length b \<ge> 16 then b else ac_SessionSecret c)
      | None \<Rightarrow> Some (ac_SessionSecret c))"

definition cluster_read_addon :: "('x, 'p, 'k, 'a, 's) main_env \<Rightarrow> string \<Rightarrow> (('x, 's) main_state, addonConfig) run" where
  "cluster_read_addon E confFile =
     (case cluster_loadAddonConfig (me_readFile E confFile) (me_addon E) confFile of
        Inl ErrReadConfig \<Rightarrow> fail ''read''
      | Inl ErrParseConfig \<Rightarrow> fail ''parse''
      | Inr c \<Rightarrow> pass c)"

definition listen :: "('x, 'p, 'k, 'a, 's) main_env \<Rightarrow> comqtt_config \<Rightarrow> (('x, 's) main_state, unit) run" where
  "listen E cfg =
     andThen (orFail ''tls'' (me_tls E)) (\<lambda>on.
       let tls = (if on then ConfTls else NoTls) in
       andThen (add_listener E ''add tcp listener'' ''tcp'' (cc_TCP cfg) tls) (\<lambda>_.
       andThen (if on then pass ConfTls else if me_selfSigned E then pass SelfSigned else fail ''self-signed cert'') (\<lambda>qtls.
       andThen (add_listener E ''add quic listener'' ''quic'' (cc_QUIC cfg) qtls) (\<lambda>_.
       add_listener E ''add websocket listener'' ''ws'' (cc_WS cfg) tls))))"

definition cluster_listen :: "('x, 'p, 'k, 'a, 's) main_env \<Rightarrow> comqtt_config \<Rightarrow> (('x, 's) main_state, unit) run" where
  "cluster_listen E cfg =
     andThen (orFail ''tls'' (me_tls E)) (\<lambda>on.
       let tls = (if on then ConfTls else NoTls) in
       andThen (add_listener E ''add tcp listener'' ''tcp'' (cc_TCP cfg) tls) (\<lambda>_.
       add_listener E ''add websocket listener'' ''ws'' (cc_WS cfg) tls))"

definition start_agent :: "('x, 'p, 'k, 'a, 's) main_env \<Rightarrow> comqtt_config \<Rightarrow> (('x, 's) main_state, unit) run" where
  "start_agent E cfg s =
     (if cc_Members cfg = None then (Inl ''cluster'', s)
      else if me_agentStart E then (Inr (), s\<lparr>mn_agent := True\<rparr>) else (Inl ''cluster start'', s))"

section \<open>The handlers of the HTTP listener\<close>

text \<open>\<open>GenHandlers\<close> of \<open>rest/rest.go\<close> and \<open>cluster/rest/rest.go\<close>: patterns and the methods that serve them.\<close>

definition rest_routes :: "(string \<times> string) list" where
  "rest_routes =
    [(''GET /api/v1/mqtt/clients'', ''listClients''),
     (''DELETE /api/v1/mqtt/clients/{id}/subscriptions/{topic}'', ''unsubscribeClient''),
     (''GET /api/v1/mqtt/subscriptions'', ''listSubscriptions''),
     (''GET /api/v1/mqtt/topics'', ''topicsTree''),
     (''GET /api/v1/mqtt/retained'', ''listRetained''),
     (''DELETE /api/v1/mqtt/retained/{topic}'', ''clearRetained''),
     (''GET /api/v1/mqtt/sessions'', ''listSessions''),
     (''DELETE /api/v1/mqtt/sessions/{id}'', ''clearSession'')]"

definition cluster_rest_routes :: "(string \<times> string) list" where
  "cluster_rest_routes =
    [(''GET /api/v1/cluster/mqtt/clients'', ''listClients''),
     (''DELETE /api/v1/cluster/mqtt/clients/{id}/subscriptions/{topic}'', ''unsubscribeClient''),
     (''GET /api/v1/cluster/mqtt/subscriptions'', ''listSubscriptions''),
     (''GET /api/v1/cluster/mqtt/topics'', ''topicsTree''),
     (''GET /api/v1/cluster/mqtt/retained'', ''listRetained''),
     (''DELETE /api/v1/cluster/mqtt/retained/{topic}'', ''clearRetained''),
     (''GET /api/v1/cluster/mqtt/sessions'', ''listSessions''),
     (''DELETE /api/v1/cluster/mqtt/sessions/{id}'', ''clearSession'')]"

text \<open>\<open>handlers[path] = h\<close> for every entry of a map.\<close>

definition put_handlers :: "(string \<times> handler) list \<Rightarrow> (string \<rightharpoonup> handler) \<Rightarrow> (string \<rightharpoonup> handler)" where
  "put_handlers hs m = foldl (\<lambda>m (p, h). m(p \<mapsto> h)) m hs"

definition stock :: "string list \<Rightarrow> (string \<times> handler) list" where
  "stock ps = map (\<lambda>p. (p, Stock p)) ps"

definition rest_handlers :: "('x, 'p, 'k, 'a, 's) main_env \<Rightarrow> string \<rightharpoonup> handler" where
  "rest_handlers E =
     put_handlers (map (\<lambda>(p, f). (p, AddonRest f)) rest_routes) (put_handlers (stock (me_stock E)) Map.empty)"

definition cluster_rest_handlers :: "('x, 'p, 'k, 'a, 's) main_env \<Rightarrow> string \<rightharpoonup> handler" where
  "cluster_rest_handlers E =
     put_handlers (map (\<lambda>(p, f). (p, ClusterMirror f)) cluster_rest_routes)
       (put_handlers (map (\<lambda>(p, f). (p, AddonRest f)) rest_routes)
         (put_handlers (stock (me_stock E)) (put_handlers (stock (me_clusterStock E)) Map.empty)))"

definition dash_handlers :: "route list \<Rightarrow> (string \<times> handler) list" where
  "dash_handlers rs = map (\<lambda>r. (rt_Pattern r, DashHandler (rt_Guard r) (rt_Handler r))) rs"

section \<open>The backends\<close>

definition open_mqtt :: "('x, 'p, 'k, 'a, 's) main_env \<Rightarrow> comqtt_config \<Rightarrow> (('x, 's) main_state, unit) run" where
  "open_mqtt E cfg s =
     (case FromComqttConfig (me_yaml E) (cc_Auth cfg) of
        Inl _ \<Rightarrow> (Inl ''mqtt auth config'', s)
      | Inr None \<Rightarrow> (Inr (), s)
      | Inr (Some c) \<Rightarrow>
          (case factory_New (me_stat E) (me_sqlOpen E) c of
             Inl _ \<Rightarrow> (Inl ''mqtt auth backend'', s)
           | Inr b \<Rightarrow> defer_close MqttBackend (s\<lparr>mn_mqtt := Some b\<rparr>)))"

definition seed_rule :: "('x, 'p, 'k, 'a, 's) main_env \<Rightarrow> bool \<Rightarrow> ('p, 'k, 'a) RegexRule" where
  "seed_rule E strict = \<lparr>rr_ID = [], rr_Order = 999999, rr_Permission = (if strict then me_deny E else me_allow E),
     rr_SubjectKind = me_username E, rr_SubjectPattern = [], rr_Action = me_all E, rr_TopicPatterns = [''#'']\<rparr>"

text \<open>The seeding: three calls on the store.\<close>

definition seed_regex :: "('x, 'p, 'k, 'a, 's) main_env \<Rightarrow> bool \<Rightarrow> 'x \<Rightarrow> (string, unit) result \<times> 'x" where
  "seed_regex E strict x =
     (case GetRegexSeeded (me_regex E) x of
        Inl _ \<Rightarrow> (Inl ''comqttauth seeded check'', x)
      | Inr True \<Rightarrow> (Inr (), x)
      | Inr False \<Rightarrow>
          (case PutRegexRule (me_regex E) (seed_rule E strict) x of
             (Inl _, x1) \<Rightarrow> (Inl ''comqttauth seed rule'', x1)
           | (Inr _, x1) \<Rightarrow>
               (case SetRegexSeeded (me_regex E) x1 of
                  (Inl _, x2) \<Rightarrow> (Inl ''comqttauth mark seeded'', x2)
                | (Inr _, x2) \<Rightarrow> (Inr (), x2))))"

definition open_regex ::
  "('x, 'p, 'k, 'a, 's) main_env \<Rightarrow> bool \<Rightarrow> bool \<Rightarrow> comqtt_config \<Rightarrow> (('x, 's) main_state, unit) run" where
  "open_regex E enabled strict cfg s =
     (if \<not> enabled then (Inr (), s)
      else case adapter_FromComqttConfig (me_yaml E) (cc_Auth cfg) of
        Inl _ \<Rightarrow> (Inl ''comqttauth config'', s)
      | Inr None \<Rightarrow> (Inr (), s)
      | Inr (Some c) \<Rightarrow>
          (if \<not> me_regexNew E c then (Inl ''comqttauth backend'', s)
           else andThen (defer_close RegexBackend) (\<lambda>_.
             andThen (add_hook E ''comqttauth hook'' RegexHook) (\<lambda>_ s1.
               (case seed_regex E strict (mn_regex s1) of
                  (res, x) \<Rightarrow> (res, s1\<lparr>mn_regex := x\<rparr>)))) (s\<lparr>mn_regexOn := True\<rparr>)))"

section \<open>The dashboard\<close>

definition single_options :: "addonConfig \<Rightarrow> bool \<Rightarrow> 's Options" where
  "single_options c regex =
     \<lparr>op_Cluster = False, op_ClusterAgent = False, op_Node = [], op_Server = True, op_CredStorePath = [],
      op_Secret = decodeSecret c, op_SecretPath = [], op_PasswordExpiryDays = ac_PasswordExpiryDays c,
      op_LockoutThreshold = 0, op_LockoutWindow = 0, op_LockoutDuration = 0, op_SessionTTL = 0,
      op_Redis = None, op_RegexBackend = regex\<rparr>"

definition cluster_options :: "('x, 'p, 'k, 'a, 's) main_env \<Rightarrow> comqtt_config \<Rightarrow> addonConfig \<Rightarrow> bool \<Rightarrow> 's Options" where
  "cluster_options E cfg c regex =
     \<lparr>op_Cluster = True, op_ClusterAgent = True, op_Node = cc_NodeName cfg, op_Server = True, op_CredStorePath = [],
      op_Secret = cluster_decodeSecret c, op_SecretPath = [], op_PasswordExpiryDays = ac_PasswordExpiryDays c,
      op_LockoutThreshold = 0, op_LockoutWindow = 0, op_LockoutDuration = 0, op_SessionTTL = 0,
      op_Redis = Some (me_redis E ((cc_Redis cfg)\<lparr>rl_User := []\<rparr>)), op_RegexBackend = regex\<rparr>"

definition mount_dashboard ::
  "('x, 'p, 'k, 'a, 's) main_env \<Rightarrow> addonConfig \<Rightarrow> (bool \<Rightarrow> 's Options) \<Rightarrow> (('x, 's) main_state, unit) run" where
  "mount_dashboard E c opts s =
     (if \<not> ac_Enabled c then (Inr (), s)
      else case Routes (me_boot E) (me_auth E) (me_encode E) None (me_dirOk E) (me_doc E) (me_write E) (me_eventHook E)
              (opts (mn_regexOn s)) (mn_boot s) of
        (Inl _, b) \<Rightarrow> (Inl ''dashboard routes'', s\<lparr>mn_boot := b\<rparr>)
      | (Inr d, b) \<Rightarrow> (Inr (), s\<lparr>mn_boot := b, mn_dashboard := Some d,
          mn_handlers := put_handlers (dash_handlers (db_Routes d)) (mn_handlers s)\<rparr>))"

section \<open>The programs\<close>

definition set_handlers :: "(string \<rightharpoonup> handler) \<Rightarrow> (('x, 's) main_state, unit) run" where
  "set_handlers m s = (Inr (), s\<lparr>mn_handlers := m\<rparr>)"

text \<open>\<open>realMain\<close> up to \<open>Serve\<close>, after the flags: \<open>regex\<close> and \<open>strict\<close> are \<open>-auth-regex\<close> and \<open>-auth-regex-strict\<close>.\<close>

definition start ::
  "('x, 'p, 'k, 'a, 's) main_env \<Rightarrow> bool \<Rightarrow> bool \<Rightarrow> string \<Rightarrow> comqtt_config \<Rightarrow> (('x, 's) main_state, unit) run" where
  "start E regex strict confFile flags =
     andThen (read_config E confFile flags) (\<lambda>cfg.
     andThen (read_addon E confFile) (\<lambda>dash.
     andThen (initStorage E cfg) (\<lambda>_.
     andThen (initAuth E cfg) (\<lambda>_.
     andThen (initBridge E cfg) (\<lambda>_.
     andThen (listen E cfg) (\<lambda>_.
     andThen (set_handlers (rest_handlers E)) (\<lambda>_.
     andThen (open_mqtt E cfg) (\<lambda>_.
     andThen (open_regex E regex strict cfg) (\<lambda>_.
     andThen (mount_dashboard E dash (single_options dash)) (\<lambda>_.
     add_listener E ''add http listener'' ''stats'' (cc_HTTP cfg) NoTls))))))))))"

definition cluster_start ::
  "('x, 'p, 'k, 'a, 's) main_env \<Rightarrow> bool \<Rightarrow> bool \<Rightarrow> string \<Rightarrow> string \<Rightarrow> comqtt_config \<Rightarrow> (('x, 's) main_state, unit) run" where
  "cluster_start E regex strict confFile members flags =
     andThen (cluster_read_config E confFile members flags) (\<lambda>cfg.
     andThen (cluster_read_addon E confFile) (\<lambda>dash.
     andThen (cluster_initStorage E cfg) (\<lambda>_.
     andThen (cluster_initAuth E cfg) (\<lambda>_.
     andThen (cluster_initBridge E cfg) (\<lambda>_.
     andThen (start_agent E cfg) (\<lambda>_.
     andThen (cluster_listen E cfg) (\<lambda>_.
     andThen (defer_close RedisClient) (\<lambda>_.
     andThen (set_handlers (cluster_rest_handlers E)) (\<lambda>_.
     andThen (open_mqtt E cfg) (\<lambda>_.
     andThen (open_regex E regex strict cfg) (\<lambda>_.
     andThen (mount_dashboard E dash (cluster_options E cfg dash)) (\<lambda>_.
     add_listener E ''add http listener'' ''stats'' (cc_HTTP cfg) NoTls))))))))))))"

text \<open>
  The rest of \<open>realMain\<close>: it waits for the server to fail or for a signal, and closes. \<open>failed\<close> is
  whether \<open>Serve\<close> returned an error. The \<open>defer\<close>red closers run on every return.
\<close>

definition serve :: "bool \<Rightarrow> (('x, 's) main_state, unit) run" where
  "serve failed s =
     (if failed then Inl ''server'' else Inr (),
      s\<lparr>mn_closed := mn_closed s @ (if mn_dashboard s = None then [] else [DashCleanup])
          @ (if mn_agent s then [AgentStop] else []) @ [ServerClose]\<rparr>)"

definition run_defers :: "(('x, 's) main_state, 'a) run \<Rightarrow> (('x, 's) main_state, 'a) run" where
  "run_defers m s = (case m s of (r, s') \<Rightarrow> (r, s'\<lparr>mn_closed := mn_closed s' @ mn_defers s', mn_defers := []\<rparr>))"

definition realMain ::
  "('x, 'p, 'k, 'a, 's) main_env \<Rightarrow> bool \<Rightarrow> bool \<Rightarrow> string \<Rightarrow> comqtt_config \<Rightarrow> bool \<Rightarrow> (('x, 's) main_state, unit) run" where
  "realMain E regex strict confFile flags failed =
     run_defers (andThen (start E regex strict confFile flags) (\<lambda>_. serve failed))"

definition cluster_realMain ::
  "('x, 'p, 'k, 'a, 's) main_env \<Rightarrow> bool \<Rightarrow> bool \<Rightarrow> string \<Rightarrow> string \<Rightarrow> comqtt_config \<Rightarrow> bool
     \<Rightarrow> (('x, 's) main_state, unit) run" where
  "cluster_realMain E regex strict confFile members flags failed =
     run_defers (andThen (cluster_start E regex strict confFile members flags) (\<lambda>_. serve failed))"

end
