(* ===== verification/Programs.thy ===== *)
theory Programs
  imports Binaries
begin

text \<open>
  What a start of either program guarantees, on the model of \<open>Binaries\<close>: which hooks a broker that
  serves has and which store the dashboard manages (\<open>served_broker_authenticates\<close>), how the regex
  layer is seeded (\<open>regex_layer_seeded_once\<close>, \<open>regex_seed_repeats\<close>), which handler answers which
  pattern (\<open>served_routes\<close>) and what is closed when a run ends (\<open>realMain_closes\<close>).
\<close>

section \<open>Successful runs\<close>

lemma add_hook_iff [run_iff]:
  "add_hook E err h s = (Inr u, s') \<longleftrightarrow> me_addHook E h \<and> s' = s\<lparr>mn_hooks := mn_hooks s @ [h]\<rparr>"
  by (auto simp: add_hook_def)

lemma add_listener_iff [run_iff]:
  "add_listener E err name addr tls s = (Inr u, s') \<longleftrightarrow>
     me_addListener E name addr \<and> s' = s\<lparr>mn_listeners := mn_listeners s @ [(name, addr, tls)]\<rparr>"
  by (auto simp: add_listener_def)

lemma defer_close_iff [run_iff]:
  "defer_close r s = (Inr u, s') \<longleftrightarrow> s' = s\<lparr>mn_defers := r # mn_defers s\<rparr>"
  by (auto simp: defer_close_def)

lemma set_handlers_iff [run_iff]: "set_handlers m s = (Inr u, s') \<longleftrightarrow> s' = s\<lparr>mn_handlers := m\<rparr>"
  by (auto simp: set_handlers_def)

lemma set_blacklist_iff [run_iff]: "set_blacklist s = (Inr u, s') \<longleftrightarrow> s' = s\<lparr>mn_blacklist := True\<rparr>"
  by (auto simp: set_blacklist_def)

lemma start_agent_iff [run_iff]:
  "start_agent E cfg s = (Inr u, s') \<longleftrightarrow> cc_Members cfg \<noteq> None \<and> me_agentStart E \<and> s' = s\<lparr>mn_agent := True\<rparr>"
  by (auto simp: start_agent_def)

text \<open>The configuration a start works with; the flag \<open>-members\<close> does not touch its authentication.\<close>

definition config_of :: "('x, 'p, 'k, 'a, 's) main_env \<Rightarrow> string \<Rightarrow> comqtt_config \<Rightarrow> comqtt_config option" where
  "config_of E confFile flags = (if confFile = [] then Some flags else me_load E confFile)"

lemma read_config_iff [run_iff]:
  "read_config E confFile flags s = (Inr cfg, s') \<longleftrightarrow> config_of E confFile flags = Some cfg \<and> s' = s"
  by (auto simp: read_config_def config_of_def)

lemma cluster_read_config_Inr:
  assumes "cluster_read_config E confFile members flags s = (Inr cfg, s')"
  obtains c where "config_of E confFile flags = Some c" "cc_Auth cfg = cc_Auth c" "s' = s"
  using assms by (auto simp: cluster_read_config_def config_of_def split: if_splits)

lemma read_addon_Inr [run_iff]: "read_addon E confFile s = (Inr c, s') \<longleftrightarrow>
    loadAddonConfig (me_readFile E confFile) (me_addon E) confFile = Inr c \<and> s' = s"
  by (auto simp: read_addon_def split: sum.splits config_error.splits)

text \<open>The two copies of \<open>config.go\<close> are the same functions.\<close>

lemma cluster_config_same:
  "cluster_loadAddonConfig = loadAddonConfig" "cluster_decodeSecret = decodeSecret"
  by (auto simp: fun_eq_iff cluster_loadAddonConfig_def loadAddonConfig_def cluster_defaultAddonConfig_def
      defaultAddonConfig_def cluster_decodeSecret_def decodeSecret_def Let_def split: option.split)

lemma cluster_read_addon_same: "cluster_read_addon = read_addon"
  by (simp add: fun_eq_iff cluster_read_addon_def read_addon_def cluster_config_same)

lemma cluster_initBridge_same: "cluster_initBridge = initBridge"
  by (simp add: fun_eq_iff cluster_initBridge_def initBridge_def andThen_def pass_def fail_def)

lemmas cluster_start_steps = cluster_start_def [unfolded cluster_read_addon_same cluster_initBridge_same]

text \<open>What an auth hook is, for a configuration: the reference the two \<open>initAuth\<close> are checked against.\<close>

definition hooks_for :: "('x, 'p, 'k, 'a, 's) main_env \<Rightarrow> comqtt_auth \<Rightarrow> hook \<Rightarrow> bool" where
  "hooks_for E A h =
     (case h of
        AllowHook \<Rightarrow> ca_Way A = 0
      | LedgerHook data \<Rightarrow> ca_Way A \<in> {1, 2} \<and> ca_Datasource A = 0 \<and> me_readFile E (ca_ConfPath A) = Some data
      | RedisAuth opts \<Rightarrow> ca_Way A \<in> {1, 2} \<and> ca_Datasource A = 1 \<and> yl_redis (me_yaml E) (ca_ConfPath A) = Some opts
      | MysqlAuth opts \<Rightarrow> ca_Way A \<in> {1, 2} \<and> ca_Datasource A = 2 \<and> yl_mysql (me_yaml E) (ca_ConfPath A) = Some opts
      | PostgresAuth opts \<Rightarrow> ca_Way A \<in> {1, 2} \<and> ca_Datasource A = 3 \<and> yl_postgres (me_yaml E) (ca_ConfPath A) = Some opts
      | HttpAuth path \<Rightarrow> ca_Way A \<in> {1, 2} \<and> ca_Datasource A = 4 \<and> path = ca_ConfPath A
      | _ \<Rightarrow> False)"

lemma hooks_for_auth: "hooks_for E A h \<Longrightarrow> auth_hook h"
  by (cases h) (simp_all add: hooks_for_def auth_hook_def)

lemma hooks_for_simps [simp]:
  "hooks_for E A AllowHook \<longleftrightarrow> ca_Way A = 0"
  "hooks_for E A (LedgerHook data) \<longleftrightarrow>
     ca_Way A \<in> {1, 2} \<and> ca_Datasource A = 0 \<and> me_readFile E (ca_ConfPath A) = Some data"
  "hooks_for E A (RedisAuth ro) \<longleftrightarrow>
     ca_Way A \<in> {1, 2} \<and> ca_Datasource A = 1 \<and> yl_redis (me_yaml E) (ca_ConfPath A) = Some ro"
  "hooks_for E A (MysqlAuth so) \<longleftrightarrow>
     ca_Way A \<in> {1, 2} \<and> ca_Datasource A = 2 \<and> yl_mysql (me_yaml E) (ca_ConfPath A) = Some so"
  "hooks_for E A (PostgresAuth so) \<longleftrightarrow>
     ca_Way A \<in> {1, 2} \<and> ca_Datasource A = 3 \<and> yl_postgres (me_yaml E) (ca_ConfPath A) = Some so"
  "hooks_for E A (HttpAuth path) \<longleftrightarrow> ca_Way A \<in> {1, 2} \<and> ca_Datasource A = 4 \<and> path = ca_ConfPath A"
  by (simp_all add: hooks_for_def)

lemma hook_added:
  "hooks_for E A h \<Longrightarrow> \<exists>h'. hooks_for E A h' \<and> s\<lparr>mn_hooks := hs @ [h]\<rparr> = s\<lparr>mn_hooks := hs @ [h']\<rparr>"
  "hooks_for E A h \<Longrightarrow> \<exists>h'. hooks_for E A h' \<and>
     (\<exists>b'. s\<lparr>mn_hooks := hs @ [h], mn_blacklist := b\<rparr> = s\<lparr>mn_hooks := hs @ [h'], mn_blacklist := b'\<rparr>)"
  "hooks_for E A h \<Longrightarrow> \<exists>h'. hooks_for E A h' \<and>
     (\<exists>b'. s\<lparr>mn_hooks := hs @ [h]\<rparr> = s\<lparr>mn_hooks := hs @ [h'], mn_blacklist := b'\<rparr>)"
proof -
  assume h: "hooks_for E A h"
  then show "\<exists>h'. hooks_for E A h' \<and> s\<lparr>mn_hooks := hs @ [h]\<rparr> = s\<lparr>mn_hooks := hs @ [h']\<rparr>"
    "\<exists>h'. hooks_for E A h' \<and>
     (\<exists>b'. s\<lparr>mn_hooks := hs @ [h], mn_blacklist := b\<rparr> = s\<lparr>mn_hooks := hs @ [h'], mn_blacklist := b'\<rparr>)" by blast+
  have "s\<lparr>mn_hooks := hs @ [h]\<rparr> = s\<lparr>mn_hooks := hs @ [h], mn_blacklist := mn_blacklist s\<rparr>" by simp
  with h show "\<exists>h'. hooks_for E A h' \<and>
     (\<exists>b'. s\<lparr>mn_hooks := hs @ [h]\<rparr> = s\<lparr>mn_hooks := hs @ [h'], mn_blacklist := b'\<rparr>)" by blast
qed

lemma initAuth_Inr:
  assumes "initAuth E cfg s = (Inr u, s')"
  shows "(\<exists>h. hooks_for E (cc_Auth cfg) h \<and> s' = s\<lparr>mn_hooks := mn_hooks s @ [h]\<rparr>)
    \<or> ca_Way (cc_Auth cfg) \<noteq> 0 \<and> ca_Datasource (cc_Auth cfg) > 4 \<and> s' = s"
  using assms by (auto simp: initAuth_def Let_def andThen_Inr run_iff intro!: hook_added split: if_splits)

lemma cluster_initAuth_Inr:
  assumes "cluster_initAuth E cfg s = (Inr u, s')"
  shows "(\<exists>h b. hooks_for E (cc_Auth cfg) h \<and> s' = s\<lparr>mn_hooks := mn_hooks s @ [h], mn_blacklist := b\<rparr>)
    \<or> ca_Way (cc_Auth cfg) \<noteq> 0 \<and> ca_Datasource (cc_Auth cfg) > 4 \<and> s' = s"
  using assms by (auto simp: cluster_initAuth_def Let_def andThen_Inr run_iff intro!: hook_added split: if_splits)

text \<open>What storage, bridge and listeners leave alone.\<close>

definition layers :: "('x, 's) main_state \<Rightarrow> backend_choice option \<times> bool \<times> 'x \<times> (unit, 's) dashboard option" where
  "layers s = (mn_mqtt s, mn_regexOn s, mn_regex s, mn_dashboard s)"

lemma auth_step:
  assumes "initAuth E cfg s = (Inr u, s') \<or> cluster_initAuth E cfg s = (Inr u, s')"
  obtains xs where "mn_hooks s' = mn_hooks s @ xs" "layers s' = layers s"
    "(\<exists>h. xs = [h] \<and> hooks_for E (cc_Auth cfg) h) \<or> ca_Way (cc_Auth cfg) \<noteq> 0 \<and> ca_Datasource (cc_Auth cfg) > 4"
proof -
  have "\<exists>xs. mn_hooks s' = mn_hooks s @ xs \<and> layers s' = layers s
      \<and> ((\<exists>h. xs = [h] \<and> hooks_for E (cc_Auth cfg) h) \<or> ca_Way (cc_Auth cfg) \<noteq> 0 \<and> ca_Datasource (cc_Auth cfg) > 4)"
    using assms initAuth_Inr [of E cfg s u s'] cluster_initAuth_Inr [of E cfg s u s'] by (auto simp: layers_def)
  then show thesis using that by blast
qed

text \<open>
  The blacklist file of the cluster program reaches the hook of every source but the ledger file: it
  is read and parsed there too, and dropped.
\<close>

lemma cluster_blacklist_ignored_for_file:
  assumes "cluster_initAuth E cfg s = (Inr u, s')"
  shows "mn_blacklist s' \<longleftrightarrow> mn_blacklist s \<or> ca_Way (cc_Auth cfg) \<noteq> 0 \<and> ca_Datasource (cc_Auth cfg) \<in> {1, 2, 3, 4}"
  using assms by (auto simp: cluster_initAuth_def Let_def andThen_Inr run_iff split: if_splits)

text \<open>Storage and bridge add at most one hook, which does not authenticate.\<close>

lemma plain_hook:
  assumes "initStorage E cfg s = (Inr u, s') \<or> cluster_initStorage E cfg s = (Inr u, s') \<or> initBridge E cfg s = (Inr u, s')"
  obtains hs where "mn_hooks s' = mn_hooks s @ hs" "filter auth_hook hs = []" "layers s' = layers s"
proof -
  have "(\<exists>hs. mn_hooks s' = mn_hooks s @ hs \<and> filter auth_hook hs = []) \<and> layers s' = layers s"
    using assms
    by (auto simp: initStorage_def cluster_initStorage_def initBridge_def run_iff auth_hook_def layers_def split: if_splits)
  then show ?thesis using that by blast
qed

lemma listen_Inr:
  assumes "listen E cfg s = (Inr u, s') \<or> cluster_listen E cfg s = (Inr u, s')"
  obtains ls where "s' = s\<lparr>mn_listeners := mn_listeners s @ ls\<rparr>"
    "set ls \<subseteq> {(''tcp'', cc_TCP cfg, if me_tls E = Some True then ConfTls else NoTls),
       (''ws'', cc_WS cfg, if me_tls E = Some True then ConfTls else NoTls),
       (''quic'', cc_QUIC cfg, if me_tls E = Some True then ConfTls else SelfSigned)}"
  using assms
proof
  assume "listen E cfg s = (Inr u, s')"
  then obtain on q where "me_tls E = Some on" "q = (if on then ConfTls else SelfSigned)"
    "s' = s\<lparr>mn_listeners := mn_listeners s @ [(''tcp'', cc_TCP cfg, if on then ConfTls else NoTls),
        (''quic'', cc_QUIC cfg, q), (''ws'', cc_WS cfg, if on then ConfTls else NoTls)]\<rparr>"
    by (auto simp: listen_def andThen_Inr run_iff Let_def split: if_splits)
  then show thesis using that by simp
next
  assume "cluster_listen E cfg s = (Inr u, s')"
  then obtain on where "me_tls E = Some on"
    "s' = s\<lparr>mn_listeners := mn_listeners s @ [(''tcp'', cc_TCP cfg, if on then ConfTls else NoTls),
        (''ws'', cc_WS cfg, if on then ConfTls else NoTls)]\<rparr>"
    by (auto simp: cluster_listen_def andThen_Inr run_iff Let_def)
  then show thesis using that by simp
qed

lemma open_mqtt_Inr:
  assumes "open_mqtt E cfg s = (Inr u, s')"
  shows "FromComqttConfig (me_yaml E) (cc_Auth cfg) = Inr None \<and> s' = s
    \<or> (\<exists>c b. FromComqttConfig (me_yaml E) (cc_Auth cfg) = Inr (Some c)
         \<and> factory_New (me_stat E) (me_sqlOpen E) c = Inr b
         \<and> s' = s\<lparr>mn_mqtt := Some b, mn_defers := MqttBackend # mn_defers s\<rparr>)"
  using assms by (auto simp: open_mqtt_def run_iff split: sum.splits option.splits)

lemma open_regex_Inr:
  assumes "open_regex E enabled strict cfg s = (Inr u, s')"
  shows "(\<not> enabled \<or> adapter_FromComqttConfig (me_yaml E) (cc_Auth cfg) = Inr None) \<and> s' = s
    \<or> (\<exists>c x. enabled \<and> adapter_FromComqttConfig (me_yaml E) (cc_Auth cfg) = Inr (Some c)
         \<and> seed_regex E strict (mn_regex s) = (Inr (), x)
         \<and> s' = s\<lparr>mn_regexOn := True, mn_defers := RegexBackend # mn_defers s,
              mn_hooks := mn_hooks s @ [RegexHook], mn_regex := x\<rparr>)"
  using assms by (auto simp: open_regex_def andThen_Inr run_iff split: sum.splits option.splits prod.splits if_splits)

lemma mount_dashboard_Inr:
  assumes "mount_dashboard E c opts s = (Inr u, s')"
  shows "\<not> ac_Enabled c \<and> s' = s
    \<or> (\<exists>d b. ac_Enabled c \<and> Routes (me_boot E) (me_auth E) (me_encode E) None (me_dirOk E) (me_doc E) (me_write E)
              (me_eventHook E) (opts (mn_regexOn s)) (mn_boot s) = (Inr d, b)
         \<and> s' = s\<lparr>mn_boot := b, mn_dashboard := Some d,
              mn_handlers := put_handlers (dash_handlers (db_Routes d)) (mn_handlers s)\<rparr>)"
  using assms by (auto simp: mount_dashboard_def split: prod.splits sum.splits if_splits)

lemma common_tail:
  assumes "open_mqtt E cfg s1 = (Inr u1, s2)" "open_regex E regex strict cfg s2 = (Inr u2, s3)"
    and "mount_dashboard E c opts s3 = (Inr u3, s4)" "mn_mqtt s1 = None" "\<not> mn_regexOn s1"
  shows "mn_hooks s4 = mn_hooks s1 @ (if mn_regexOn s4 then [RegexHook] else [])"
    and "case mn_mqtt s4 of None \<Rightarrow> FromComqttConfig (me_yaml E) (cc_Auth cfg) = Inr None
      | Some b \<Rightarrow> \<exists>c. FromComqttConfig (me_yaml E) (cc_Auth cfg) = Inr (Some c) \<and> factory_New (me_stat E) (me_sqlOpen E) c = Inr b"
    and "if mn_regexOn s4 then regex \<and> adapter_FromComqttConfig (me_yaml E) (cc_Auth cfg) \<noteq> Inr None
         \<and> seed_regex E strict (mn_regex s1) = (Inr (), mn_regex s4)
     else (\<not> regex \<or> adapter_FromComqttConfig (me_yaml E) (cc_Auth cfg) = Inr None) \<and> mn_regex s4 = mn_regex s1"
proof -
  have d: "mn_hooks s4 = mn_hooks s3" "mn_mqtt s4 = mn_mqtt s3" "mn_regexOn s4 = mn_regexOn s3" "mn_regex s4 = mn_regex s3"
    using mount_dashboard_Inr [OF assms(3)] by auto
  have m: "mn_hooks s2 = mn_hooks s1" "\<not> mn_regexOn s2" "mn_regex s2 = mn_regex s1"
    using open_mqtt_Inr [OF assms(1)] assms(5) by auto
  show "mn_hooks s4 = mn_hooks s1 @ (if mn_regexOn s4 then [RegexHook] else [])"
    and "if mn_regexOn s4 then regex \<and> adapter_FromComqttConfig (me_yaml E) (cc_Auth cfg) \<noteq> Inr None
         \<and> seed_regex E strict (mn_regex s1) = (Inr (), mn_regex s4)
     else (\<not> regex \<or> adapter_FromComqttConfig (me_yaml E) (cc_Auth cfg) = Inr None) \<and> mn_regex s4 = mn_regex s1"
    using open_regex_Inr [OF assms(2)] m by (auto simp: d)
  have "mn_mqtt s3 = mn_mqtt s2" using open_regex_Inr [OF assms(2)] by auto
  then show "case mn_mqtt s4 of None \<Rightarrow> FromComqttConfig (me_yaml E) (cc_Auth cfg) = Inr None
      | Some b \<Rightarrow> \<exists>c. FromComqttConfig (me_yaml E) (cc_Auth cfg) = Inr (Some c) \<and> factory_New (me_stat E) (me_sqlOpen E) c = Inr b"
    using open_mqtt_Inr [OF assms(1)] assms(4) by (auto simp: d)
qed

text \<open>What the two programs have in common, once they serve: hooks, backend and regex layer.\<close>

definition wired ::
  "('x, 'p, 'k, 'a, 's) main_env \<Rightarrow> bool \<Rightarrow> bool \<Rightarrow> comqtt_auth \<Rightarrow> ('x, 's) main_state \<Rightarrow> ('x, 's) main_state \<Rightarrow> bool" where
  "wired E regex strict A s0 s \<longleftrightarrow>
     (\<exists>xs. filter auth_hook (mn_hooks s) = filter auth_hook (mn_hooks s0) @ xs
        \<and> ((\<exists>h. xs = [h] \<and> hooks_for E A h) \<or> ca_Way A \<noteq> 0 \<and> ca_Datasource A > 4))
     \<and> (mn_regexOn s \<longrightarrow> RegexHook \<in> set (mn_hooks s))
     \<and> (case mn_mqtt s of None \<Rightarrow> FromComqttConfig (me_yaml E) A = Inr None
        | Some b \<Rightarrow> \<exists>c. FromComqttConfig (me_yaml E) A = Inr (Some c) \<and> factory_New (me_stat E) (me_sqlOpen E) c = Inr b)
     \<and> (if mn_regexOn s then regex \<and> adapter_FromComqttConfig (me_yaml E) A \<noteq> Inr None
           \<and> seed_regex E strict (mn_regex s0) = (Inr (), mn_regex s)
        else (\<not> regex \<or> adapter_FromComqttConfig (me_yaml E) A = Inr None) \<and> mn_regex s = mn_regex s0)"

lemma wired_tail:
  assumes "open_mqtt E cfg s1 = (Inr u1, s2)" "open_regex E regex strict cfg s2 = (Inr u2, s3)"
    and "mount_dashboard E c opts s3 = (Inr u3, s4)" "layers s1 = (None, False, mn_regex s0, None)"
    and "mn_hooks s1 = mn_hooks s0 @ hs @ xs @ hs2" "filter auth_hook hs = []" "filter auth_hook hs2 = []"
    and "(\<exists>h. xs = [h] \<and> hooks_for E (cc_Auth cfg) h) \<or> ca_Way (cc_Auth cfg) \<noteq> 0 \<and> ca_Datasource (cc_Auth cfg) > 4"
  shows "wired E regex strict (cc_Auth cfg) s0 (s4\<lparr>mn_listeners := ls\<rparr>)"
proof -
  have s1: "mn_mqtt s1 = None" "\<not> mn_regexOn s1" "mn_regex s1 = mn_regex s0" using assms(4) by (simp_all add: layers_def)
  note tail = common_tail [OF assms(1-3) s1(1,2)]
  have "filter auth_hook (mn_hooks s4) = filter auth_hook (mn_hooks s0) @ filter auth_hook xs"
    unfolding tail(1) assms(5) using assms(6,7) by (simp add: auth_hook_def)
  moreover have "xs = [h] \<Longrightarrow> hooks_for E (cc_Auth cfg) h \<Longrightarrow> filter auth_hook xs = xs" for h
    using hooks_for_auth by auto
  moreover have "mn_regexOn s4 \<longrightarrow> RegexHook \<in> set (mn_hooks s4)" unfolding tail(1) by simp
  ultimately show ?thesis using tail(2,3) s1(3) assms(8) by (auto simp: wired_def)
qed

section \<open>The routes that are served\<close>

lemma put_handlers_lookup:
  "put_handlers hs m p = (case map_of (rev hs) p of Some h \<Rightarrow> Some h | None \<Rightarrow> m p)"
proof (induction hs rule: rev_induct)
  case (snoc x hs)
  then show ?case by (cases x) (simp add: put_handlers_def)
qed (simp add: put_handlers_def)

lemma put_handlers_Nil [simp]: "put_handlers [] m = m"
  by (simp add: put_handlers_def)

lemma put_handlers_append: "put_handlers (hs @ hs') m = put_handlers hs' (put_handlers hs m)"
  by (simp add: put_handlers_def)

lemma put_handlers_distinct:
  assumes "distinct (map fst hs)"
  shows "put_handlers hs m p = (case map_of hs p of Some h \<Rightarrow> Some h | None \<Rightarrow> m p)"
proof -
  have "map_of (rev hs) p = map_of hs p"
  proof (cases "map_of hs p")
    case (Some h)
    then show ?thesis using assms map_of_SomeD [OF Some] by (simp add: rev_map [symmetric])
  next
    case None
    then have "map_of (rev hs) p = None" unfolding map_of_eq_None_iff by simp
    with None show ?thesis by (simp only:)
  qed
  then show ?thesis by (simp add: put_handlers_lookup)
qed

lemma put_stock: "put_handlers (stock ps) Map.empty p = (if p \<in> set ps then Some (Stock p) else None)"
proof (induction ps rule: rev_induct)
  case (snoc q qs)
  have "put_handlers (stock (qs @ [q])) Map.empty p =
      (if q = p then Some (Stock p) else put_handlers (stock qs) Map.empty p)"
    by (auto simp: stock_def put_handlers_append) (simp_all add: put_handlers_def)
  then show ?case using snoc by simp
qed (simp add: put_handlers_def stock_def)

lemma applyDefaults_routes:
  assumes "applyDefaults e opts b = (Inr o1, b')"
  shows "route_table o1 = route_table opts"
proof -
  have "op_Cluster (settings_defaults e opts) = op_Cluster opts" "op_ClusterAgent (settings_defaults e opts) = op_ClusterAgent opts"
    "op_RegexBackend (settings_defaults e opts) = op_RegexBackend opts"
    by (simp_all add: settings_defaults_def Let_def)
  then show ?thesis using assms
    by (auto simp: applyDefaults_def Let_def route_table_def split: if_splits prod.splits sum.splits option.splits)
qed

lemma Routes_routes:
  assumes "Routes e a enc given dir_ok doc w hook_ok opts b = (Inr d, b')"
  shows "db_Routes d = route_table opts"
  using assms applyDefaults_routes by (auto simp: Routes_def split: if_splits prod.splits sum.splits)

text \<open>No pattern of the three tables is in another one.\<close>

lemma tables_distinct:
  "distinct (map fst rest_routes @ map fst cluster_rest_routes
     @ map rt_Pattern (base_routes @ rt ''GET /dashboard/cluster'' Wrap ''ClusterPage'' # regex_routes))"
  by code_simp

text \<open>The patterns the program adds to the broker's own, and who serves them.\<close>

definition own_handlers :: "bool \<Rightarrow> bool \<Rightarrow> bool \<Rightarrow> (string \<times> handler) list" where
  "own_handlers clustered dash regex =
     map (\<lambda>(p, f). (p, AddonRest f)) rest_routes
     @ (if clustered then map (\<lambda>(p, f). (p, ClusterMirror f)) cluster_rest_routes else [])
     @ (if dash then dash_handlers (base_routes
          @ (if clustered then [rt ''GET /dashboard/cluster'' Wrap ''ClusterPage''] else [])
          @ (if regex then regex_routes else [])) else [])"

lemma own_handlers_distinct: "distinct (map fst (own_handlers clustered dash regex))"
proof -
  have sub: "distinct (A @ B @ C @ x # D) \<Longrightarrow> distinct (A @ (if c then B else [])
      @ (if d then C @ (if c then [x] else []) @ (if r then D else []) else []))"
    for A B C D :: "string list" and x c d r by auto
  have "distinct (map fst rest_routes @ map fst cluster_rest_routes @ map rt_Pattern base_routes
      @ ''GET /dashboard/cluster'' # map rt_Pattern regex_routes)"
    using tables_distinct by (simp only: map_append list.map route.select_convs)
  moreover have "map fst (own_handlers clustered dash regex) = map fst rest_routes
     @ (if clustered then map fst cluster_rest_routes else [])
     @ (if dash then map rt_Pattern base_routes
          @ (if clustered then [''GET /dashboard/cluster''] else [])
          @ (if regex then map rt_Pattern regex_routes else []) else [])"
    by (simp add: own_handlers_def dash_handlers_def comp_def case_prod_beta)
  ultimately show ?thesis by (simp only: sub)
qed

lemma handlers_kept:
  assumes "open_mqtt E cfg s1 = (Inr u1, s2)" "open_regex E regex strict cfg s2 = (Inr u2, s3)"
    and "mount_dashboard E c opts s3 = (Inr u3, s4)" "mn_dashboard s1 = None"
    and "mn_handlers s1 = m"
  shows "case mn_dashboard s4 of
      None \<Rightarrow> mn_handlers s4 = m
    | Some d \<Rightarrow> db_Routes d = route_table (opts (mn_regexOn s4)) \<and> mn_handlers s4 = put_handlers (dash_handlers (db_Routes d)) m"
proof -
  have "mn_handlers s2 = m \<and> mn_dashboard s2 = None" using open_mqtt_Inr [OF assms(1)] assms(4,5) by auto
  then have "mn_handlers s3 = m \<and> mn_dashboard s3 = None" using open_regex_Inr [OF assms(2)] by auto
  then show ?thesis using mount_dashboard_Inr [OF assms(3)] Routes_routes by (auto split: option.splits)
qed

text \<open>What the HTTP listener gets: the broker's own handlers, then those of the program.\<close>

definition served_by :: "('x, 'p, 'k, 'a, 's) main_env \<Rightarrow> bool \<Rightarrow> ('x, 's) main_state \<Rightarrow> bool" where
  "served_by E clustered s \<longleftrightarrow> mn_handlers s =
     put_handlers (own_handlers clustered (mn_dashboard s \<noteq> None) (mn_regexOn s))
       (put_handlers (stock (if clustered then me_clusterStock E @ me_stock E else me_stock E)) Map.empty)"

lemma handlers_tail:
  assumes "open_mqtt E cfg s1 = (Inr u1, s2)" "open_regex E regex strict cfg s2 = (Inr u2, s3)"
    and "mount_dashboard E c opts s3 = (Inr u3, s4)" "mn_dashboard s1 = None"
    and "mn_handlers s1 = (if clustered then cluster_rest_handlers E else rest_handlers E)"
    and "\<And>r. route_table (opts r) = base_routes @ (if clustered then [rt ''GET /dashboard/cluster'' Wrap ''ClusterPage''] else [])
          @ (if r then regex_routes else [])"
  shows "served_by E clustered (s4\<lparr>mn_listeners := ls\<rparr>)"
proof -
  let ?m = "put_handlers (stock (if clustered then me_clusterStock E @ me_stock E else me_stock E)) Map.empty"
  have m: "mn_handlers s1 = put_handlers (own_handlers clustered False r) ?m" for r
    by (simp add: assms(5) rest_handlers_def cluster_rest_handlers_def own_handlers_def put_handlers_append stock_def)
  show ?thesis
  proof (cases "mn_dashboard s4")
    case None
    then show ?thesis using handlers_kept [OF assms(1-4) m] by (simp add: served_by_def)
  next
    case (Some d)
    have "mn_handlers s4 = put_handlers (dash_handlers (db_Routes d)) (put_handlers (own_handlers clustered False False) ?m)"
      "db_Routes d = route_table (opts (mn_regexOn s4))"
      using handlers_kept [OF assms(1-4) m [of False]] Some by simp_all
    then show ?thesis
      by (simp add: served_by_def Some own_handlers_def put_handlers_append assms(6))
  qed
qed

lemma start_wired:
  assumes "start E regex strict confFile flags s0 = (Inr (), s)" "mn_mqtt s0 = None" "\<not> mn_regexOn s0"
    "mn_dashboard s0 = None"
  obtains cfg where "config_of E confFile flags = Some cfg" "wired E regex strict (cc_Auth cfg) s0 s"
    "served_by E False s"
proof -
  from assms(1) show thesis unfolding start_def
  proof (elim andThen_InrE)
  fix cfg t0 c t1 u1 s1 u2 s2 u3 s3 u4 s4 u t4 u5 s5 u6 s6 u7 s7
  assume r1: "read_config E confFile flags s0 = (Inr cfg, t0)" and r2: "read_addon E confFile t0 = (Inr c, t1)" and
    a1: "initStorage E cfg t1 = (Inr u1, s1)" and a2: "initAuth E cfg s1 = (Inr u2, s2)" and
    a3: "initBridge E cfg s2 = (Inr u3, s3)" and a4: "listen E cfg s3 = (Inr u4, s4)" and
    r3: "set_handlers (rest_handlers E) s4 = (Inr u, t4)" and a5: "open_mqtt E cfg t4 = (Inr u5, s5)" and
    a6: "open_regex E regex strict cfg s5 = (Inr u6, s6)" and
    a7: "mount_dashboard E c (single_options c) s6 = (Inr u7, s7)" and
    r4: "add_listener E ''add http listener'' ''stats'' (cc_HTTP cfg) NoTls s7 = (Inr (), s)"
  have cfg: "config_of E confFile flags = Some cfg" and r: "t1 = s0" "t4 = s4\<lparr>mn_handlers := rest_handlers E\<rparr>"
    and a8: "s = s7\<lparr>mn_listeners := mn_listeners s7 @ [(''stats'', cc_HTTP cfg, NoTls)]\<rparr>"
    using r1 r2 r3 r4 by (simp_all add: run_iff)
  obtain hs where h1: "mn_hooks s1 = mn_hooks s0 @ hs" "layers s1 = layers s0" and f1: "filter auth_hook hs = []"
    using plain_hook a1 unfolding r by blast
  obtain hs2 where h2: "mn_hooks s3 = mn_hooks s2 @ hs2" "layers s3 = layers s2" and f2: "filter auth_hook hs2 = []"
    using plain_hook a3 by blast
  have l: "mn_hooks s4 = mn_hooks s3" "layers s4 = layers s3" using listen_Inr a4 by (fastforce simp: layers_def)+
  obtain xs where x: "mn_hooks s2 = mn_hooks s1 @ xs" "layers s2 = layers s1" and
    x': "(\<exists>h. xs = [h] \<and> hooks_for E (cc_Auth cfg) h) \<or> ca_Way (cc_Auth cfg) \<noteq> 0 \<and> ca_Datasource (cc_Auth cfg) > 4"
    using auth_step a2 by blast
  have "layers t4 = layers s4" by (simp add: r layers_def)
  also have "\<dots> = layers s0" by (simp only: l h1 h2 x)
  also have "\<dots> = (None, False, mn_regex s0, None)" using assms(2-4) by (simp add: layers_def)
  finally have "layers t4 = (None, False, mn_regex s0, None)" .
  moreover have "mn_hooks t4 = mn_hooks s0 @ hs @ xs @ hs2" by (simp add: r l h1 h2 x)
  ultimately have "wired E regex strict (cc_Auth cfg) s0 s" unfolding a8
    using wired_tail [OF a5 a6 a7 _ _ f1 f2 x'] by blast
  moreover have "served_by E False s" unfolding a8
    by (rule handlers_tail [OF a5 a6 a7])
      (use \<open>layers t4 = (None, False, mn_regex s0, None)\<close> in \<open>simp_all add: layers_def r route_table_def single_options_def\<close>)
  ultimately show thesis by (rule that [OF cfg])
  qed
qed

lemma cluster_start_wired:
  assumes "cluster_start E regex strict confFile members flags s0 = (Inr (), s)" "mn_mqtt s0 = None" "\<not> mn_regexOn s0"
    "mn_dashboard s0 = None"
  obtains cfg where "config_of E confFile flags = Some cfg" "wired E regex strict (cc_Auth cfg) s0 s"
    "served_by E True s"
proof -
  from assms(1) show thesis unfolding cluster_start_steps
  proof (elim andThen_InrE)
  fix cc t0 c t1 u1 s1 u2 s2 u3 s3 u t3 u4 s4 u' t4 u'' t5 u5 s5 u6 s6 u7 s7
  assume r1: "cluster_read_config E confFile members flags s0 = (Inr cc, t0)" and r2: "read_addon E confFile t0 = (Inr c, t1)" and
    a1: "cluster_initStorage E cc t1 = (Inr u1, s1)" and a2: "cluster_initAuth E cc s1 = (Inr u2, s2)" and
    a3: "initBridge E cc s2 = (Inr u3, s3)" and r3: "start_agent E cc s3 = (Inr u, t3)" and
    a4: "cluster_listen E cc t3 = (Inr u4, s4)" and r4: "defer_close RedisClient s4 = (Inr u', t4)" and
    r5: "set_handlers (cluster_rest_handlers E) t4 = (Inr u'', t5)" and a5: "open_mqtt E cc t5 = (Inr u5, s5)" and
    a6: "open_regex E regex strict cc s5 = (Inr u6, s6)" and
    a7: "mount_dashboard E c (cluster_options E cc c) s6 = (Inr u7, s7)" and
    r6: "add_listener E ''add http listener'' ''stats'' (cc_HTTP cc) NoTls s7 = (Inr (), s)"
  obtain cfg where cfg: "config_of E confFile flags = Some cfg" "cc_Auth cc = cc_Auth cfg" and t0: "t0 = s0"
    using cluster_read_config_Inr [OF r1] by blast
  have r: "t1 = s0" "t3 = s3\<lparr>mn_agent := True\<rparr>"
      "t5 = s4\<lparr>mn_defers := RedisClient # mn_defers s4, mn_handlers := cluster_rest_handlers E\<rparr>"
    and a8: "s = s7\<lparr>mn_listeners := mn_listeners s7 @ [(''stats'', cc_HTTP cc, NoTls)]\<rparr>"
    using r2 r3 r4 r5 r6 t0 by (simp_all add: run_iff)
  obtain hs where h1: "mn_hooks s1 = mn_hooks s0 @ hs" "layers s1 = layers s0" and f1: "filter auth_hook hs = []"
    using plain_hook a1 unfolding r by blast
  obtain hs2 where h2: "mn_hooks s3 = mn_hooks s2 @ hs2" "layers s3 = layers s2" and f2: "filter auth_hook hs2 = []"
    using plain_hook a3 by blast
  have l: "mn_hooks s4 = mn_hooks s3" "layers s4 = layers s3"
    using listen_Inr a4 unfolding r by (fastforce simp: layers_def)+
  obtain xs where x: "mn_hooks s2 = mn_hooks s1 @ xs" "layers s2 = layers s1" and
    x': "(\<exists>h. xs = [h] \<and> hooks_for E (cc_Auth cc) h) \<or> ca_Way (cc_Auth cc) \<noteq> 0 \<and> ca_Datasource (cc_Auth cc) > 4"
    using auth_step a2 by blast
  have "layers t5 = layers s4" by (simp add: r layers_def)
  also have "\<dots> = layers s0" by (simp only: l h1 h2 x)
  also have "\<dots> = (None, False, mn_regex s0, None)" using assms(2-4) by (simp add: layers_def)
  finally have "layers t5 = (None, False, mn_regex s0, None)" .
  moreover have "mn_hooks t5 = mn_hooks s0 @ hs @ xs @ hs2" by (simp add: r l h1 h2 x)
  ultimately have "wired E regex strict (cc_Auth cc) s0 s" unfolding a8
    using wired_tail [OF a5 a6 a7 _ _ f1 f2 x'] by blast
  moreover have "served_by E True s" unfolding a8
    by (rule handlers_tail [OF a5 a6 a7])
      (use \<open>layers t5 = (None, False, mn_regex s0, None)\<close> in
        \<open>simp_all add: layers_def r route_table_def single_options_def cluster_options_def\<close>)
  ultimately show thesis unfolding cfg(2) by (rule that [OF cfg(1)])
  qed
qed

section \<open>Properties\<close>

lemma wired_backend:
  assumes "wired E regex strict A s0 s" "mn_hooks s0 = []"
  obtains h where "filter auth_hook (mn_hooks s) = [h]" "hooks_for E A h"
    "case mn_mqtt s of None \<Rightarrow> FromComqttConfig (me_yaml E) A = Inr None
      | Some b \<Rightarrow> \<exists>c. FromComqttConfig (me_yaml E) A = Inr (Some c) \<and> factory_New (me_stat E) (me_sqlOpen E) c = Inr b"
proof -
  have "\<not> (ca_Way A \<noteq> 0 \<and> ca_Datasource A > 4)"
    using assms(1) by (auto simp: wired_def FromComqttConfig_def Let_def split: option.splits)
  then show thesis using assms that by (auto simp: wired_def)
qed

lemma started_wired:
  assumes "start E regex strict confFile flags s0 = (Inr (), s)
      \<or> cluster_start E regex strict confFile members flags s0 = (Inr (), s)"
    and "mn_mqtt s0 = None" "\<not> mn_regexOn s0" "mn_dashboard s0 = None"
  obtains cfg where "config_of E confFile flags = Some cfg" "wired E regex strict (cc_Auth cfg) s0 s"
  using assms(1)
proof
  assume "start E regex strict confFile flags s0 = (Inr (), s)"
  then show thesis by (rule start_wired [OF _ assms(2-4)]) (rule that)
next
  assume "cluster_start E regex strict confFile members flags s0 = (Inr (), s)"
  then show thesis by (rule cluster_start_wired [OF _ assms(2-4)]) (rule that)
qed

text \<open>The store a hook authenticates against, and the backend that manages the same store.\<close>

definition manages :: "('x, 'p, 'k, 'a, 's) main_env \<Rightarrow> hook \<Rightarrow> backend_choice option \<Rightarrow> bool" where
  "manages E h b =
     (case h of
        AllowHook \<Rightarrow> b = None
      | HttpAuth path \<Rightarrow> b = None
      | LedgerHook data \<Rightarrow>
          (case b of Some (FileChoice c) \<Rightarrow>
             (case cf_File c of Some f \<Rightarrow> me_readFile E (fc_Path f) = Some data | None \<Rightarrow> False) | _ \<Rightarrow> False)
      | RedisAuth opts \<Rightarrow>
          (case b of Some (RedisChoice r) \<Rightarrow>
             (case cf_Redis (rb_cfg r) of
                Some rc \<Rightarrow> rc_AuthKeyPrefix rc = ro_AuthKeyPrefix opts \<and> rc_ACLKeyPrefix rc = ro_AclKeyPrefix opts
                  \<and> (\<forall>a u p d. ro_RedisOptions opts = Some (a, u, p, d) \<longrightarrow>
                       rc_Addr rc = a \<and> rc_Username rc = u \<and> rc_Password rc = p \<and> rc_DB rc = d)
              | None \<Rightarrow> False) | _ \<Rightarrow> False)
      | MysqlAuth opts \<Rightarrow>
          (case b of Some (SqlChoice q) \<Rightarrow> sb_dialect q = mysqlDialect \<and> sq_DSN (sb_SQL q) = mysql_dsn opts
             \<and> sq_Auth (sb_SQL q) = so_Auth opts \<and> sq_ACL (sb_SQL q) = so_Acl opts | _ \<Rightarrow> False)
      | PostgresAuth opts \<Rightarrow>
          (case b of Some (SqlChoice q) \<Rightarrow> sb_dialect q = postgresDialect \<and> sq_DSN (sb_SQL q) = postgres_dsn opts
             \<and> sq_Auth (sb_SQL q) = so_Auth opts \<and> sq_ACL (sb_SQL q) = so_Acl opts | _ \<Rightarrow> False)
      | _ \<Rightarrow> False)"

lemma factory_kind:
  assumes "factory_New stat sql_Open c = Inr b"
  shows "cf_Kind c = ''file'' \<Longrightarrow> b = FileChoice c"
    "cf_Kind c = ''redis'' \<Longrightarrow> \<exists>r. b = RedisChoice r \<and> rb_cfg r = c"
    "cf_Kind c = ''mysql'' \<Longrightarrow> \<exists>q. b = SqlChoice q \<and> cf_SQL c = Some (sb_SQL q) \<and> sb_dialect q = mysqlDialect"
    "cf_Kind c = ''postgres'' \<Longrightarrow> \<exists>q. b = SqlChoice q \<and> cf_SQL c = Some (sb_SQL q) \<and> sb_dialect q = postgresDialect"
proof -
  show "b = FileChoice c" if "cf_Kind c = ''file''"
    using assms that by (auto simp: factory_New_def newFileBackend_def split: option.splits if_splits)
  show "\<exists>r. b = RedisChoice r \<and> rb_cfg r = c" if "cf_Kind c = ''redis''"
    using assms that by (auto simp: factory_New_def newRedisBackend_def split: option.splits if_splits)
  show "\<exists>q. b = SqlChoice q \<and> cf_SQL c = Some (sb_SQL q) \<and> sb_dialect q = mysqlDialect" if "cf_Kind c = ''mysql''"
    using assms that by (auto simp: factory_New_def newSQLBackend_def split: option.splits if_splits)
  show "\<exists>q. b = SqlChoice q \<and> cf_SQL c = Some (sb_SQL q) \<and> sb_dialect q = postgresDialect" if "cf_Kind c = ''postgres''"
    using assms that by (auto simp: factory_New_def newSQLBackend_def split: option.splits if_splits)
qed

lemma loader_kind:
  assumes "FromComqttConfig Y A = Inr (Some c)"
  shows "ca_Datasource A = 0 \<Longrightarrow> cf_Kind c = ''file'' \<and> cf_File c = Some \<lparr>fc_Path = ca_ConfPath A\<rparr>"
    "ca_Datasource A = 1 \<Longrightarrow> yl_redis Y (ca_ConfPath A) = Some ro \<Longrightarrow> cf_Kind c = ''redis'' \<and>
       (case cf_Redis c of
                Some rc \<Rightarrow> rc_AuthKeyPrefix rc = ro_AuthKeyPrefix ro \<and> rc_ACLKeyPrefix rc = ro_AclKeyPrefix ro
                  \<and> (\<forall>a u p d. ro_RedisOptions ro = Some (a, u, p, d) \<longrightarrow>
                       rc_Addr rc = a \<and> rc_Username rc = u \<and> rc_Password rc = p \<and> rc_DB rc = d)
              | None \<Rightarrow> False)"
    "ca_Datasource A = 2 \<Longrightarrow> yl_mysql Y (ca_ConfPath A) = Some so \<Longrightarrow> cf_Kind c = ''mysql'' \<and>
       cf_SQL c = Some \<lparr>sq_Driver = ''mysql'', sq_DSN = mysql_dsn so, sq_Auth = so_Auth so, sq_ACL = so_Acl so\<rparr>"
    "ca_Datasource A = 3 \<Longrightarrow> yl_postgres Y (ca_ConfPath A) = Some so \<Longrightarrow> cf_Kind c = ''postgres'' \<and>
       cf_SQL c = Some \<lparr>sq_Driver = ''postgres'', sq_DSN = postgres_dsn so, sq_Auth = so_Auth so, sq_ACL = so_Acl so\<rparr>"
  using assms by (auto simp: FromComqttConfig_def Let_def split: if_splits option.splits)

lemma manageable:
  "adapter_FromComqttConfig Y A = Inr None \<longleftrightarrow> ca_Way A = 0 \<or> ca_Datasource A = 4"
  "FromComqttConfig Y A = Inr None \<longleftrightarrow> ca_Way A = 0 \<or> ca_Datasource A = 4"
  by (auto simp: adapter_FromComqttConfig_def FromComqttConfig_def Let_def split: option.splits)

lemma configured_manages:
  assumes "hooks_for E A h"
    and "case b of None \<Rightarrow> FromComqttConfig (me_yaml E) A = Inr None
      | Some b \<Rightarrow> \<exists>c. FromComqttConfig (me_yaml E) A = Inr (Some c) \<and> factory_New (me_stat E) (me_sqlOpen E) c = Inr b"
  shows "manages E h b"
proof (cases b)
  case None
  then show ?thesis using assms by (cases h) (auto simp: manages_def manageable hooks_for_def)
next
  case (Some q)
  then obtain c where c: "FromComqttConfig (me_yaml E) A = Inr (Some c)" and q: "factory_New (me_stat E) (me_sqlOpen E) c = Inr q"
    using assms(2) by auto
  have "ca_Way A \<noteq> 0 \<and> ca_Datasource A \<noteq> 4" using c manageable(2) [of "me_yaml E" A] by auto
  then have w: "ca_Way A \<noteq> 0" "ca_Datasource A \<noteq> 4" by simp_all
  show ?thesis unfolding Some
  proof (cases h)
    case (LedgerHook data)
    with assms(1) have d: "ca_Datasource A = 0" "me_readFile E (ca_ConfPath A) = Some data" by simp_all
    show "manages E h (Some q)"
      using loader_kind(1) [OF c d(1)] factory_kind(1) [OF q] d(2) by (simp add: LedgerHook manages_def)
  next
    case (RedisAuth ro)
    with assms(1) have d: "ca_Datasource A = 1" "yl_redis (me_yaml E) (ca_ConfPath A) = Some ro" by simp_all
    obtain r where "q = RedisChoice r" "rb_cfg r = c" using loader_kind(2) [OF c d] factory_kind(2) [OF q] by blast
    then show "manages E h (Some q)" using loader_kind(2) [OF c d] by (simp add: RedisAuth manages_def)
  next
    case (MysqlAuth so)
    with assms(1) have d: "ca_Datasource A = 2" "yl_mysql (me_yaml E) (ca_ConfPath A) = Some so" by simp_all
    obtain r where r: "q = SqlChoice r" "cf_SQL c = Some (sb_SQL r)" "sb_dialect r = mysqlDialect"
      using loader_kind(3) [OF c d] factory_kind(3) [OF q] by blast
    have "sb_SQL r = \<lparr>sq_Driver = ''mysql'', sq_DSN = mysql_dsn so, sq_Auth = so_Auth so, sq_ACL = so_Acl so\<rparr>"
      using loader_kind(3) [OF c d] r(2) by (metis option.inject)
    then show "manages E h (Some q)" using r by (simp add: MysqlAuth manages_def)
  next
    case (PostgresAuth so)
    with assms(1) have d: "ca_Datasource A = 3" "yl_postgres (me_yaml E) (ca_ConfPath A) = Some so" by simp_all
    obtain r where r: "q = SqlChoice r" "cf_SQL c = Some (sb_SQL r)" "sb_dialect r = postgresDialect"
      using loader_kind(4) [OF c d] factory_kind(4) [OF q] by blast
    have "sb_SQL r = \<lparr>sq_Driver = ''postgres'', sq_DSN = postgres_dsn so, sq_Auth = so_Auth so, sq_ACL = so_Acl so\<rparr>"
      using loader_kind(4) [OF c d] r(2) by (metis option.inject)
    then show "manages E h (Some q)" using r by (simp add: PostgresAuth manages_def)
  qed (use assms(1) w in \<open>simp_all add: hooks_for_def\<close>)
qed


text \<open>The seeding under the contract of the regex store.\<close>

lemma if_notI: "(\<not> b \<Longrightarrow> P) \<Longrightarrow> (b \<Longrightarrow> Q) \<Longrightarrow> if \<not> b then P else Q"
  by simp

lemma seed_regex_seeded:
  assumes "regex_store (me_regex E) rules seeded" "seed_regex E strict x = (Inr (), x')"
  shows "seeded x'" "seeded x \<Longrightarrow> x' = x"
proof -
  have g: "GetRegexSeeded (me_regex E) x = Inr b \<Longrightarrow> b = seeded x" for b
    using regex_store.Seeded_Inr [OF assms(1)] .
  have m: "SetRegexSeeded (me_regex E) y = (Inr (), z) \<Longrightarrow> seeded z" for y z
    using regex_store.SetSeeded_Inr [OF assms(1)] by blast
  show "seeded x'" "seeded x \<Longrightarrow> x' = x"
    using assms(2) g m by (auto simp: seed_regex_def split: sum.splits bool.splits prod.splits)
qed

lemma seed_regex_fresh:
  assumes "regex_store (me_regex E) rules seeded" "seed_regex E strict x = (Inr (), x')" "\<not> seeded x"
  obtains i where "i \<noteq> []" "rules x i = None" "rules x' = (rules x)(i \<mapsto> (seed_rule E strict)\<lparr>rr_ID := i\<rparr>)"
proof -
  have "GetRegexSeeded (me_regex E) x = Inr False"
    using assms(2,3) regex_store.Seeded_Inr [OF assms(1), of x]
    by (auto simp: seed_regex_def split: sum.splits bool.splits)
  then obtain i x1 where p: "PutRegexRule (me_regex E) (seed_rule E strict) x = (Inr i, x1)"
    and m: "SetRegexSeeded (me_regex E) x1 = (Inr (), x')"
    using assms(2) by (auto simp: seed_regex_def split: sum.splits prod.splits)
  have "rr_ID (seed_rule E strict) = []" by (simp add: seed_rule_def)
  from that regex_store.Put_new [OF assms(1) p this] regex_store.SetSeeded_Inr [OF assms(1) m] show thesis by metis
qed

lemma seeded_rule:
  assumes "regex_store (me_regex E) rules seeded" "seed_regex E strict x = (Inr (), x')"
  shows "if seeded x then x' = x
    else \<exists>i. rules x i = None \<and> rules x' = (rules x)
      (i \<mapsto> \<lparr>rr_ID = i, rr_Order = 999999, rr_Permission = (if strict then me_deny E else me_allow E),
           rr_SubjectKind = me_username E, rr_SubjectPattern = [], rr_Action = me_all E, rr_TopicPatterns = [''#'']\<rparr>)"
proof (cases "seeded x")
  case True
  with seed_regex_seeded(2) [OF assms] show ?thesis by (simp only: if_True)
next
  case False
  then obtain i where "rules x i = None" "rules x' = (rules x)(i \<mapsto> (seed_rule E strict)\<lparr>rr_ID := i\<rparr>)"
    using seed_regex_fresh [OF assms False] by blast
  then show ?thesis using False by (auto simp only: if_False seed_rule_def RegexRule.update_convs)
qed

lemma restart_keeps:
  fixes E E2 :: "('x, 'p, 'k, 'a, 's) main_env"
  assumes "regex_store (me_regex E) rules seeded" "seed_regex E strict x = (Inr (), x')"
    and "me_regex E2 = me_regex E" "mn_regex t0 = x'" "mn_mqtt t0 = None" "\<not> mn_regexOn t0" "mn_dashboard t0 = None"
    and "start E2 regex2 strict2 confFile2 flags2 t0 = (Inr (), t)
       \<or> cluster_start E2 regex2 strict2 confFile2 members2 flags2 t0 = (Inr (), t)"
  shows "mn_regex t = x'"
proof -
  obtain c2 where "config_of E2 confFile2 flags2 = Some c2" and c2: "wired E2 regex2 strict2 (cc_Auth c2) t0 t"
    by (rule started_wired [OF assms(8,5-7)])
  from c2 consider "mn_regex t = mn_regex t0" | "seed_regex E2 strict2 (mn_regex t0) = (Inr (), mn_regex t)"
    by (auto simp: wired_def split: if_splits)
  then show ?thesis
    using seed_regex_seeded [of E2 rules seeded strict2 "mn_regex t0" "mn_regex t"]
      seed_regex_seeded(1) [OF assms(1,2)] assms(1,3,4) by cases auto
qed

text \<open>
  C20. The regex layer is seeded once and for all. When a program serves, the layer is on exactly if
  it was asked for and the broker has a store that can be managed; then its hook is installed and
  the store is seeded. A store that was seeded before is left exactly as it is; one that was not gets
  one new rule under a fresh identifier: any user, all topics, all actions, allowed, or denied in strict
  mode, last in order. Every later start on the same store, of either program and with any flags,
  leaves the store as it is.
\<close>

theorem regex_layer_seeded_once:
  fixes E :: "('x, 'p, 'k, 'a, 's) main_env"
  assumes "start E regex strict confFile flags s0 = (Inr (), s)
      \<or> cluster_start E regex strict confFile members flags s0 = (Inr (), s)"
    and "mn_mqtt s0 = None" "\<not> mn_regexOn s0" "mn_dashboard s0 = None" "regex_store (me_regex E) rules seeded"
  shows "(mn_regexOn s \<longleftrightarrow> regex \<and> (\<exists>cfg. config_of E confFile flags = Some cfg
        \<and> ca_Way (cc_Auth cfg) \<noteq> 0 \<and> ca_Datasource (cc_Auth cfg) \<noteq> 4))
    \<and> (if \<not> mn_regexOn s then mn_regex s = mn_regex s0
       else RegexHook \<in> set (mn_hooks s) \<and> seeded (mn_regex s)
         \<and> (if seeded (mn_regex s0) then mn_regex s = mn_regex s0
            else \<exists>i. rules (mn_regex s0) i = None \<and> rules (mn_regex s) = (rules (mn_regex s0))
              (i \<mapsto> \<lparr>rr_ID = i, rr_Order = 999999, rr_Permission = (if strict then me_deny E else me_allow E),
                   rr_SubjectKind = me_username E, rr_SubjectPattern = [], rr_Action = me_all E, rr_TopicPatterns = [''#'']\<rparr>))
         \<and> (\<forall>(E2 :: ('x, 'p, 'k, 'a, 's) main_env) regex2 strict2 confFile2 members2 flags2 t0 t.
              me_regex E2 = me_regex E \<and> mn_regex t0 = mn_regex s \<and> mn_mqtt t0 = None \<and> \<not> mn_regexOn t0 \<and> mn_dashboard t0 = None
              \<and> (start E2 regex2 strict2 confFile2 flags2 t0 = (Inr (), t)
                 \<or> cluster_start E2 regex2 strict2 confFile2 members2 flags2 t0 = (Inr (), t))
              \<longrightarrow> mn_regex t = mn_regex s))"
proof -
  obtain cfg where cfg: "config_of E confFile flags = Some cfg" and w: "wired E regex strict (cc_Auth cfg) s0 s"
    by (rule started_wired [OF assms(1-4)])
  have on: "mn_regexOn s \<longleftrightarrow> regex \<and> ca_Way (cc_Auth cfg) \<noteq> 0 \<and> ca_Datasource (cc_Auth cfg) \<noteq> 4"
    and off: "\<not> mn_regexOn s \<Longrightarrow> mn_regex s = mn_regex s0"
    using w by (auto simp: wired_def manageable split: if_splits)
  have seed: "RegexHook \<in> set (mn_hooks s)" "seed_regex E strict (mn_regex s0) = (Inr (), mn_regex s)" if "mn_regexOn s"
    using w that by (auto simp: wired_def)
  note rule = seeded_rule [OF assms(5) seed(2)]
  have all_later: "\<forall>(E2 :: ('x, 'p, 'k, 'a, 's) main_env) regex2 strict2 confFile2 members2 flags2 t0 t.
              me_regex E2 = me_regex E \<and> mn_regex t0 = mn_regex s \<and> mn_mqtt t0 = None \<and> \<not> mn_regexOn t0 \<and> mn_dashboard t0 = None
              \<and> (start E2 regex2 strict2 confFile2 flags2 t0 = (Inr (), t)
                 \<or> cluster_start E2 regex2 strict2 confFile2 members2 flags2 t0 = (Inr (), t))
              \<longrightarrow> mn_regex t = mn_regex s" if "mn_regexOn s"
    by (intro allI impI, elim conjE) (rule restart_keeps [OF assms(5) seed(2) [OF that]])
  have "mn_regexOn s \<longleftrightarrow> regex \<and> (\<exists>cfg. config_of E confFile flags = Some cfg
        \<and> ca_Way (cc_Auth cfg) \<noteq> 0 \<and> ca_Datasource (cc_Auth cfg) \<noteq> 4)" using on cfg by auto
  then show ?thesis
    by (rule conjI)
      (rule if_notI, erule off, intro conjI, erule seed(1), erule seed_regex_seeded(1) [OF assms(5) seed(2)],
        erule rule, erule all_later)
qed

text \<open>
  The seeding is three calls, not one step: if another node, or the same one after a crash, starts
  from the store between the put and the mark, a second copy of the rule is stored.
\<close>

theorem regex_seed_repeats:
  assumes "regex_store (me_regex E) rules seeded" "\<not> seeded x"
    and "PutRegexRule (me_regex E) (seed_rule E strict) x = (Inr i, x1)" "seed_regex E strict2 x1 = (Inr (), x2)"
  shows "\<exists>j. i \<noteq> j \<and> rules x i = None \<and> rules x j = None
    \<and> rules x2 = (rules x)(i \<mapsto> (seed_rule E strict)\<lparr>rr_ID := i\<rparr>, j \<mapsto> (seed_rule E strict2)\<lparr>rr_ID := j\<rparr>)"
proof -
  have p: "rules x i = None" "rules x1 = (rules x)(i \<mapsto> (seed_rule E strict)\<lparr>rr_ID := i\<rparr>)" "\<not> seeded x1"
    using regex_store.Put_new [OF assms(1,3)] assms(2) by (simp_all add: seed_rule_def)
  obtain j where "rules x1 j = None" "rules x2 = (rules x1)(j \<mapsto> (seed_rule E strict2)\<lparr>rr_ID := j\<rparr>)"
    using seed_regex_fresh [OF assms(1,4) p(3)] by blast
  then show ?thesis using p by (auto split: if_splits)
qed

section \<open>What a run closes\<close>

definition keeps :: "('s \<Rightarrow> bool) \<Rightarrow> ('s, 'a) run \<Rightarrow> bool" where
  "keeps P m \<longleftrightarrow> (\<forall>s. P s \<longrightarrow> P (snd (m s)))"

named_theorems keeps_intro \<open>which steps keep the record of opened resources\<close>

lemma keeps_andThen [keeps_intro]: "keeps P m \<Longrightarrow> (\<And>a. keeps P (f a)) \<Longrightarrow> keeps P (andThen m f)"
  by (fastforce simp: keeps_def andThen_def split: prod.splits sum.splits)

lemma keeps_simple [keeps_intro]: "keeps P (pass a)" "keeps P (fail e)" "keeps P (orFail e x)"
  by (auto simp: keeps_def pass_def fail_def orFail_def split: option.splits)

lemma keeps_if [keeps_intro]: "(b \<Longrightarrow> keeps P m) \<Longrightarrow> (\<not> b \<Longrightarrow> keeps P m') \<Longrightarrow> keeps P (if b then m else m')"
  by simp

text \<open>Exactly the opened backends are waiting to be closed, and nothing has been closed.\<close>

definition waiting :: "('x, 's) main_state \<Rightarrow> bool" where
  "waiting s \<longleftrightarrow> (mn_mqtt s \<noteq> None \<longleftrightarrow> MqttBackend \<in> set (mn_defers s))
     \<and> (mn_regexOn s \<longleftrightarrow> RegexBackend \<in> set (mn_defers s))
     \<and> set (mn_defers s) \<subseteq> {RedisClient, MqttBackend, RegexBackend} \<and> mn_closed s = []"

lemma keeps_waiting [keeps_intro]:
  "keeps waiting (add_hook E err h)" "keeps waiting (add_listener E err name addr tls)"
  "keeps waiting set_blacklist" "keeps waiting (set_handlers m)" "keeps waiting (start_agent E cfg)"
  "keeps waiting (defer_close RedisClient)"
  by (auto simp: keeps_def waiting_def add_hook_def add_listener_def set_blacklist_def set_handlers_def start_agent_def
      defer_close_def)

lemma open_mqtt_waiting [keeps_intro]: "keeps waiting (open_mqtt E cfg)"
  by (auto simp: keeps_def waiting_def open_mqtt_def defer_close_def split: sum.splits option.splits)

lemma open_regex_waiting [keeps_intro]: "keeps waiting (open_regex E enabled strict cfg)"
  by (auto simp: keeps_def waiting_def open_regex_def defer_close_def andThen_def add_hook_def
      split: sum.splits option.splits prod.splits if_splits)

lemma mount_dashboard_waiting [keeps_intro]: "keeps waiting (mount_dashboard E c opts)"
  by (auto simp: keeps_def waiting_def mount_dashboard_def split: sum.splits prod.splits)

lemma read_addon_waiting [keeps_intro]: "keeps waiting (read_addon E confFile)"
  by (auto simp: keeps_def read_addon_def fail_def pass_def split: sum.splits config_error.splits)

lemma start_waiting: "keeps waiting (start E regex strict confFile flags)"
  unfolding start_def read_config_def initStorage_def initAuth_def initBridge_def listen_def Let_def
  by (intro keeps_intro)

lemma cluster_start_waiting: "keeps waiting (cluster_start E regex strict confFile members flags)"
  unfolding cluster_start_steps cluster_read_config_def cluster_initStorage_def cluster_initAuth_def initBridge_def
    cluster_listen_def Let_def
  by (intro keeps_intro)

lemma run_defers_serve:
  assumes "run_defers (andThen m (\<lambda>_. serve failed)) s0 = (r, s)" "keeps waiting m" "waiting s0"
  shows "mn_defers s = [] \<and> (mn_mqtt s \<noteq> None \<longrightarrow> MqttBackend \<in> set (mn_closed s))
    \<and> (mn_regexOn s \<longrightarrow> RegexBackend \<in> set (mn_closed s))
    \<and> (if fst (m s0) = Inr ()
       then r = (if failed then Inl ''server'' else Inr ())
         \<and> (\<exists>rest. mn_closed s = (if mn_dashboard s = None then [] else [DashCleanup])
              @ (if mn_agent s then [AgentStop] else []) @ ServerClose # rest)
       else set (mn_closed s) \<subseteq> {RedisClient, MqttBackend, RegexBackend})"
proof -
  obtain x s1 where m: "m s0 = (x, s1)" by force
  then have "waiting s1" using assms(2,3) by (metis keeps_def snd_conv)
  then show ?thesis using assms(1) m
    by (cases x) (auto simp: run_defers_def andThen_def serve_def waiting_def)
qed

text \<open>
  C23. A run gives back what it opened. However \<open>realMain\<close> of either program ends, each backend it
  opened has been closed. If it got as far as serving, it returns nil after a signal and the server's
  error otherwise, and before the deferred closers it has cleaned up the dashboard, stopped the cluster
  agent and closed the server, in this order. If starting fails, only the deferred closers run: an agent
  that was started and a dashboard that was mounted are not shut down.
\<close>

theorem realMain_closes:
  assumes "(if clustered then cluster_realMain E regex strict confFile members flags failed
      else realMain E regex strict confFile flags failed) s0 = (r, s)"
    and "mn_defers s0 = []" "mn_closed s0 = []" "mn_mqtt s0 = None" "\<not> mn_regexOn s0"
  shows "mn_defers s = [] \<and> (mn_mqtt s \<noteq> None \<longrightarrow> MqttBackend \<in> set (mn_closed s))
    \<and> (mn_regexOn s \<longrightarrow> RegexBackend \<in> set (mn_closed s))
    \<and> (if fst ((if clustered then cluster_start E regex strict confFile members flags
            else start E regex strict confFile flags) s0) = Inr ()
       then r = (if failed then Inl ''server'' else Inr ())
         \<and> (\<exists>rest. mn_closed s = (if mn_dashboard s = None then [] else [DashCleanup])
              @ (if mn_agent s then [AgentStop] else []) @ ServerClose # rest)
       else set (mn_closed s) \<subseteq> {RedisClient, MqttBackend, RegexBackend})"
proof -
  let ?m = "if clustered then cluster_start E regex strict confFile members flags else start E regex strict confFile flags"
  have "run_defers (andThen ?m (\<lambda>_. serve failed)) s0 = (r, s)"
    using assms(1) by (simp add: realMain_def cluster_realMain_def split: if_splits)
  moreover have "keeps waiting ?m" using start_waiting cluster_start_waiting by auto
  moreover have "waiting s0" using assms(2-5) by (simp add: waiting_def)
  ultimately show ?thesis by (rule run_defers_serve)
qed

section \<open>The routes of a served program\<close>

lemma handlers_of:
  assumes "served_by E clustered s"
  shows "mn_handlers s p = Some h \<longleftrightarrow>
     (p, h) \<in> set (own_handlers clustered (mn_dashboard s \<noteq> None) (mn_regexOn s))
     \<or> p \<notin> fst ` set (own_handlers clustered (mn_dashboard s \<noteq> None) (mn_regexOn s)) \<and> h = Stock p
        \<and> (p \<in> set (me_stock E) \<or> clustered \<and> p \<in> set (me_clusterStock E))"
proof -
  let ?o = "own_handlers clustered (mn_dashboard s \<noteq> None) (mn_regexOn s)"
  have "mn_handlers s p = (case map_of ?o p of Some h \<Rightarrow> Some h | None \<Rightarrow>
      if p \<in> set (if clustered then me_clusterStock E @ me_stock E else me_stock E) then Some (Stock p) else None)"
    using assms by (simp only: served_by_def put_handlers_distinct [OF own_handlers_distinct] put_stock)
  then show ?thesis
  proof (cases "map_of ?o p")
    case None
    then have "p \<notin> fst ` set ?o" by (simp only: map_of_eq_None_iff not_False_eq_True)
    then have "(p, h) \<notin> set ?o" by (metis fst_conv image_eqI)
    then show ?thesis
      using \<open>mn_handlers s p = _\<close> None \<open>p \<notin> fst ` set ?o\<close> by auto
  next
    case (Some h')
    then have "mn_handlers s p = Some h'" using \<open>mn_handlers s p = _\<close> by simp
    moreover have "p \<in> fst ` set ?o" using map_of_SomeD [OF Some] by (metis fst_conv image_eqI)
    moreover have "(p, h) \<in> set ?o \<longleftrightarrow> h = h'"
      unfolding map_of_eq_Some_iff [OF own_handlers_distinct, symmetric] using Some by auto
    ultimately show ?thesis by auto
  qed
qed

lemma own_iff:
  "(p, AddonRest f) \<in> set (own_handlers c d r) \<longleftrightarrow> (p, f) \<in> set rest_routes"
  "(p, ClusterMirror f) \<in> set (own_handlers c d r) \<longleftrightarrow> c \<and> (p, f) \<in> set cluster_rest_routes"
  "(p, DashHandler g f) \<in> set (own_handlers c d r) \<longleftrightarrow> d \<and>
     (rt p g f \<in> set base_routes \<or> c \<and> rt p g f = rt ''GET /dashboard/cluster'' Wrap ''ClusterPage''
      \<or> r \<and> rt p g f \<in> set regex_routes)"
  "(p, Stock q) \<notin> set (own_handlers c d r)"
proof -
  have dash: "(p, DashHandler g f) \<in> set (dash_handlers rs) \<longleftrightarrow> rt p g f \<in> set rs"
    "(p, AddonRest f) \<notin> set (dash_handlers rs)" "(p, ClusterMirror f) \<notin> set (dash_handlers rs)"
    "(p, Stock q) \<notin> set (dash_handlers rs)" for rs
  proof -
    have "r = rt (rt_Pattern r) (rt_Guard r) (rt_Handler r)" for r by simp
    then show "(p, DashHandler g f) \<in> set (dash_handlers rs) \<longleftrightarrow> rt p g f \<in> set rs"
      unfolding dash_handlers_def by (smt (verit) Pair_inject handler.inject(4) image_iff list.set_map route.select_convs)
  qed (auto simp: dash_handlers_def)
  show "(p, AddonRest f) \<in> set (own_handlers c d r) \<longleftrightarrow> (p, f) \<in> set rest_routes"
    "(p, ClusterMirror f) \<in> set (own_handlers c d r) \<longleftrightarrow> c \<and> (p, f) \<in> set cluster_rest_routes"
    "(p, Stock q) \<notin> set (own_handlers c d r)"
    by (force simp: own_handlers_def dash)+
  have "(p, DashHandler g f) \<in> set (own_handlers c d r) \<longleftrightarrow> d \<and>
      rt p g f \<in> set (base_routes @ (if c then [rt ''GET /dashboard/cluster'' Wrap ''ClusterPage''] else [])
        @ (if r then regex_routes else []))"
    unfolding own_handlers_def set_append Un_iff by (auto simp: dash)
  then show "(p, DashHandler g f) \<in> set (own_handlers c d r) \<longleftrightarrow> d \<and>
     (rt p g f \<in> set base_routes \<or> c \<and> rt p g f = rt ''GET /dashboard/cluster'' Wrap ''ClusterPage''
      \<or> r \<and> rt p g f \<in> set regex_routes)" by auto
qed

text \<open>
  C6. The route table of a served program, whatever patterns the broker brings. The patterns of the
  three tables of the program are pairwise different, so each keeps its own handler: the listed
  endpoint for the eight REST patterns, its fan-out for the eight cluster patterns in cluster mode
  only, and the dashboard handler with its guard for the dashboard patterns, when the dashboard is
  enabled, with the cluster page and the regex pages exactly when there is a cluster and a regex
  backend. The broker's own handlers remain at all other patterns, and there is nothing else: no
  dashboard handler is reachable without the guard its table gives it.
\<close>

theorem served_routes:
  assumes "if clustered then cluster_start E regex strict confFile members flags s0 = (Inr (), s)
      else start E regex strict confFile flags s0 = (Inr (), s)"
    and "mn_mqtt s0 = None" "\<not> mn_regexOn s0" "mn_dashboard s0 = None"
  shows "(mn_handlers s p = Some (AddonRest f) \<longleftrightarrow> (p, f) \<in> set rest_routes)
    \<and> (mn_handlers s p = Some (ClusterMirror f) \<longleftrightarrow> clustered \<and> (p, f) \<in> set cluster_rest_routes)
    \<and> (mn_handlers s p = Some (DashHandler g f) \<longleftrightarrow> mn_dashboard s \<noteq> None \<and>
         (rt p g f \<in> set base_routes \<or> clustered \<and> rt p g f = rt ''GET /dashboard/cluster'' Wrap ''ClusterPage''
          \<or> mn_regexOn s \<and> rt p g f \<in> set regex_routes))
    \<and> (mn_handlers s p = Some (Stock q) \<longrightarrow> q = p \<and> (p \<in> set (me_stock E) \<or> clustered \<and> p \<in> set (me_clusterStock E)))
    \<and> (p \<in> set (me_stock E) \<longrightarrow> mn_handlers s p \<noteq> None)"
proof -
  have "served_by E clustered s"
  proof (cases clustered)
    case True
    then have "cluster_start E regex strict confFile members flags s0 = (Inr (), s)" using assms(1) by simp
    from cluster_start_wired [OF this assms(2-4)] show ?thesis using True by metis
  next
    case False
    then have "start E regex strict confFile flags s0 = (Inr (), s)" using assms(1) by simp
    from start_wired [OF this assms(2-4)] show ?thesis using False by metis
  qed
  note h = handlers_of [OF this, of p]
  have "mn_handlers s p \<noteq> None" if "p \<in> set (me_stock E)"
  proof (cases "p \<in> fst ` set (own_handlers clustered (mn_dashboard s \<noteq> None) (mn_regexOn s))")
    case True
    then obtain x where "(p, x) \<in> set (own_handlers clustered (mn_dashboard s \<noteq> None) (mn_regexOn s))" by force
    then show ?thesis using h [of x] by blast
  next
    case False
    then show ?thesis using h [of "Stock p"] that by blast
  qed
  then show ?thesis unfolding h own_iff by (auto simp: own_iff)
qed

section \<open>A concrete start\<close>

definition demo_config :: comqtt_config where
  "demo_config = \<lparr>cc_StorageWay = 1, cc_StoragePath = ''db'', cc_Redis = \<lparr>rl_Addr = [], rl_DB = 0, rl_User = [], rl_Pass = []\<rparr>,
     cc_HPrefix = [], cc_Auth = \<lparr>ca_Way = 1, ca_Datasource = 0, ca_ConfPath = ''auth.yml''\<rparr>, cc_BlacklistPath = [],
     cc_BridgeWay = 0, cc_BridgePath = [], cc_TCP = '':1883'', cc_WS = '':1882'', cc_QUIC = '':2000'', cc_HTTP = '':8080'',
     cc_NodeName = [], cc_BindPort = 7946, cc_Members = None\<rparr>"

definition demo_main :: "((bool, unit, unit) mem_regex, bool, unit, unit, unit) main_env" where
  "demo_main = \<lparr>me_addHook = (\<lambda>_. True), me_addListener = (\<lambda>_ _. True), me_readFile = (\<lambda>_. Some ''auth:''),
     me_yaml = demo_loader, me_httpYaml = (\<lambda>_. False), me_kafkaYaml = (\<lambda>_. False), me_ledgerYaml = (\<lambda>_. False),
     me_load = (\<lambda>_. None), me_addon = (\<lambda>_. None), me_tls = Some False, me_selfSigned = True, me_agentStart = False,
     me_stock = [''GET /api/v1/mqtt/stat/online''], me_clusterStock = [], me_stat = (\<lambda>_. Some ()), me_sqlOpen = (\<lambda>_ _. False),
     me_regexNew = (\<lambda>_. True), me_regex = mem_regex_store, me_allow = True, me_deny = False, me_username = (), me_all = (),
     me_redis = (\<lambda>_. undefined),
     me_boot = \<lparr>be_hostname = None, be_env_secret = [], be_rand = None, be_redis_rand = None, be_mkdir_ok = True,
       be_write_ok = True, be_torn = None\<rparr>,
     me_auth = \<lparr>clock = 0, bcrypt_generate = (\<lambda>_. None), bcrypt_compare = (\<lambda>_ _. False), initial_password = [],
       rand_bytes = (\<lambda>_. None)\<rparr>,
     me_encode = (\<lambda>_. []), me_dirOk = True, me_doc = UsersDoc [zero_User], me_write = WriteOk, me_eventHook = True\<rparr>"

definition demo_state :: "((bool, unit, unit) mem_regex, unit) main_state" where
  "demo_state = \<lparr>mn_hooks = [], mn_blacklist = False, mn_listeners = [], mn_agent = False, mn_mqtt = None, mn_regexOn = False,
     mn_dashboard = None, mn_handlers = Map.empty, mn_regex = ([], False),
     mn_boot = \<lparr>bs_file = Some (replicate 16 (CHR ''s'')), bs_redis = ()\<rparr>, mn_defers = [], mn_closed = []\<rparr>"

lemma demo_start: "\<exists>s. start demo_main True True [] demo_config demo_state = (Inr (), s) \<and> mn_regexOn s \<and> mn_dashboard s \<noteq> None"
proof -
  have "(case start demo_main True True [] demo_config demo_state of (Inr _, s) \<Rightarrow> mn_regexOn s \<and> mn_dashboard s \<noteq> None | _ \<Rightarrow> False)"
    by code_simp
  then show ?thesis by (cases "start demo_main True True [] demo_config demo_state") (auto split: sum.splits)
qed

lemma demo_state_simps [simp]:
  "mn_hooks demo_state = []" "mn_mqtt demo_state = None" "\<not> mn_regexOn demo_state" "mn_dashboard demo_state = None"
  "mn_defers demo_state = []" "mn_closed demo_state = []" "mn_regex demo_state = ([], False)"
  by (simp_all add: demo_state_def)


theorem regex_layer_seeded_once_witness:
  "\<exists>s i. start demo_main True True [] demo_config demo_state = (Inr (), s) \<and> snd (mn_regex s)
     \<and> mem_regex_rules (mn_regex s) = [i \<mapsto> \<lparr>rr_ID = i, rr_Order = 999999, rr_Permission = False, rr_SubjectKind = (),
         rr_SubjectPattern = [], rr_Action = (), rr_TopicPatterns = [''#'']\<rparr>]"
proof -
  obtain s where s: "start demo_main True True [] demo_config demo_state = (Inr (), s)" "mn_regexOn s" using demo_start by blast
  have r: "regex_store (me_regex demo_main) mem_regex_rules snd"
    using memx.regex_store_axioms by (simp add: demo_main_def)
  have "mem_regex_rules (mn_regex demo_state) = Map.empty" "\<not> snd (mn_regex demo_state)" "\<not> me_deny demo_main" by (simp_all add: demo_main_def)
  note n = this
  note t = regex_layer_seeded_once [OF disjI1 [OF s(1)] demo_state_simps(2-4) r, THEN conjunct2,
      unfolded if_not_P [OF not_not [THEN iffD2, OF s(2)]], THEN conjunct2]
  from t [THEN conjunct2, THEN conjunct1] obtain i where "mem_regex_rules (mn_regex s) = [i \<mapsto> \<lparr>rr_ID = i, rr_Order = 999999,
      rr_Permission = False, rr_SubjectKind = (), rr_SubjectPattern = [], rr_Action = (), rr_TopicPatterns = [''#'']\<rparr>]"
    using n by auto
  with s(1) t [THEN conjunct1] show ?thesis by blast
qed

theorem realMain_closes_witness:
  "\<exists>s rest. realMain demo_main True True [] demo_config True demo_state = (Inl ''server'', s)
     \<and> MqttBackend \<in> set (mn_closed s) \<and> mn_closed s = DashCleanup # ServerClose # rest"
proof -
  let ?m = "realMain demo_main True True [] demo_config True demo_state"
  obtain r s where m: "?m = (r, s)" by force
  have c: "case ?m of (r, s) \<Rightarrow> mn_mqtt s \<noteq> None \<and> mn_dashboard s \<noteq> None \<and> \<not> mn_agent s" by code_simp
  have st: "fst (start demo_main True True [] demo_config demo_state) = Inr ()" using demo_start by auto
  have e: "(if False then cluster_realMain demo_main True True [] [] demo_config True
      else realMain demo_main True True [] demo_config True) demo_state = (r, s)" using m by simp
  from realMain_closes [OF e demo_state_simps(5,6,2,3)] st c m show ?thesis by auto
qed

theorem served_routes_witness:
  "\<exists>s. start demo_main True True [] demo_config demo_state = (Inr (), s)
     \<and> mn_handlers s ''POST /dashboard/users'' = Some (DashHandler WrapAdmin ''UsersCreate'')
     \<and> mn_handlers s ''GET /dashboard/cluster'' = None"
proof -
  obtain s where s: "start demo_main True True [] demo_config demo_state = (Inr (), s)" "mn_dashboard s \<noteq> None"
    using demo_start by blast
  have a: "if False then cluster_start demo_main True True [] [] demo_config demo_state = (Inr (), s)
      else start demo_main True True [] demo_config demo_state = (Inr (), s)" using s by simp
  note r = served_routes [OF a demo_state_simps(2-4)]
  have "mn_handlers s ''POST /dashboard/users'' = Some (DashHandler WrapAdmin ''UsersCreate'')"
    using s(2) by (simp add: r base_routes_def)
  moreover have "mn_handlers s ''GET /dashboard/cluster'' \<noteq> Some h" for h
  proof (cases h)
    case (Stock q)
    have "\<not> mn_handlers s ''GET /dashboard/cluster'' = Some (Stock q)"
      using r [of "''GET /dashboard/cluster''" _ _ q] by (auto simp: demo_main_def)
    then show ?thesis using Stock by simp
  qed (simp_all add: r, simp_all add: base_routes_def regex_routes_def rest_routes_def)
  ultimately show ?thesis using s(1) by auto
qed

end
