(* ===== verification/Flags.thy ===== *)
theory Flags
  imports Programs
begin

text \<open>
  The command lines of the two programs: the standard library's \<open>flag\<close> package as they use it, the
  flags each \<open>realMain\<close> defines, what they set, and \<open>main\<close> with its exit status.
\<close>

section \<open>Numbers and truth values\<close>

text \<open>\<open>strconv.ParseUint(s, 0, 64)\<close>: the base is in the prefix, and underscores may stand between digits.\<close>

definition digit_of :: "char \<Rightarrow> nat option" where
  "digit_of c =
     (let l = ascii_lower c; n = of_char l :: nat in
      if is_digit c then Some (of_char c - 48)
      else if 97 \<le> n \<and> n \<le> 122 then Some (n - 97 + 10) else None)"

definition base_prefix :: "string \<Rightarrow> nat \<times> string" where
  "base_prefix s =
     (case s of
        CHR ''0'' # t \<Rightarrow>
          if length s \<ge> 3 \<and> ascii_lower (s ! 1) = CHR ''b'' then (2, drop 2 s)
          else if length s \<ge> 3 \<and> ascii_lower (s ! 1) = CHR ''o'' then (8, drop 2 s)
          else if length s \<ge> 3 \<and> ascii_lower (s ! 1) = CHR ''x'' then (16, drop 2 s)
          else (8, t)
      | _ \<Rightarrow> (10, s))"

fun uint_loop :: "nat \<Rightarrow> string \<Rightarrow> nat \<Rightarrow> nat option" where
  "uint_loop b [] n = Some n"
| "uint_loop b (c # s) n =
     (if c = CHR ''_'' then uint_loop b s n
      else case digit_of c of
        None \<Rightarrow> None
      | Some d \<Rightarrow> if d \<ge> b \<or> n * b + d \<ge> 2 ^ 64 then None else uint_loop b s (n * b + d))"

text \<open>\<open>underscoreOK\<close>: \<open>prev\<close> is the kind of the character before.\<close>

fun underscore_loop :: "bool \<Rightarrow> char \<Rightarrow> string \<Rightarrow> bool" where
  "underscore_loop hex prev [] = (prev \<noteq> CHR ''_'')"
| "underscore_loop hex prev (c # s) =
     (if is_digit c \<or> hex \<and> ascii_lower c \<in> {CHR ''a'', CHR ''b'', CHR ''c'', CHR ''d'', CHR ''e'', CHR ''f''}
      then underscore_loop hex (CHR ''0'') s
      else if c = CHR ''_'' then (prev = CHR ''0'' \<and> underscore_loop hex (CHR ''_'') s)
      else (prev \<noteq> CHR ''_'' \<and> underscore_loop hex (CHR ''!'') s))"

definition underscoreOK :: "string \<Rightarrow> bool" where
  "underscoreOK s =
     (if length s \<ge> 2 \<and> hd s = CHR ''0'' \<and> ascii_lower (s ! 1) \<in> {CHR ''b'', CHR ''o'', CHR ''x''}
      then underscore_loop (ascii_lower (s ! 1) = CHR ''x'') (CHR ''0'') (drop 2 s)
      else underscore_loop False (CHR ''^'') s)"

definition ParseUint0 :: "string \<Rightarrow> nat option" where
  "ParseUint0 s =
     (if s = [] then None
      else case base_prefix s of (b, t) \<Rightarrow>
        (case uint_loop b t 0 of
           None \<Rightarrow> None
         | Some n \<Rightarrow> if CHR ''_'' \<in> set t \<and> \<not> underscoreOK s then None else Some n))"

definition ParseInt0 :: "string \<Rightarrow> int option" where
  "ParseInt0 s =
     (case s of
        [] \<Rightarrow> None
      | c # cs \<Rightarrow>
          let neg = (c = CHR ''-''); t = (if c = CHR ''+'' \<or> neg then cs else s) in
          (case ParseUint0 t of
             None \<Rightarrow> None
           | Some n \<Rightarrow> if \<not> neg \<and> n \<ge> 2 ^ 63 \<or> neg \<and> n > 2 ^ 63 then None
               else Some (if neg then - int n else int n)))"

definition ParseBool :: "string \<Rightarrow> bool option" where
  "ParseBool s =
     (if s \<in> {''1'', ''t'', ''T'', ''true'', ''TRUE'', ''True''} then Some True
      else if s \<in> {''0'', ''f'', ''F'', ''false'', ''FALSE'', ''False''} then Some False
      else None)"

section \<open>flag.Parse\<close>

text \<open>A flag set is the current value of every flag by its name; the initial ones are the defaults.\<close>

datatype flag_value = VString string | VUint nat | VInt int | VBool bool

type_synonym flag_set = "string \<rightharpoonup> flag_value"

definition set_flag :: "flag_value \<Rightarrow> string \<Rightarrow> flag_value option" where
  "set_flag cur x =
     (case cur of
        VString _ \<Rightarrow> Some (VString x)
      | VUint _ \<Rightarrow> map_option VUint (ParseUint0 x)
      | VInt _ \<Rightarrow> map_option VInt (ParseInt0 x)
      | VBool _ \<Rightarrow> map_option VBool (ParseBool x))"

definition is_bool :: "flag_value \<Rightarrow> bool" where
  "is_bool v = (case v of VBool _ \<Rightarrow> True | _ \<Rightarrow> False)"

text \<open>The outcome: the values and the arguments left, or the end of the program (status 0 or 2).\<close>

datatype flag_outcome = Parsed flag_set "string list" | HelpAsked | BadUsage

definition split_value :: "string \<Rightarrow> string \<times> string option" where
  "split_value name =
     (case IndexByte name (CHR ''='') of None \<Rightarrow> (name, None) | Some i \<Rightarrow> (take i name, Some (drop (Suc i) name)))"

function parse_flags :: "flag_set \<Rightarrow> string list \<Rightarrow> flag_outcome" where
  "parse_flags vals [] = Parsed vals []"
| "parse_flags vals (s # args) =
     (if length s < 2 \<or> hd s \<noteq> CHR ''-'' then Parsed vals (s # args)
      else if s = ''--'' then Parsed vals args
      else let name = (if s ! 1 = CHR ''-'' then drop 2 s else drop 1 s) in
        if name = [] \<or> hd name = CHR ''-'' \<or> hd name = CHR ''='' then BadUsage
        else case split_value name of (n, x) \<Rightarrow>
          (case vals n of
             None \<Rightarrow> if n = ''help'' \<or> n = ''h'' then HelpAsked else BadUsage
           | Some cur \<Rightarrow>
               if is_bool cur then
                 (case set_flag cur (case x of Some v \<Rightarrow> v | None \<Rightarrow> ''true'') of
                    None \<Rightarrow> BadUsage | Some v \<Rightarrow> parse_flags (vals(n \<mapsto> v)) args)
               else
                 (case (x, args) of
                    (Some a, _) \<Rightarrow> (case set_flag cur a of None \<Rightarrow> BadUsage | Some v \<Rightarrow> parse_flags (vals(n \<mapsto> v)) args)
                  | (None, a # args') \<Rightarrow> (case set_flag cur a of None \<Rightarrow> BadUsage | Some v \<Rightarrow> parse_flags (vals(n \<mapsto> v)) args')
                  | (None, []) \<Rightarrow> BadUsage)))"
  by pat_completeness auto
termination by (relation "measure (\<lambda>(_, args). length args)") auto

declare parse_flags.simps [simp del]

section \<open>The flags of the programs\<close>

definition common_flags :: flag_set where
  "common_flags =
     [''conf'' \<mapsto> VString [], ''auth-way'' \<mapsto> VUint 0, ''auth-ds'' \<mapsto> VUint 0, ''auth-path'' \<mapsto> VString [],
      ''auth-regex'' \<mapsto> VBool False, ''auth-regex-strict'' \<mapsto> VBool False, ''tcp'' \<mapsto> VString '':1883'',
      ''ws'' \<mapsto> VString '':1882'', ''http'' \<mapsto> VString '':8080'', ''log-enable'' \<mapsto> VBool True,
      ''log-file'' \<mapsto> VString ''./logs/comqtt.log'']"

definition single_flags :: flag_set where
  "single_flags = common_flags(''storage-way'' \<mapsto> VUint 1, ''quic'' \<mapsto> VString '':2000'')"

definition cluster_flags :: flag_set where
  "cluster_flags = common_flags(''storage-way'' \<mapsto> VUint 3, ''node-name'' \<mapsto> VString [], ''bind-ip'' \<mapsto> VString ''127.0.0.1'',
     ''gossip-port'' \<mapsto> VInt 7946, ''raft-port'' \<mapsto> VInt 8946, ''raft-bootstrap'' \<mapsto> VBool False,
     ''raft-log-level'' \<mapsto> VString ''error'', ''members'' \<mapsto> VString [], ''grpc-enable'' \<mapsto> VBool False,
     ''grpc-port'' \<mapsto> VInt 17946, ''redis'' \<mapsto> VString ''127.0.0.1:6379'', ''redis-pass'' \<mapsto> VString [],
     ''redis-db'' \<mapsto> VInt 0, ''nodes-file-dir'' \<mapsto> VString [])"

definition str_flag :: "flag_set \<Rightarrow> string \<Rightarrow> string" where
  "str_flag vals n = (case vals n of Some (VString x) \<Rightarrow> x | _ \<Rightarrow> [])"

definition uint_flag :: "flag_set \<Rightarrow> string \<Rightarrow> nat" where
  "uint_flag vals n = (case vals n of Some (VUint x) \<Rightarrow> x | _ \<Rightarrow> 0)"

definition int_flag :: "flag_set \<Rightarrow> string \<Rightarrow> int" where
  "int_flag vals n = (case vals n of Some (VInt x) \<Rightarrow> x | _ \<Rightarrow> 0)"

definition bool_flag :: "flag_set \<Rightarrow> string \<Rightarrow> bool" where
  "bool_flag vals n = (vals n = Some (VBool True))"

text \<open>The variables the flags are bound to; \<open>new\<close> is \<open>config.New()\<close>. Log and raft settings go to the libraries only.\<close>

definition single_config :: "comqtt_config \<Rightarrow> flag_set \<Rightarrow> comqtt_config" where
  "single_config new vals = new\<lparr>cc_StorageWay := uint_flag vals ''storage-way'',
     cc_Auth := \<lparr>ca_Way = uint_flag vals ''auth-way'', ca_Datasource = uint_flag vals ''auth-ds'', ca_ConfPath = str_flag vals ''auth-path''\<rparr>,
     cc_TCP := str_flag vals ''tcp'', cc_WS := str_flag vals ''ws'', cc_QUIC := str_flag vals ''quic'', cc_HTTP := str_flag vals ''http''\<rparr>"

definition cluster_config :: "comqtt_config \<Rightarrow> flag_set \<Rightarrow> comqtt_config" where
  "cluster_config new vals = new\<lparr>cc_StorageWay := uint_flag vals ''storage-way'',
     cc_Auth := \<lparr>ca_Way = uint_flag vals ''auth-way'', ca_Datasource = uint_flag vals ''auth-ds'', ca_ConfPath = str_flag vals ''auth-path''\<rparr>,
     cc_TCP := str_flag vals ''tcp'', cc_WS := str_flag vals ''ws'', cc_HTTP := str_flag vals ''http'',
     cc_NodeName := str_flag vals ''node-name'', cc_BindPort := int_flag vals ''gossip-port'',
     cc_Redis := (cc_Redis new)\<lparr>rl_Addr := str_flag vals ''redis'', rl_Pass := str_flag vals ''redis-pass'', rl_DB := int_flag vals ''redis-db''\<rparr>\<rparr>"

text \<open>
  \<open>main\<close>: the exit status and the state. \<open>flag.CommandLine\<close> exits by itself, with 0 after printing the
  help and with 2 on an error.
\<close>

definition main ::
  "('x, 'p, 'k, 'a, 's) main_env \<Rightarrow> comqtt_config \<Rightarrow> string list \<Rightarrow> bool \<Rightarrow> ('x, 's) main_state \<Rightarrow> nat \<times> ('x, 's) main_state" where
  "main E new args failed s =
     (case parse_flags single_flags args of
        HelpAsked \<Rightarrow> (0, s)
      | BadUsage \<Rightarrow> (2, s)
      | Parsed vals _ \<Rightarrow>
          (case realMain E (bool_flag vals ''auth-regex'') (bool_flag vals ''auth-regex-strict'') (str_flag vals ''conf'')
              (single_config new vals) failed s of
             (Inl e, s') \<Rightarrow> (1, s') | (Inr u, s') \<Rightarrow> (0, s')))"

definition cluster_main ::
  "('x, 'p, 'k, 'a, 's) main_env \<Rightarrow> comqtt_config \<Rightarrow> string list \<Rightarrow> bool \<Rightarrow> ('x, 's) main_state \<Rightarrow> nat \<times> ('x, 's) main_state" where
  "cluster_main E new args failed s =
     (case parse_flags cluster_flags args of
        HelpAsked \<Rightarrow> (0, s)
      | BadUsage \<Rightarrow> (2, s)
      | Parsed vals _ \<Rightarrow>
          (case cluster_realMain E (bool_flag vals ''auth-regex'') (bool_flag vals ''auth-regex-strict'') (str_flag vals ''conf'')
              (str_flag vals ''members'') (cluster_config new vals) failed s of
             (Inl e, s') \<Rightarrow> (1, s') | (Inr u, s') \<Rightarrow> (0, s')))"

section \<open>What a command line sets\<close>

text \<open>One setting as it is written: \<open>-name=value\<close> or \<open>-name value\<close>, with one dash or two.\<close>

datatype setting = Joined bool string string | Apart bool string string

fun set_name :: "setting \<Rightarrow> string" where
  "set_name (Joined dd n x) = n"
| "set_name (Apart dd n x) = n"

fun set_value :: "setting \<Rightarrow> string" where
  "set_value (Joined dd n x) = x"
| "set_value (Apart dd n x) = x"

fun written :: "setting \<Rightarrow> string list" where
  "written (Joined dd n x) = [(if dd then ''--'' else ''-'') @ n @ ''='' @ x]"
| "written (Apart dd n x) = [(if dd then ''--'' else ''-'') @ n, x]"

definition good_name :: "string \<Rightarrow> bool" where
  "good_name n \<longleftrightarrow> n \<noteq> [] \<and> hd n \<noteq> CHR ''-'' \<and> CHR ''='' \<notin> set n"

text \<open>A setting of a defined flag with a value of its type; a truth value is written with the equals sign.\<close>

definition setting_ok :: "flag_set \<Rightarrow> setting \<Rightarrow> bool" where
  "setting_ok vals q \<longleftrightarrow> good_name (set_name q)
     \<and> (\<exists>cur. vals (set_name q) = Some cur \<and> set_flag cur (set_value q) \<noteq> None
          \<and> (case q of Joined dd n x \<Rightarrow> True | Apart dd n x \<Rightarrow> \<not> is_bool cur))"

lemma split_value_name: "good_name n \<Longrightarrow> split_value n = (n, None)"
proof -
  assume "good_name n"
  then have "IndexByte n (CHR ''='') = None" by (simp add: good_name_def)
  from this show ?thesis unfolding split_value_def by (simp only: option.case)
qed

lemma split_value_joined: "good_name n \<Longrightarrow> split_value (n @ CHR ''='' # x) = (n, Some x)"
  by (simp add: good_name_def split_value_def)

lemma dash_simps:
  assumes "good_name n"
  shows "\<not> length ((if dd then ''--'' else ''-'') @ n @ t) < 2" "hd ((if dd then ''--'' else ''-'') @ n @ t) = CHR ''-''"
    "(if dd then ''--'' else ''-'') @ n @ t \<noteq> ''--''"
    "(if ((if dd then ''--'' else ''-'') @ n @ t) ! 1 = CHR ''-'' then drop 2 ((if dd then ''--'' else ''-'') @ n @ t)
      else drop 1 ((if dd then ''--'' else ''-'') @ n @ t)) = n @ t"
    "n @ t \<noteq> []" "hd (n @ t) \<noteq> CHR ''-''" "hd (n @ t) \<noteq> CHR ''=''"
  using assms by (cases n; auto simp: good_name_def)+

lemma parse_named:
  assumes "good_name n"
  shows "parse_flags vals (((if dd then ''--'' else ''-'') @ n @ t) # args) =
    (case split_value (n @ t) of (n, x) \<Rightarrow>
      (case vals n of
         None \<Rightarrow> if n = ''help'' \<or> n = ''h'' then HelpAsked else BadUsage
       | Some cur \<Rightarrow>
           if is_bool cur then
             (case set_flag cur (case x of Some v \<Rightarrow> v | None \<Rightarrow> ''true'') of
                None \<Rightarrow> BadUsage | Some v \<Rightarrow> parse_flags (vals(n \<mapsto> v)) args)
           else
             (case (x, args) of
                (Some a, _) \<Rightarrow> (case set_flag cur a of None \<Rightarrow> BadUsage | Some v \<Rightarrow> parse_flags (vals(n \<mapsto> v)) args)
              | (None, a # args') \<Rightarrow> (case set_flag cur a of None \<Rightarrow> BadUsage | Some v \<Rightarrow> parse_flags (vals(n \<mapsto> v)) args')
              | (None, []) \<Rightarrow> BadUsage)))"
  by (simp only: parse_flags.simps(2) dash_simps [OF assms] Let_def if_False de_Morgan_disj not_True_eq_False simp_thms)

lemma parse_joined:
  assumes "good_name n" "vals n = Some cur" "set_flag cur x = Some v"
  shows "parse_flags vals (((if dd then ''--'' else ''-'') @ n @ CHR ''='' # x) # args) = parse_flags (vals(n \<mapsto> v)) args"
  unfolding parse_named [OF assms(1)] split_value_joined [OF assms(1)] using assms(2,3) by simp

lemma parse_apart:
  assumes "good_name n" "vals n = Some cur" "set_flag cur x = Some v" "\<not> is_bool cur"
  shows "parse_flags vals (((if dd then ''--'' else ''-'') @ n) # x # args) = parse_flags (vals(n \<mapsto> v)) args"
proof -
  have "parse_flags vals (((if dd then ''--'' else ''-'') @ n @ []) # x # args) = parse_flags (vals(n \<mapsto> v)) args"
    unfolding parse_named [OF assms(1)] unfolding append_Nil2 split_value_name [OF assms(1)] using assms(2-4) by simp
  then show ?thesis by (simp only: append_Nil2)
qed

lemma set_flag_kind: "set_flag cur y = Some v \<Longrightarrow> set_flag v x = set_flag cur x \<and> is_bool v = is_bool cur"
  by (cases cur) (auto simp: set_flag_def is_bool_def)

lemma setting_ok_update:
  assumes "vals n = Some cur" "set_flag cur y = Some v"
  shows "setting_ok (vals(n \<mapsto> v)) q \<longleftrightarrow> setting_ok vals q"
  using assms set_flag_kind [OF assms(2)] by (auto simp: setting_ok_def split: setting.split)

definition last_setting :: "setting list \<Rightarrow> string \<rightharpoonup> string" where
  "last_setting ss = map_of (rev (map (\<lambda>q. (set_name q, set_value q)) ss))"

lemma last_setting_Cons:
  "last_setting (q # ss) n = (case last_setting ss n of Some x \<Rightarrow> Some x
     | None \<Rightarrow> if n = set_name q then Some (set_value q) else None)"
  by (simp add: last_setting_def map_add_def split: option.split)

text \<open>
  Settings in any of the forms and in any order: each flag ends with the value of its last setting, and
  with its default when it has none.
\<close>

theorem command_line_values:
  assumes "\<forall>q \<in> set ss. setting_ok vals q"
  shows "\<exists>vals'. parse_flags vals (concat (map written ss)) = Parsed vals' []
    \<and> (\<forall>n. vals' n = (case last_setting ss n of None \<Rightarrow> vals n | Some x \<Rightarrow> set_flag (the (vals n)) x))"
  using assms
proof (induction ss arbitrary: vals)
  case Nil
  then show ?case by (simp add: parse_flags.simps last_setting_def)
next
  case (Cons q ss)
  obtain cur v where c: "good_name (set_name q)" "vals (set_name q) = Some cur" "set_flag cur (set_value q) = Some v"
      "case q of Joined dd n x \<Rightarrow> True | Apart dd n x \<Rightarrow> \<not> is_bool cur"
    using Cons.prems by (auto simp: setting_ok_def)
  let ?vals = "vals(set_name q \<mapsto> v)"
  have step: "parse_flags vals (written q @ args) = parse_flags ?vals args" for args
    using c parse_joined parse_apart by (cases q) simp_all
  have "\<forall>r \<in> set ss. setting_ok ?vals r" using Cons.prems setting_ok_update [where vals = vals and n = "set_name q", OF c(2,3)] by simp
  from Cons.IH [OF this] obtain vals' where p: "parse_flags ?vals (concat (map written ss)) = Parsed vals' []"
    "\<And>n. vals' n = (case last_setting ss n of None \<Rightarrow> ?vals n | Some x \<Rightarrow> set_flag (the (?vals n)) x)"
    by blast
  show ?case
    using p(1) step c(2,3) set_flag_kind [OF c(3)]
    by (intro exI [of _ vals']) (auto simp: p(2) last_setting_Cons split: option.split)
qed

section \<open>The configuration file\<close>

lemma start_conf: "conf \<noteq> [] \<Longrightarrow> start E regex strict conf cfg = start E regex strict conf cfg'"
  by (simp add: start_def read_config_def)

lemma cluster_start_conf:
  "conf \<noteq> [] \<Longrightarrow> cluster_start E regex strict conf members cfg = cluster_start E regex strict conf members' cfg'"
  by (simp add: cluster_start_def cluster_read_config_def)

text \<open>
  C7. A configuration file replaces the command line. When a command line names a configuration file,
  what the program does and its exit status depend on that name and on the two flags of the regex
  layer alone: every other flag, given or not, has no effect, in both programs.
\<close>

theorem conf_file_decides:
  assumes "parse_flags (if clustered then cluster_flags else single_flags) args = Parsed vals rest"
    and "parse_flags (if clustered then cluster_flags else single_flags) args' = Parsed vals' rest'"
    and "str_flag vals ''conf'' \<noteq> []" "str_flag vals' ''conf'' = str_flag vals ''conf''"
    and "bool_flag vals' ''auth-regex'' = bool_flag vals ''auth-regex''"
    and "bool_flag vals' ''auth-regex-strict'' = bool_flag vals ''auth-regex-strict''"
  shows "(if clustered then cluster_main E new args failed s else main E new args failed s)
    = (if clustered then cluster_main E new args' failed s else main E new args' failed s)"
proof (cases clustered)
  case True
  have "cluster_realMain E regex strict (str_flag vals ''conf'') members (cluster_config new vals) failed
      = cluster_realMain E regex strict (str_flag vals ''conf'') members' (cluster_config new vals') failed" for regex strict members members'
    unfolding cluster_realMain_def cluster_start_conf [OF assms(3), of E regex strict members "cluster_config new vals" members' "cluster_config new vals'"] ..
  from this [of _ _ "str_flag vals ''members''" "str_flag vals' ''members''"] True assms(1,2) show ?thesis
    by (simp add: cluster_main_def assms(4-6))
next
  case False
  have "realMain E regex strict (str_flag vals ''conf'') (single_config new vals) failed
      = realMain E regex strict (str_flag vals ''conf'') (single_config new vals') failed" for regex strict
    unfolding realMain_def start_conf [OF assms(3), of E regex strict "single_config new vals" "single_config new vals'"] ..
  with False assms(1,2) show ?thesis by (simp add: main_def assms(4-6))
qed

definition some_settings :: "setting list" where
  "some_settings = [Joined False ''conf'' ''f'', Apart True ''tcp'' '':1884'']"

definition other_settings :: "setting list" where
  "other_settings = [Joined True ''log-enable'' ''f'', Apart False ''conf'' ''f'']"

lemma demo_settings_ok:
  "\<forall>q \<in> set some_settings. setting_ok single_flags q" "\<forall>q \<in> set other_settings. setting_ok single_flags q"
  by (simp_all add: some_settings_def other_settings_def setting_ok_def good_name_def single_flags_def common_flags_def
      set_flag_def is_bool_def ParseBool_def)

lemma demo_settings_last:
  "last_setting some_settings ''conf'' = Some ''f''" "last_setting other_settings ''conf'' = Some ''f''"
  "last_setting some_settings ''auth-regex'' = None" "last_setting other_settings ''auth-regex'' = None"
  "last_setting some_settings ''auth-regex-strict'' = None" "last_setting other_settings ''auth-regex-strict'' = None"
  by (simp_all add: some_settings_def other_settings_def last_setting_def)

lemma demo_flag_defaults:
  "single_flags ''conf'' = Some (VString [])" "single_flags ''auth-regex'' = Some (VBool False)"
  "single_flags ''auth-regex-strict'' = Some (VBool False)"
  by (simp_all add: single_flags_def common_flags_def)

theorem conf_file_decides_witness:
  "main demo_main demo_config [''-conf=f'', ''--tcp'', '':1884''] False demo_state
     = main demo_main demo_config [''--log-enable=f'', ''-conf'', ''f''] False demo_state"
proof -
  obtain vals where v: "parse_flags single_flags (concat (map written some_settings)) = Parsed vals []"
    "\<And>n. vals n = (case last_setting some_settings n of None \<Rightarrow> single_flags n | Some x \<Rightarrow> set_flag (the (single_flags n)) x)"
    using command_line_values [OF demo_settings_ok(1)] by blast
  obtain vals' where v': "parse_flags single_flags (concat (map written other_settings)) = Parsed vals' []"
    "\<And>n. vals' n = (case last_setting other_settings n of None \<Rightarrow> single_flags n | Some x \<Rightarrow> set_flag (the (single_flags n)) x)"
    using command_line_values [OF demo_settings_ok(2)] by blast
  have f: "str_flag vals ''conf'' = ''f''" "str_flag vals' ''conf'' = ''f''"
      "\<not> bool_flag vals ''auth-regex''" "\<not> bool_flag vals' ''auth-regex''"
      "\<not> bool_flag vals ''auth-regex-strict''" "\<not> bool_flag vals' ''auth-regex-strict''"
    by (simp_all add: str_flag_def bool_flag_def v(2) v'(2) demo_settings_last demo_flag_defaults set_flag_def)
  have w: "concat (map written some_settings) = [''-conf=f'', ''--tcp'', '':1884'']"
      "concat (map written other_settings) = [''--log-enable=f'', ''-conf'', ''f'']"
    by (simp_all add: some_settings_def other_settings_def)
  from v(1) v'(1) have "parse_flags (if False then cluster_flags else single_flags) [''-conf=f'', ''--tcp'', '':1884''] = Parsed vals []"
      "parse_flags (if False then cluster_flags else single_flags) [''--log-enable=f'', ''-conf'', ''f''] = Parsed vals' []"
    by (simp_all only: w if_False)
  note r = conf_file_decides [OF this, where E = demo_main and new = demo_config and failed = False and s = demo_state, simplified f]
  show ?thesis using r by simp
qed

end
