(* ===== verification/Spec2Isabelle.thy ===== *)
theory Spec2Isabelle
  imports Pages BridgeRun ClusterRest BrokerPages MqttPages RedisCluster Events Backends Programs Flags
begin

text \<open>
  comqtt-dashboard adds a web dashboard, a REST interface and a cluster-wide mirror of it to the MQTT
  broker comqtt, in two programs: one node (\<open>cmd/comqtt-dashboard\<close>) and a cluster
  (\<open>cmd/comqtt-cluster-dashboard\<close>). This development models the Go code under \<open>src/\<close> that is its own
  and proves what makes it correct. This file imports every other theory and holds the properties
  of the whole login path; each other theory opens with a note of its own. A property is labelled
  C1 to C40; its witness applies it to concrete data.

  \<^bold>\<open>The parts and how they interact.\<close>
  A program (\<open>realMain\<close>) reads the broker's configuration, gives the broker its hooks and listeners,
  opens the backend that manages the store the broker authenticates against, seeds the regex layer,
  and mounts the handlers of the REST interface and of the dashboard on one HTTP listener. The
  dashboard (\<open>dashboard.Routes\<close>) chooses a session secret and a credential store (a file, or redis in
  a cluster), wraps every handler but five in the session check, and starts the event hub and, in a
  cluster, its bridge. Handlers act on a snapshot of the broker, on the credential store, or on the
  backend; events go from the broker's hooks through the hub to the event page of every browser.

  \<^bold>\<open>Which theory models what.\<close>
  \<^item> \<open>Prelude\<close>, \<open>Base64\<close>, \<open>Url\<close>, \<open>Http\<close>, \<open>Float64\<close>: what the code uses of Go and of its standard library
    (64-bit wrap-around, \<open>TrimSpace\<close>, \<open>Split\<close>, \<open>ParseInt\<close>, \<open>FormatInt\<close>, base64, URL escaping, responses
    and cookies, the rounding of float64), with the list and map lemmas the components share.
  \<^item> \<open>CredStore\<close>: accounts and the interface of \<open>auth/credstore.go\<close> as a record of operations, with
    its contract as the locale \<open>cred_store\<close> (and \<open>reliable_cred_store\<close>: failed operations change
    nothing). \<open>FileStore\<close> is \<open>credstore_file.go\<close> on the decoded document; \<open>Redis\<close> is the interface to
    redis (locale \<open>redis_server\<close> and a server in memory that satisfies it); \<open>RedisStore\<close> is
    \<open>credstore_redis.go\<close> and \<open>secret_redis.go\<close>, also command by command for several nodes
    (\<open>RedisCluster\<close>). Both stores are interpretations of the contract.
  \<^item> \<open>Session\<close> (\<open>auth/session.go\<close>, \<open>csrf.go\<close>), \<open>LockoutModel\<close> (\<open>auth/lockout.go\<close>), \<open>Middleware\<close>
    (\<open>auth/middleware.go\<close>), \<open>Account\<close> and \<open>Users\<close> (\<open>handlers/account.go\<close>, \<open>users.go\<close>).
  \<^item> \<open>Sse\<close>: hub, bridge and hooks (\<open>sse/*.go\<close>), the hub as a step relation of goroutines under its
    lock; \<open>BridgeRun\<close>: the goroutines of the bridge from \<open>Start\<close> to \<open>Stop\<close>; \<open>Events\<close>: the page that streams to a browser (\<open>handlers/events.go\<close>), round by round on that hub.
  \<^item> \<open>Pagination\<close>, \<open>TopicTree\<close>, \<open>RestApi\<close> (\<open>rest/*.go\<close>), \<open>ClusterRest\<close> (\<open>cluster/rest/*.go\<close>),
    \<open>BrokerPages\<close> (eight files of \<open>handlers/\<close>), \<open>Overview\<close> (\<open>overview.go\<close>, \<open>sparkline.go\<close>, \<open>cluster.go\<close>)
    with \<open>Topology\<close>, its drawing of the nodes (\<open>topology.go\<close>).
  \<^item> \<open>Writer\<close>: the response writer and the answers of \<open>rest/http.go\<close>; \<open>Html\<close>: escaping, and a scanner for
    the markup the code writes by itself; \<open>Templates\<close> and \<open>Rendering\<close>: which file defines which block,
    and the renderer with what it keeps (\<open>templates.go\<close>); \<open>Settings\<close> (\<open>settings.go\<close>).
  \<^item> \<open>MqttAuth\<close>: types, hashing and the \<open>Backend\<close> interface of \<open>mqttauth/\<close>, with the locale
    \<open>mqtt_backend\<close>; \<open>MqttFile\<close>, \<open>MqttRedis\<close>, \<open>MqttSql\<close> (\<open>file.go\<close>, \<open>redis.go\<close>, \<open>sql.go\<close>) are its three
    implementations, each an interpretation or a sublocale under the documented behaviour of its
    server; \<open>Backends\<close> compares them; \<open>MqttConfig\<close> chooses one (\<open>configloader.go\<close>, \<open>factory.go\<close>, and
    the loader of the regex layer). \<open>MqttPages\<close> and \<open>RegexPages\<close> are the pages over them.
  \<^item> \<open>Dashboard\<close>: \<open>dashboard/dashboard.go\<close> and \<open>cmd/*/config.go\<close>; \<open>Pages\<close>: what \<open>Routes\<close> gives the
    handlers, and the links of the navigation; \<open>Binaries\<close>: both \<open>main.go\<close>; \<open>Programs\<close>: what a start of
    them guarantees; \<open>Flags\<close>: the command lines and \<open>main\<close>.

  A struct is a record, an interface value a record of its methods, an error a value of a sum type
  (its fixed text where the code looks at it), a string or byte slice a list of bytes, an int an
  integer with the wrap-around written out where it can matter, a map a HOL map or an association
  list where its order or its duplicates matter. A handler is a function of the request's form, path
  values and context that returns the response (templates are the data they are given) and the new
  state.

  \<^bold>\<open>What the properties show.\<close>
  Access: which handler a request reaches and when (\<open>routes_authorized\<close>, \<open>served_routes\<close>), what a
  cookie proves (\<open>Verify_accepts_iff\<close>, \<open>dashboard_login\<close>), that guessing is locked out
  (\<open>guessing_locked_out\<close>, \<open>lockout_refines_reference\<close>), that the login redirect stays local, that a
  served broker authenticates (\<open>served_broker_authenticates\<close>), that no page links to what its user
  cannot open (\<open>nav_links_served\<close>), which settings count (\<open>conf_file_decides\<close>). Accounts: an administrator is kept
  (\<open>dashboard_keeps_admin\<close>, \<open>redis_keeps_admin\<close>), accounts stay well-typed, the nodes agree on a secret
  and each of them gets it (\<open>secret_agreement\<close>, \<open>secret_reached\<close>). Events: no send on a closed channel, no
  loops, a browser reads exactly what was sent, a handler returns (\<open>hub_interleavings_safe\<close>,
  \<open>bridge_no_loops\<close>, \<open>bridge_stops\<close>, \<open>events_page_stream\<close>, \<open>events_page_returns\<close>). Lists: independence of map order,
  complete pages, cluster unions and trees, agreement of the pages with the REST answers. Pages: the
  blocks a page is made of, whatever was rendered before (\<open>render_own_page\<close>, and what has no page:
  \<open>shared_block_unrendered\<close>), the exact elements and text of the cluster drawing
  (\<open>topology_structure\<close>), the answers of the settings page. Broker
  accounts: round trips, atomicity, interchangeable backends, plain SQL texts, seeding once.

  \<^bold>\<open>Parameters and their hypotheses.\<close>
  bcrypt and the other hashes, HMAC, the JSON and YAML codecs, redis, SQL databases, the HTTP
  transport, html/template, the colouring library, sine and cosine, comqttauth, and the broker with its
  cluster agent are not under \<open>src/\<close> or are libraries: they are arguments
  of the definitions, with documented behaviour as the assumptions of a locale or named hypotheses
  of a theorem (JSON: what was encoded decodes to itself, which holds for valid UTF-8; \<open>sort.Slice\<close>: a
  sorted permutation). Each has a concrete instance here that satisfies them. \<open>WATCH\<close>/\<open>MULTI\<close> is one
  atomic step. The broker's maps are read as one snapshot per request. float64 values are rationals
  with an explicit rounding after each operation (no fused multiply-add); the exponent range is not bounded.

  \<^bold>\<open>Bounds.\<close> No definition takes fuel: every loop is structural recursion over what it ranges over, a
  digit loop over its number, a scan over the text or the arguments that are left. Goroutines that run for ever (hub, bridge, event page, sampler) are
  rounds or steps, and termination is a statement about them.

  \<^bold>\<open>Not modelled.\<close>
  What html/template makes of a tree and its data (the text of the template files counts only for the
  names of their blocks and the links of the navigation), \<open>embed.go\<close> (a directory that is embedded),
  logging and pprof of the programs, and the tests. Of the pages' data, titles and static texts are
  left out where no code depends on them.
\<close>

section \<open>From the login form to the pages\<close>

lemma LoginPost_Username:
  assumes "cred_store S view ok" "ok store" "fst (snd (LoginPost d S e tls form store lock)) = Some ck"
  obtains u :: User and cookie where "Username u = TrimSpace (form ''username'')"
    "Sign (sc_hmac (ad_session d)) (sc_marshal (ad_session d)) (sc_secret (ad_session d))
       \<lparr>spUsername = Username u, spRole = Role u, Exp = Unix (clock e + ttl d), Nonce = ad_nonce d\<rparr> = Inr cookie"
    "CookieValue ck = cookie"
proof -
  obtain u cookie where a: "Authenticate S e (TrimSpace (form ''username'')) (form ''password'') store = Inr u"
    and s: "Sign (sc_hmac (ad_session d)) (sc_marshal (ad_session d)) (sc_secret (ad_session d))
       \<lparr>spUsername = Username u, spRole = Role u, Exp = Unix (clock e + ttl d), Nonce = ad_nonce d\<rparr> = Inr cookie"
    and c: "ck = session_cookie cookie tls (whole_seconds (ttl d))"
    using assms(3) unfolding LoginPost_cookie by blast
  have n: "Username u = TrimSpace (form ''username'')"
    using cred_store.Authenticate_Inr [OF assms(1,2) a] cred_store.view_Username [OF assms(1,2)] by blast
  have "CookieValue ck = cookie" using c by (simp add: session_cookie_def)
  from that [OF n s this] show ?thesis .
qed

text \<open>
  A session is the account at the time of each request. Over any credential store that meets its
  contract, the cookie a login sets admits exactly until the lifetime it was issued with has
  passed, and what it admits as is the account that is then stored under the name that logged in:
  a change of role or password policy takes effect on the next request, and a deleted account is
  sent back to the login page, although the cookie still verifies.
\<close>

theorem login_session:
  assumes "cred_store S view ok" "ok store"
    and "fst (snd (LoginPost d S e tls form store lock)) = Some ck"
    and "\<And>p body. sc_marshal (ad_session d) p = Some body \<Longrightarrow> sc_unmarshal (ad_session d) body = Some p"
    and "\<not> isExempt path"
  shows "RequireAuth (ad_session d) S days tm store' path (Some (CookieValue ck)) None = Admit c \<longleftrightarrow>
      Unix tm \<le> Unix (clock e + ttl d)
      \<and> (\<exists>u. GetUser S (TrimSpace (form ''username'')) store' = Inr u \<and> policy_allows days tm path u \<and> c = Some u)"
proof -
  obtain u :: User and cookie where u: "Username u = TrimSpace (form ''username'')"
    and s: "Sign (sc_hmac (ad_session d)) (sc_marshal (ad_session d)) (sc_secret (ad_session d))
       \<lparr>spUsername = Username u, spRole = Role u, Exp = Unix (clock e + ttl d), Nonce = ad_nonce d\<rparr> = Inr cookie"
    and c: "CookieValue ck = cookie"
    by (rule LoginPost_Username [OF assms(1-3)])
  let ?p = "\<lparr>spUsername = Username u, spRole = Role u, Exp = Unix (clock e + ttl d), Nonce = ad_nonce d\<rparr>"
  obtain body where body: "sc_marshal (ad_session d) ?p = Some body"
    using s by (auto simp: Sign_def split: option.splits)
  have "Verify (sc_hmac (ad_session d)) (sc_unmarshal (ad_session d)) (Unix tm) (sc_secret (ad_session d)) cookie
      = (if Unix tm > Unix (clock e + ttl d) then Inl ErrExpired else Inr ?p)"
    using Verify_Sign_general [where marshal = "sc_marshal (ad_session d)" and unmarshal = "sc_unmarshal (ad_session d)"
        and p = ?p, OF body assms(4) [OF body] s] by simp
  then show ?thesis
    unfolding RequireAuth_Admit c using assms(5) u by (auto split: if_splits)
qed

text \<open>A file with the account \<open>root\<close> and a session codec that keeps the whole payload.\<close>

definition login_env :: auth_env where
  "login_env = demo_env\<lparr>clock := 62135596800000000000\<rparr>"

definition login_deps :: AccountDeps where
  "login_deps = \<lparr>ad_session = \<lparr>sc_hmac = (\<lambda>k m. k @ m), sc_marshal = (\<lambda>p. if spUsername p = ''root'' \<and> spRole p = RoleAdmin
        \<and> Exp p = 43200 \<and> Nonce p = [] then Some ''x'' else None),
      sc_unmarshal = (\<lambda>b. Some \<lparr>spUsername = ''root'', spRole = RoleAdmin, Exp = 43200, Nonce = []\<rparr>), sc_secret = ''k''\<rparr>,
     SessionTTL = 0, ad_parse = (\<lambda>_. None), ad_nonce = []\<rparr>"

definition login_form :: form_values where
  "login_form = (\<lambda>k. if k = ''username'' then ''root'' else if k = ''password'' then ''hash'' else [])"

lemma TrimSpace_root [simp]: "TrimSpace ''root'' = ''root''"
  by (rule TrimSpace_id) (simp_all add: visible_def)

lemma login_form_username [simp]: "TrimSpace (login_form ''username'') = ''root''"
  by (simp add: login_form_def)

lemma login_demo:
  "fst (snd (LoginPost login_deps FileStore_ops login_env False login_form (demo_store [(''root'', RoleAdmin)])
     (NewLockout \<lparr>Threshold = 5, Window = 10, Duration = 10\<rparr>)))
   = Some (session_cookie (EncodeToString ''x'' @ CHR ''.'' # EncodeToString (''k'' @ EncodeToString ''x'')) False 43200)"
  by (simp add: LoginPost_def Let_def IsLocked_def NewLockout_def fs_Authenticate_def FileStore_ops_def demo_store_def
      fs_load_def new_user_def zero_User_def login_env_def demo_env_def Unix_def login_deps_def Sign_def ttl_def
      sgn_if whole_seconds_def sanitizeNext_def login_form_def)

theorem login_session_witness:
  "\<exists>ck. fst (snd (LoginPost login_deps FileStore_ops login_env False login_form (demo_store [(''root'', RoleAdmin)])
       (NewLockout \<lparr>Threshold = 5, Window = 10, Duration = 10\<rparr>))) = Some ck
     \<and> (\<forall>c. RequireAuth (ad_session login_deps) FileStore_ops 90 0 (demo_store []) ''/dashboard/''
          (Some (CookieValue ck)) None \<noteq> Admit c)"
proof -
  have codec: "sc_marshal (ad_session login_deps) p = Some body \<Longrightarrow> sc_unmarshal (ad_session login_deps) body = Some p" for p body
    by (auto simp: login_deps_def split: if_splits)
  have "fs_inv (demo_store [(''root'', RoleAdmin)])" by (simp add: fs_inv_def demo_store_def new_user_def)
  from login_session [OF fs.cred_store_axioms this login_demo codec, of "''/dashboard/''" 90 0 "demo_store []"]
  have "\<forall>c. RequireAuth (ad_session login_deps) FileStore_ops 90 0 (demo_store []) ''/dashboard/''
      (Some (CookieValue (session_cookie (EncodeToString ''x'' @ CHR ''.'' # EncodeToString (''k'' @ EncodeToString ''x''))
        False 43200))) None \<noteq> Admit c"
    by (simp add: isExempt_def FileStore_ops_def fs_GetUser_def demo_store_def fs_load_def)
  then show ?thesis using login_demo by blast
qed

text \<open>The options a started dashboard works with.\<close>

lemma applyDefaults_settings:
  assumes "applyDefaults e opts s = (Inr o1, s1)"
  shows "op_SessionTTL o1 = op_SessionTTL (settings_defaults e opts)"
    "op_PasswordExpiryDays o1 = op_PasswordExpiryDays (settings_defaults e opts)"
  using assms by (auto simp: applyDefaults_def Let_def split: if_splits prod.splits sum.splits option.splits)

lemma Routes_settings:
  assumes "Routes e a enc given dir_ok doc w hook_ok opts s = (Inr db, s')"
  shows "op_SessionTTL (db_Options db) = (if op_SessionTTL opts = 0 then 12 * 3600 * 1000000000 else op_SessionTTL opts)"
    "op_PasswordExpiryDays (db_Options db) = (if op_PasswordExpiryDays opts = 0 then 90 else op_PasswordExpiryDays opts)"
proof -
  obtain s1 where "applyDefaults e opts s = (Inr (db_Options db), s1)"
    using assms by (auto simp: Routes_def split: if_splits prod.splits sum.splits)
  from applyDefaults_settings [OF this]
  show "op_SessionTTL (db_Options db) = (if op_SessionTTL opts = 0 then 12 * 3600 * 1000000000 else op_SessionTTL opts)"
    "op_PasswordExpiryDays (db_Options db) = (if op_PasswordExpiryDays opts = 0 then 90 else op_PasswordExpiryDays opts)"
    by (simp_all add: settings_defaults_def Let_def)
qed

text \<open>
  C2. Logging in to a started dashboard. When \<open>Routes\<close> has started a dashboard, the cookie its login page
  sets opens its guarded handlers, and a handler then runs, exactly until the configured session
  lifetime (twelve hours if none is) has passed since the login, and as the account that is stored at
  that time under the name that logged in, if the password policy (ninety days if none is configured)
  lets that account in: a change of role or password takes effect on the next request, and a deleted
  account is sent back to the login page although its cookie still verifies.
\<close>

theorem dashboard_login:
  assumes "Routes e a enc given dir_ok doc wo hook_ok opts s = (Inr db, s')"
    and "cred_store S view ok" "ok store"
    and "fst (snd (LoginPost (accountDeps (db_Options db) d) S env tls form store lock)) = Some ck"
    and "\<And>p body. sc_marshal (ad_session d) p = Some body \<Longrightarrow> sc_unmarshal (ad_session d) body = Some p"
    and "\<not> isExempt path"
  shows "wrap (ad_session (accountDeps (db_Options db) d)) S (op_PasswordExpiryDays (db_Options db)) tm store' path
        (Some (CookieValue ck)) h = Inr r \<longleftrightarrow>
      Unix tm \<le> Unix (clock env + (if op_SessionTTL opts = 0 then 12 * 3600 * 1000000000 else op_SessionTTL opts))
      \<and> (\<exists>u. GetUser S (TrimSpace (form ''username'')) store' = Inr u
           \<and> policy_allows (if op_PasswordExpiryDays opts = 0 then 90 else op_PasswordExpiryDays opts) tm path u
           \<and> r = h (Some u))"
proof -
  let ?d = "accountDeps (db_Options db) d"
  have codec: "sc_marshal (ad_session ?d) p = Some body \<Longrightarrow> sc_unmarshal (ad_session ?d) body = Some p" for p body
    using assms(5) by (simp add: accountDeps_def)
  have ttl: "ttl ?d = (if op_SessionTTL opts = 0 then 12 * 3600 * 1000000000 else op_SessionTTL opts)"
    by (simp add: ttl_def accountDeps_def Routes_settings [OF assms(1)])
  have w: "wrap (ad_session ?d) S days tm store' path (Some (CookieValue ck)) h = Inr r \<longleftrightarrow>
      (\<exists>c. RequireAuth (ad_session ?d) S days tm store' path (Some (CookieValue ck)) None = Admit c \<and> r = h c)" for days
    by (auto simp: wrap_def split: decision.split)
  have "RequireAuth (ad_session ?d) S days tm store' path (Some (CookieValue ck)) None = Admit c \<longleftrightarrow>
      Unix tm \<le> Unix (clock env + ttl ?d)
      \<and> (\<exists>u. GetUser S (TrimSpace (form ''username'')) store' = Inr u \<and> policy_allows days tm path u \<and> c = Some u)" for days c
    by (rule login_session [OF assms(2-4) codec assms(6)])
  then show ?thesis unfolding w ttl Routes_settings(2) [OF assms(1)] by auto
qed

text \<open>A dashboard with a given store and secret; the account \<open>root\<close> has been deleted since the login.\<close>

definition login_options :: "unit Options" where
  "login_options = demo_options\<lparr>op_Secret := Some ''k''\<rparr>"

definition login_boot :: boot_env where
  "login_boot = \<lparr>be_hostname = None, be_env_secret = [], be_rand = None, be_redis_rand = None, be_mkdir_ok = True,
     be_write_ok = True, be_torn = None\<rparr>"

lemma login_dashboard:
  obtains db s' where "Routes login_boot login_env (\<lambda>u. []) (Some ()) True (UsersDoc []) WriteOk True login_options
      \<lparr>bs_file = None, bs_redis = ()\<rparr> = (Inr db, s')"
    "accountDeps (db_Options db) login_deps = login_deps\<lparr>SessionTTL := 12 * 3600 * 1000000000\<rparr>"
    "op_PasswordExpiryDays (db_Options db) = 90"
  by (simp add: Routes_def applyDefaults_def settings_defaults_def login_options_def demo_options_def Let_def open_store_def
      accountDeps_def login_deps_def orElse_def)

lemma login_dashboard_cookie:
  "fst (snd (LoginPost (login_deps\<lparr>SessionTTL := 12 * 3600 * 1000000000\<rparr>) FileStore_ops login_env False login_form
       (demo_store [(''root'', RoleAdmin)]) (NewLockout \<lparr>Threshold = 5, Window = 10, Duration = 10\<rparr>)))
   = Some (session_cookie (EncodeToString ''x'' @ CHR ''.'' # EncodeToString (''k'' @ EncodeToString ''x'')) False 43200)"
  by (simp add: LoginPost_def Let_def IsLocked_def NewLockout_def fs_Authenticate_def FileStore_ops_def demo_store_def
      fs_load_def new_user_def zero_User_def login_env_def demo_env_def Unix_def login_deps_def Sign_def ttl_def
      sgn_if whole_seconds_def sanitizeNext_def login_form_def)

theorem dashboard_login_witness:
  "\<exists>db s' ck. Routes login_boot login_env (\<lambda>u. []) (Some ()) True (UsersDoc []) WriteOk True login_options
        \<lparr>bs_file = None, bs_redis = ()\<rparr> = (Inr db, s')
     \<and> fst (snd (LoginPost (accountDeps (db_Options db) login_deps) FileStore_ops login_env False login_form
          (demo_store [(''root'', RoleAdmin)]) (NewLockout \<lparr>Threshold = 5, Window = 10, Duration = 10\<rparr>))) = Some ck
     \<and> (\<forall>r. wrap (ad_session (accountDeps (db_Options db) login_deps)) FileStore_ops (op_PasswordExpiryDays (db_Options db)) 0
          (demo_store []) ''/dashboard/'' (Some (CookieValue ck)) (\<lambda>c. c) \<noteq> Inr r)"
proof -
  obtain db s' where db: "Routes login_boot login_env (\<lambda>u. []) (Some ()) True (UsersDoc []) WriteOk True login_options
      \<lparr>bs_file = None, bs_redis = ()\<rparr> = (Inr db, s')"
    and d: "accountDeps (db_Options db) login_deps = login_deps\<lparr>SessionTTL := 12 * 3600 * 1000000000\<rparr>"
    by (rule login_dashboard)
  note ck = login_dashboard_cookie [folded d]
  have codec: "sc_marshal (ad_session login_deps) p = Some body \<Longrightarrow> sc_unmarshal (ad_session login_deps) body = Some p" for p body
    by (auto simp: login_deps_def split: if_splits)
  have "fs_inv (demo_store [(''root'', RoleAdmin)])" by (simp add: fs_inv_def demo_store_def new_user_def)
  from dashboard_login [OF db fs.cred_store_axioms this ck codec, of "''/dashboard/''" 0 "demo_store []" "\<lambda>c. c"]
  have "\<forall>r. wrap (ad_session (accountDeps (db_Options db) login_deps)) FileStore_ops (op_PasswordExpiryDays (db_Options db)) 0
      (demo_store []) ''/dashboard/'' (Some (CookieValue (session_cookie (EncodeToString ''x'' @ CHR ''.''
        # EncodeToString (''k'' @ EncodeToString ''x'')) False 43200))) (\<lambda>c. c) \<noteq> Inr r"
    by (simp add: isExempt_def FileStore_ops_def fs_GetUser_def demo_store_def fs_load_def)
  then show ?thesis using db ck by blast
qed

text \<open>
  C4. Guessing is stopped: when an account without recorded failures gets as many wrong passwords as
  the threshold, all inside one window, then no login request for it is answered with a cookie
  until the lock duration after the last of them has passed, not even with the right password,
  whatever the store holds by then.
\<close>

theorem guessing_locked_out:
  assumes "sorted (map (\<lambda>r. clock (fst r)) rs)" "\<forall>r \<in> set rs. wrong_login S store n r"
    and "\<forall>r \<in> set rs. \<forall>r' \<in> set rs. clock (fst r) - clock (fst r') < Window (lcfg lock)"
    and "int (length rs) = Threshold (lcfg lock)" "rs \<noteq> []"
    and "failures (entry lock n) = []" "\<forall>r \<in> set rs. lockedUntil (entry lock n) \<le> clock (fst r)"
    and "\<forall>r \<in> set rs. 0 \<le> clock (fst r)"
    and "0 \<le> clock e" "clock e < clock (fst (last rs)) + Duration (lcfg lock)"
    and "TrimSpace (form ''username'') = n"
  shows "fst (snd (LoginPost d S' e tls form store' (login_run d S tls store rs lock))) = None"
proof -
  let ?ts = "map (\<lambda>r. clock (fst r)) (butlast rs)" let ?t = "clock (fst (last rs))"
  have split: "map (\<lambda>r. clock (fst r)) rs = ?ts @ [?t]"
    using append_butlast_last_id [OF assms(5)] by (metis (no_types) map_append list.simps(8,9))
  have run: "login_run d S tls store rs lock = fold (\<lambda>t. Record t n) (?ts @ [?t]) lock"
    unfolding split [symmetric]
    by (rule login_run_records [OF assms(1,2,3) _ assms(6,7,8)]) (use assms(4) in simp)
  have "set (?ts @ [?t]) = (\<lambda>r. clock (fst r)) ` set rs" using split by (metis set_map)
  then have w: "\<forall>x \<in> set (?ts @ [?t]). \<forall>y \<in> set (?ts @ [?t]). x - y < Window (lcfg lock)"
    using assms(3) by simp
  have "int (length ?ts) + 1 = Threshold (lcfg lock)" using assms(4,5) by (cases rs) auto
  then have "lockedUntil (entry (login_run d S tls store rs lock) n) = ?t + Duration (lcfg lock)"
    unfolding run using burst_locks [OF _ w _ assms(6)] assms(1) split by simp
  then have "fst (IsLocked (clock e) (TrimSpace (form ''username'')) (login_run d S tls store rs lock))"
    using assms(9-11) by (simp add: IsLocked_entry)
  then obtain nxt until where "LoginPost d S' e tls form store' (login_run d S tls store rs lock)
      = (Render StatusUnauthorized (LoginPage nxt (LockedTill until)), None, login_run d S tls store rs lock)"
    using LoginPost_locked [of e form "login_run d S tls store rs lock" d S' tls store'] by blast
  then show ?thesis by simp
qed

text \<open>Two wrong passwords for \<open>root\<close> where two are allowed.\<close>

definition wrong_form :: form_values where
  "wrong_form = (\<lambda>k. if k = ''username'' then ''root'' else ''guess'')"

lemma wrong_root: "wrong_login FileStore_ops (demo_store [(''root'', RoleAdmin)]) ''root'' (login_env, wrong_form)"
  by (simp add: wrong_login_def wrong_form_def fs_Authenticate_def FileStore_ops_def demo_store_def fs_load_def
      new_user_def zero_User_def login_env_def demo_env_def Unix_def)

theorem guessing_locked_out_witness:
  "fst (snd (LoginPost login_deps FileStore_ops login_env False login_form (demo_store [(''root'', RoleAdmin)])
     (login_run login_deps FileStore_ops False (demo_store [(''root'', RoleAdmin)])
       [(login_env, wrong_form), (login_env, wrong_form)] (NewLockout \<lparr>Threshold = 2, Window = 10, Duration = 10\<rparr>)))) = None"
  by (rule guessing_locked_out [of _ _ _ "''root''"])
    (simp_all add: wrong_root NewLockout_def entry_def, simp_all add: login_env_def)

end
